theory Spec2Isabelle
  imports Complex_Main
begin

section \<open>Conventions of the embedding\<close>

text \<open>
  The C++ sources are embedded shallowly. A \<^verbatim>\<open>double\<close> is a \<^typ>\<open>real\<close>: sums, products
  and quotients are exact, and rounding is outside the model. A real cannot hold an
  infinity or NaN: where the sources divide by a sum that is zero, the model stops with
  the fault \<open>NotFinite\<close> (the program goes on with the infinity or NaN). Log-probabilities,
  which the sources compare with \<^verbatim>\<open>-INFINITY\<close>, are values of \<open>logdouble\<close>. An \<^verbatim>\<open>int\<close> is an
  \<^typ>\<open>int\<close>. A C array is a list; reading or writing outside the list is undefined
  behaviour in C++ and the fault \<open>OutOfBounds\<close> here. A failed \<^verbatim>\<open>assert\<close> is the fault
  \<open>AssertFailed\<close>. A loop that no counter bounds carries fuel, and running out of it is the fault
  \<open>Diverged\<close>. Functions that can fault return \<open>fault + 'a\<close>.
\<close>

datatype fault = AssertFailed | OutOfBounds | NotFinite | Diverged

datatype logdouble = NegInf | Fin real

text \<open>
  \<^verbatim>\<open>exp\<close> of a log-probability. The \<^verbatim>\<open>exp\<close> of the C library underflows: its value is \<open>0.0\<close>
  where the exponential is below half the least positive double \<open>2\<^sup>-\<^sup>1\<^sup>0\<^sup>7\<^sup>4\<close>, that is
  for arguments below \<open>- 1075 * ln 2\<close> (about \<open>-745.13\<close>). The sources test sums of such
  values against zero, so the model keeps the underflow.
\<close>

fun exp_ld :: "logdouble \<Rightarrow> real" where
  "exp_ld NegInf = 0"
| "exp_ld (Fin x) = (if x < - (1075 * ln 2) then 0 else exp x)"

definition bindE :: "fault + 'a \<Rightarrow> ('a \<Rightarrow> fault + 'b) \<Rightarrow> fault + 'b" where
  "bindE m f = (case m of Inl e \<Rightarrow> Inl e | Inr x \<Rightarrow> f x)"

definition rd :: "'a list \<Rightarrow> int \<Rightarrow> fault + 'a" where
  "rd xs i = (if 0 \<le> i \<and> i < int (length xs) then Inr (xs ! nat i) else Inl OutOfBounds)"

definition wr :: "'a list \<Rightarrow> int \<Rightarrow> 'a \<Rightarrow> fault + 'a list" where
  "wr xs i v = (if 0 \<le> i \<and> i < int (length xs) then Inr (xs[nat i := v]) else Inl OutOfBounds)"

text \<open>A \<^verbatim>\<open>for\<close> loop over the indices \<open>is\<close> that threads the state \<open>s\<close> and stops at a fault.\<close>

fun forE :: "nat list \<Rightarrow> 's \<Rightarrow> (nat \<Rightarrow> 's \<Rightarrow> fault + 's) \<Rightarrow> fault + 's" where
  "forE [] s f = Inr s"
| "forE (i # is) s f = (case f i s of Inl e \<Rightarrow> Inl e | Inr s' \<Rightarrow> forE is s' f)"

text \<open>
  Modelled from the spec: \<^verbatim>\<open>max_array\<close> of \<^verbatim>\<open>common.h\<close>, which is not among the sources;
  the largest of the first \<open>n\<close> entries of an array (``Assert \<open>max(col2) > 0\<close>'').
\<close>

definition max_array :: "real list \<Rightarrow> int \<Rightarrow> fault + real" where
  "max_array lst n =
     bindE (rd lst 0) (\<lambda>x0.
       forE [1..<nat n] x0 (\<lambda>i top. bindE (rd lst (int i)) (\<lambda>x. Inr (if x > top then x else top))))"

section \<open>The switch operator and the cross-block column step\<close>

record TransMatrixSwitch =
  nstates1 :: int
  nstates2 :: int
  determ :: "int list"
  determprob :: "logdouble list"
  recombsrc :: int
  recoalsrc :: int
  recombrow :: "logdouble list"
  recoalrow :: "logdouble list"

text \<open>The body of the loop that adds the deterministic transitions.\<close>

definition switch_determ ::
  "real list \<Rightarrow> TransMatrixSwitch \<Rightarrow> nat \<Rightarrow> real list \<Rightarrow> fault + real list" where
  "switch_determ col1 matrix j col2 =
     bindE (rd (determ matrix) (int j)) (\<lambda>k.
       if int j \<noteq> recombsrc matrix \<and> int j \<noteq> recoalsrc matrix \<and> k \<noteq> -1
       then bindE (rd col2 k) (\<lambda>x.
            bindE (rd col1 (int j)) (\<lambda>y.
            bindE (rd (determprob matrix) (int j)) (\<lambda>p.
              wr col2 k (x + y * exp_ld p))))
       else Inr col2)"

text \<open>One source row (recombination or recoalescence) added to entry \<open>k\<close>.\<close>

definition switch_row ::
  "real list \<Rightarrow> int \<Rightarrow> logdouble list \<Rightarrow> nat \<Rightarrow> real list \<Rightarrow> fault + real list" where
  "switch_row col1 src row k col2 =
     (if src \<noteq> -1
      then bindE (rd row (int k)) (\<lambda>p.
             if p \<noteq> NegInf
             then bindE (rd col2 (int k)) (\<lambda>x.
                  bindE (rd col1 src) (\<lambda>y. wr col2 (int k) (x + y * exp_ld p)))
             else Inr col2)
      else Inr col2)"

text \<open>The body of the loop that adds both rows, multiplies by the emission and sums.\<close>

definition switch_spread ::
  "real list \<Rightarrow> TransMatrixSwitch \<Rightarrow> real list \<Rightarrow> nat \<Rightarrow> real list \<times> real
     \<Rightarrow> fault + (real list \<times> real)" where
  "switch_spread col1 matrix emit k st =
     (case st of (col2, nrm) \<Rightarrow>
        bindE (switch_row col1 (recombsrc matrix) (recombrow matrix) k col2) (\<lambda>c1.
        bindE (switch_row col1 (recoalsrc matrix) (recoalrow matrix) k c1) (\<lambda>c2.
        bindE (rd c2 (int k)) (\<lambda>x.
        bindE (rd emit (int k)) (\<lambda>e.
        bindE (wr c2 (int k) (x * e)) (\<lambda>c3.
          Inr (c3, nrm + x * e)))))))"

text \<open>The body of the loops \<^verbatim>\<open>col2[k] /= norm\<close>.\<close>

definition normalize_col :: "real \<Rightarrow> nat \<Rightarrow> real list \<Rightarrow> fault + real list" where
  "normalize_col nrm k col2 =
     bindE (rd col2 (int k)) (\<lambda>x.
       if nrm = 0 then Inl NotFinite else wr col2 (int k) (x / nrm))"

text \<open>
  \<^verbatim>\<open>arghmm_forward_switch\<close>: \<open>col2\<close> is the destination column as it is before the call
  (its length is the allocated length), the result is the column after the call.
  \<open>forward_switch_fill\<close> is the function up to the assertion: it returns the column
  before it is normalized, and its sum \<^verbatim>\<open>norm\<close>.
\<close>

definition forward_switch_fill ::
  "real list \<Rightarrow> real list \<Rightarrow> TransMatrixSwitch \<Rightarrow> real list \<Rightarrow> fault + (real list \<times> real)" where
  "forward_switch_fill col1 col2 matrix emit =
     (let n1 = max (nstates1 matrix) 1;
          n2 = max (nstates2 matrix) 1
      in bindE (forE [0..<nat n2] col2 (\<lambda>k c. wr c (int k) 0)) (\<lambda>c0.
         bindE (forE [0..<nat n1] c0 (switch_determ col1 matrix)) (\<lambda>c1.
           forE [0..<nat n2] (c1, 0) (switch_spread col1 matrix emit))))"

definition arghmm_forward_switch ::
  "real list \<Rightarrow> real list \<Rightarrow> TransMatrixSwitch \<Rightarrow> real list \<Rightarrow> fault + real list" where
  "arghmm_forward_switch col1 col2 matrix emit =
     bindE (forward_switch_fill col1 col2 matrix emit) (\<lambda>(c2, nrm).
     bindE (max_array c2 (max (nstates2 matrix) 1)) (\<lambda>top.
       if top \<le> 0 then Inl AssertFailed
       else forE [0..<nat (max (nstates2 matrix) 1)] c2 (normalize_col nrm)))"

fun mapE :: "('a \<Rightarrow> fault + 'b) \<Rightarrow> 'a list \<Rightarrow> fault + 'b list" where
  "mapE f [] = Inr []"
| "mapE f (x # xs) =
     (case f x of Inl e \<Rightarrow> Inl e
      | Inr y \<Rightarrow> (case mapE f xs of Inl e \<Rightarrow> Inl e | Inr ys \<Rightarrow> Inr (y # ys)))"

section \<open>Local trees, states and the transition operator\<close>

record LocalNode =
  parent :: int
  child :: "int list"
  age :: int

record LocalTree =
  nnodes :: int
  root_t :: int
  nodes :: "LocalNode list"

record State =
  node :: int
  time :: int

text \<open>
  The transition operator of \<^verbatim>\<open>trow.h\<close>, which is not among the sources. Its accessors
  are fields, and every theorem holds for whatever they compute: the factored accessor
  \<^verbatim>\<open>get_time(a, b, c, minage, same_node)\<close>, the full accessor
  \<^verbatim>\<open>get(tree, states, j, k)\<close> and its log-space companion \<^verbatim>\<open>get_log\<close>.
\<close>

record TransMatrix =
  internal :: bool
  nstates :: int
  get_time :: "int \<Rightarrow> int \<Rightarrow> int \<Rightarrow> int \<Rightarrow> bool \<Rightarrow> real"
  get :: "LocalTree \<Rightarrow> State list \<Rightarrow> int \<Rightarrow> int \<Rightarrow> real"
  get_log :: "LocalTree \<Rightarrow> State list \<Rightarrow> int \<Rightarrow> int \<Rightarrow> logdouble"

text \<open>The children of the root in internal mode: \<^verbatim>\<open>nodes[tree->root].child[i]\<close>.\<close>

definition root_child :: "LocalTree \<Rightarrow> int \<Rightarrow> fault + int" where
  "root_child tree i = bindE (rd (nodes tree) (root_t tree)) (\<lambda>r. rd (child r) i)"

definition node_age :: "LocalTree \<Rightarrow> int \<Rightarrow> fault + int" where
  "node_age tree i = bindE (rd (nodes tree) i) (\<lambda>n. Inr (age n))"

text \<open>
  Modelled from the spec: \<^verbatim>\<open>NodeStateLookup::lookup\<close> of \<^verbatim>\<open>states.h\<close>, which is not
  among the sources: the index of the state \<open>(node, time)\<close> in the enumeration, and \<open>-1\<close>
  when the state is not enumerated.
\<close>

fun lookup_from :: "State list \<Rightarrow> int \<Rightarrow> int \<Rightarrow> int \<Rightarrow> int" where
  "lookup_from [] i n t = -1"
| "lookup_from (s # ss) i n t = (if node s = n \<and> time s = t then i else lookup_from ss (i + 1) n t)"

definition lookup :: "State list \<Rightarrow> int \<Rightarrow> int \<Rightarrow> int" where
  "lookup states n t = lookup_from states 0 n t"

section \<open>The within-block forward step\<close>

text \<open>The largest time of a state: the loop ``get max time''.\<close>

definition states_maxtime :: "State list \<Rightarrow> int" where
  "states_maxtime states = foldl (\<lambda>maxtime s. if maxtime < time s then time s else maxtime) 0 states"

text \<open>
  The branch ages of node \<open>i\<close>: \<open>(ages1[i], ages2[i], indexes[i])\<close>. The parent is read for
  every node but the root (and the maintree root in internal mode).
\<close>

definition branch_ages ::
  "LocalTree \<Rightarrow> State list \<Rightarrow> TransMatrix \<Rightarrow> int \<Rightarrow> int \<Rightarrow> int \<Rightarrow> nat
     \<Rightarrow> fault + (int \<times> int \<times> int)" where
  "branch_ages tree states matrix minage maintree_root maxtime i =
     bindE (rd (nodes tree) (int i)) (\<lambda>n.
       let age1 = max (age n) minage;
           index = lookup states (int i) age1
       in if (if internal matrix then int i = maintree_root \<or> int i = root_t tree
              else int i = root_t tree)
          then Inr (age1, maxtime, index)
          else bindE (node_age tree (parent n)) (\<lambda>age2. Inr (age1, age2, index)))"

text \<open>
  The temporary matrices. \<open>tmatrix\<close> and \<open>tmatrix2\<close> are filled for the rows
  \<open>a < ntimes - 1\<close> only, and \<open>tmatrix\<close> for the columns \<open>b < ntimes - 1\<close> only; the cells
  the source leaves uninitialised are absent from the lists of the model, so that reading
  one of them is a fault as well.
\<close>

definition make_tmatrix :: "TransMatrix \<Rightarrow> int \<Rightarrow> int \<Rightarrow> real list list" where
  "make_tmatrix matrix ntimes minage =
     map (\<lambda>a. map (\<lambda>b. get_time matrix (int a) (int b) 0 minage False) [0..<nat (ntimes - 1)])
       [0..<nat (ntimes - 1)]"

definition tmatrix2_cell ::
  "LocalTree \<Rightarrow> State list \<Rightarrow> TransMatrix \<Rightarrow> int \<Rightarrow> nat \<Rightarrow> nat \<Rightarrow> fault + real" where
  "tmatrix2_cell tree states matrix minage a k =
     bindE (rd states (int k)) (\<lambda>s.
     bindE (node_age tree (node s)) (\<lambda>c.
       if time s \<ge> minage
       then Inr (get_time matrix (int a) (time s) c minage True
                 - get_time matrix (int a) (time s) 0 minage False)
       else Inl AssertFailed))"

definition make_tmatrix2 ::
  "LocalTree \<Rightarrow> State list \<Rightarrow> TransMatrix \<Rightarrow> int \<Rightarrow> int \<Rightarrow> fault + real list list" where
  "make_tmatrix2 tree states matrix ntimes minage =
     mapE (\<lambda>a. mapE (tmatrix2_cell tree states matrix minage a) [0..<length states])
       [0..<nat (ntimes - 1)]"

text \<open>The loop ``precompute the fgroup sums''.\<close>

definition fgroups_step :: "State list \<Rightarrow> real list \<Rightarrow> nat \<Rightarrow> real list \<Rightarrow> fault + real list" where
  "fgroups_step states col1 j fgroups =
     bindE (rd states (int j)) (\<lambda>s.
     bindE (rd fgroups (time s)) (\<lambda>x.
     bindE (rd col1 (int j)) (\<lambda>y.
       wr fgroups (time s) (x + y))))"

text \<open>The loop ``multiply tmatrix and fgroups together'', for one \<open>b\<close>.\<close>

definition tmatrix_fgroups_cell :: "real list list \<Rightarrow> real list \<Rightarrow> int \<Rightarrow> nat \<Rightarrow> fault + real" where
  "tmatrix_fgroups_cell tmatrix fgroups ntimes b =
     forE [0..<nat (ntimes - 1)] 0 (\<lambda>a sm.
       bindE (rd tmatrix (int a)) (\<lambda>row.
       bindE (rd row (int b)) (\<lambda>t.
       bindE (rd fgroups (int a)) (\<lambda>g.
         Inr (sm + t * g)))))"

text \<open>The same-branch loop \<^verbatim>\<open>for (j=j1, a=age1; a<=age2; j++, a++)\<close>, at its step \<open>d\<close>.\<close>

definition same_branch_step ::
  "real list list \<Rightarrow> real list \<Rightarrow> nat \<Rightarrow> int \<Rightarrow> int \<Rightarrow> nat \<Rightarrow> real \<Rightarrow> fault + real" where
  "same_branch_step tmatrix2 col1 k j1 age1 d sm =
     bindE (rd tmatrix2 (age1 + int d)) (\<lambda>row.
     bindE (rd row (int k)) (\<lambda>t.
     bindE (rd col1 (j1 + int d)) (\<lambda>x.
       Inr (sm + t * x))))"

text \<open>The body of the loop ``fill in one column of forward table''.\<close>

definition fill_column_step ::
  "State list \<Rightarrow> (int \<times> int \<times> int) list \<Rightarrow> real list \<Rightarrow> real list list \<Rightarrow> real list
     \<Rightarrow> real list \<Rightarrow> nat \<Rightarrow> real list \<times> real \<Rightarrow> fault + (real list \<times> real)" where
  "fill_column_step states ages tmatrix_fgroups tmatrix2 col1 emit2 k st =
     (case st of (col2, nrm) \<Rightarrow>
        bindE (rd states (int k)) (\<lambda>s.
        bindE (rd ages (node s)) (\<lambda>(age1, age2, j1).
        bindE (rd tmatrix_fgroups (time s)) (\<lambda>sum0.
        bindE (forE [0..<nat (age2 - age1 + 1)] sum0
                 (same_branch_step tmatrix2 col1 k j1 age1)) (\<lambda>sm.
        bindE (rd emit2 (int k)) (\<lambda>e.
        bindE (wr col2 (int k) (sm * e)) (\<lambda>c.
          Inr (c, nrm + sm * e))))))))"

text \<open>
  One iteration of the loop over the columns \<open>i\<close> of \<^verbatim>\<open>arghmm_forward_block\<close>.
  \<open>forward_block_fill\<close> is the iteration up to the normalization: it returns the column
  before it is normalized, and its sum \<^verbatim>\<open>norm\<close>.
\<close>

definition forward_block_fill ::
  "State list \<Rightarrow> int \<Rightarrow> (int \<times> int \<times> int) list \<Rightarrow> real list list \<Rightarrow> real list list
     \<Rightarrow> real list \<Rightarrow> real list \<Rightarrow> real list \<Rightarrow> fault + (real list \<times> real)" where
  "forward_block_fill states ntimes ages tmatrix tmatrix2 col1 col2 emit2 =
     bindE (forE [0..<length states] (replicate (nat ntimes) 0) (fgroups_step states col1))
       (\<lambda>fgroups.
     bindE (mapE (tmatrix_fgroups_cell tmatrix fgroups ntimes) [0..<nat (ntimes - 1)])
       (\<lambda>tmatrix_fgroups.
       forE [0..<length states] (col2, 0)
         (fill_column_step states ages tmatrix_fgroups tmatrix2 col1 emit2)))"

definition forward_block_column ::
  "State list \<Rightarrow> int \<Rightarrow> (int \<times> int \<times> int) list \<Rightarrow> real list list \<Rightarrow> real list list
     \<Rightarrow> real list \<Rightarrow> real list \<Rightarrow> real list \<Rightarrow> fault + real list" where
  "forward_block_column states ntimes ages tmatrix tmatrix2 col1 col2 emit2 =
     bindE (forward_block_fill states ntimes ages tmatrix tmatrix2 col1 col2 emit2)
       (\<lambda>(c, nrm). forE [0..<length states] c (normalize_col nrm))"

text \<open>
  A \<^verbatim>\<open>double **\<close> into a table is the table and an offset: \<^verbatim>\<open>fw\<close> is \<open>(fw, fo)\<close> and
  \<^verbatim>\<open>fw[i]\<close> is the column \<open>fo + i\<close> of the table, \<^verbatim>\<open>emit\<close> is \<open>(emit, eo)\<close>.
\<close>

definition copy_first_entry :: "int \<Rightarrow> nat \<Rightarrow> real list list \<Rightarrow> fault + real list list" where
  "copy_first_entry fo i fw =
     bindE (rd fw (fo + int i - 1)) (\<lambda>col1.
     bindE (rd col1 0) (\<lambda>x.
     bindE (rd fw (fo + int i)) (\<lambda>col2.
     bindE (wr col2 0 x) (\<lambda>c.
       wr fw (fo + int i) c))))"

text \<open>The prologue ``handle internal branch resampling special cases'': \<open>(minage, maintree_root)\<close>.\<close>

definition block_special :: "LocalTree \<Rightarrow> TransMatrix \<Rightarrow> fault + (int \<times> int)" where
  "block_special tree matrix =
     (if internal matrix
      then bindE (root_child tree 0) (\<lambda>subtree_root.
           bindE (root_child tree 1) (\<lambda>maintree_root.
           bindE (node_age tree subtree_root) (\<lambda>subtree_age.
             Inr (if subtree_age > 0 then subtree_age else 0, maintree_root))))
      else Inr (0, 0))"

definition forward_block_step ::
  "State list \<Rightarrow> int \<Rightarrow> (int \<times> int \<times> int) list \<Rightarrow> real list list \<Rightarrow> real list list
     \<Rightarrow> real list list \<Rightarrow> int \<Rightarrow> int \<Rightarrow> nat \<Rightarrow> real list list \<Rightarrow> fault + real list list" where
  "forward_block_step states ntimes ages tmatrix tmatrix2 emit eo fo i fw =
     bindE (rd fw (fo + int i - 1)) (\<lambda>col1.
     bindE (rd fw (fo + int i)) (\<lambda>col2.
     bindE (rd emit (eo + int i)) (\<lambda>emit2.
     bindE (forward_block_column states ntimes ages tmatrix tmatrix2 col1 col2 emit2) (\<lambda>c.
       wr fw (fo + int i) c))))"

definition arghmm_forward_block ::
  "LocalTree \<Rightarrow> int \<Rightarrow> int \<Rightarrow> State list \<Rightarrow> TransMatrix \<Rightarrow> real list list \<Rightarrow> int
     \<Rightarrow> real list list \<Rightarrow> int \<Rightarrow> fault + real list list" where
  "arghmm_forward_block tree ntimes blocklen states matrix emit eo fw fo =
     bindE (block_special tree matrix) (\<lambda>(minage, maintree_root).
       if internal matrix \<and> states = []
       then forE [1..<nat blocklen] fw (copy_first_entry fo)
       else
         bindE (make_tmatrix2 tree states matrix ntimes minage) (\<lambda>tmatrix2.
         bindE (mapE (branch_ages tree states matrix minage maintree_root (states_maxtime states))
                  [0..<nat (nnodes tree)]) (\<lambda>ages.
           forE [1..<nat blocklen] fw
             (forward_block_step states ntimes ages (make_tmatrix matrix ntimes minage)
                tmatrix2 emit eo fo))))"

text \<open>The slow reference: the full transition matrix, then one sm per entry.\<close>

definition make_transmat :: "TransMatrix \<Rightarrow> LocalTree \<Rightarrow> State list \<Rightarrow> real list list" where
  "make_transmat matrix tree states =
     map (\<lambda>j. map (\<lambda>k. get matrix tree states (int j) (int k)) [0..<length states])
       [0..<length states]"

definition slow_sum_step :: "real list list \<Rightarrow> real list \<Rightarrow> nat \<Rightarrow> nat \<Rightarrow> real \<Rightarrow> fault + real" where
  "slow_sum_step transmat col1 k j sm =
     bindE (rd col1 (int j)) (\<lambda>x.
     bindE (rd transmat (int j)) (\<lambda>row.
     bindE (rd row (int k)) (\<lambda>t.
       Inr (sm + x * t))))"

definition slow_column_step ::
  "nat \<Rightarrow> real list list \<Rightarrow> real list \<Rightarrow> real list list \<Rightarrow> int \<Rightarrow> nat \<Rightarrow> real list \<times> real
     \<Rightarrow> fault + (real list \<times> real)" where
  "slow_column_step n transmat col1 emit ei k st =
     (case st of (col2, nrm) \<Rightarrow>
        bindE (forE [0..<n] 0 (slow_sum_step transmat col1 k)) (\<lambda>sm.
        bindE (rd emit ei) (\<lambda>emit2.
        bindE (rd emit2 (int k)) (\<lambda>e.
        bindE (wr col2 (int k) (sm * e)) (\<lambda>c.
          Inr (c, nrm + sm * e))))))"

definition forward_block_slow_column ::
  "nat \<Rightarrow> real list list \<Rightarrow> real list \<Rightarrow> real list \<Rightarrow> real list list \<Rightarrow> int
     \<Rightarrow> fault + real list" where
  "forward_block_slow_column n transmat col1 col2 emit ei =
     bindE (forE [0..<n] (col2, 0) (slow_column_step n transmat col1 emit ei)) (\<lambda>(c, nrm).
       forE [0..<n] c (normalize_col nrm))"

definition forward_block_slow_step ::
  "nat \<Rightarrow> real list list \<Rightarrow> real list list \<Rightarrow> int \<Rightarrow> int \<Rightarrow> nat \<Rightarrow> real list list
     \<Rightarrow> fault + real list list" where
  "forward_block_slow_step n transmat emit eo fo i fw =
     bindE (rd fw (fo + int i - 1)) (\<lambda>col1.
     bindE (rd fw (fo + int i)) (\<lambda>col2.
     bindE (forward_block_slow_column n transmat col1 col2 emit (eo + int i)) (\<lambda>c.
       wr fw (fo + int i) c)))"

definition arghmm_forward_block_slow ::
  "LocalTree \<Rightarrow> int \<Rightarrow> int \<Rightarrow> State list \<Rightarrow> TransMatrix \<Rightarrow> real list list \<Rightarrow> int
     \<Rightarrow> real list list \<Rightarrow> int \<Rightarrow> fault + real list list" where
  "arghmm_forward_block_slow tree ntimes blocklen states matrix emit eo fw fo =
     forE [1..<nat blocklen] fw
       (forward_block_slow_step (length states) (make_transmat matrix tree states) emit eo fo)"


section \<open>The forward pass over all blocks\<close>

record ArgHmmMatrices =
  m_blocklen :: int
  m_nstates2 :: int
  m_transmat :: TransMatrix
  m_transmat_switch :: "TransMatrixSwitch option"
  m_emit :: "real list list"

text \<open>
  What the matrix iterator yields for one block: \<^verbatim>\<open>get_tree_spr()->tree\<close>,
  \<^verbatim>\<open>get_block_start()\<close> and \<^verbatim>\<open>ref_matrices()\<close>. An iteration is a list of blocks.
\<close>

record Block =
  block_tree :: LocalTree
  block_start :: int
  matrices :: ArgHmmMatrices

record LocalTrees =
  start_coord :: int
  end_coord :: int

text \<open>
  The collaborators that are not among the sources are the fields of an environment, and
  every theorem holds for whatever they compute: the state enumeration
  \<^verbatim>\<open>get_coal_states(tree, ntimes, states, internal)\<close>; \<^verbatim>\<open>calc_state_priors\<close>, which fills
  the column it is given from the states, the lineage counts of the tree and the local
  model at a position; \<^verbatim>\<open>sample(weights, n)\<close>, which draws an index and advances the
  state of the random number generator (a \<^typ>\<open>nat\<close> here); and the content \<open>fresh\<close> of a
  cell that has been allocated and not written.
\<close>

record Env =
  get_coal_states :: "LocalTree \<Rightarrow> int \<Rightarrow> bool \<Rightarrow> State list"
  calc_state_priors :: "State list \<Rightarrow> LocalTree \<Rightarrow> bool \<Rightarrow> int \<Rightarrow> int \<Rightarrow> real list \<Rightarrow> real list"
  sample :: "nat \<Rightarrow> real list \<Rightarrow> int \<Rightarrow> int \<times> nat"
  fresh :: real

text \<open>
  Modelled from the spec: \<^verbatim>\<open>ArgHmmForwardTable\<close> of \<^verbatim>\<open>hmm.h\<close>, which is not among the
  sources. The table has one column per genomic site, from \<open>start_coord\<close> on: the column
  of position \<open>pos\<close> is the entry \<open>pos - start_coord\<close> of the list, and a column that has
  not been allocated is the empty list. \<^verbatim>\<open>new_block(start, end, nstates)\<close> allocates the
  columns of the positions \<open>start \<le> pos < end\<close>, sized to the states of the block and
  of length 1 when there is no state.
\<close>

definition new_table :: "LocalTrees \<Rightarrow> real list list" where
  "new_table trees = replicate (nat (end_coord trees - start_coord trees)) []"

definition new_block ::
  "Env \<Rightarrow> LocalTrees \<Rightarrow> real list list \<Rightarrow> int \<Rightarrow> int \<Rightarrow> int \<Rightarrow> fault + real list list" where
  "new_block env trees fw start end n =
     forE [0..<nat (end - start)] fw (\<lambda>i fw.
       if 0 \<le> start + int i - start_coord trees
          \<and> start + int i - start_coord trees < int (length fw)
       then wr fw (start + int i - start_coord trees) (replicate (nat (max n 1)) (fresh env))
       else Inl AssertFailed)"

text \<open>
  The first column of a block in \<^verbatim>\<open>arghmm_forward_alg\<close>: the three branches on
  \<open>pos == trees->start_coord\<close> and \<open>matrices.transmat_switch\<close>. The result is the table,
  the offset of \<^verbatim>\<open>fw_block\<close> in it, the offset of \<^verbatim>\<open>emit\<close> and \<^verbatim>\<open>blocklen\<close>.
\<close>

definition forward_first_column ::
  "Env \<Rightarrow> LocalTrees \<Rightarrow> bool \<Rightarrow> bool \<Rightarrow> Block \<Rightarrow> State list \<Rightarrow> real list list
     \<Rightarrow> fault + (real list list \<times> int \<times> int \<times> int)" where
  "forward_first_column env trees prior_given intern blk states fw =
     (let tree = block_tree blk;
          mats = matrices blk;
          pos = block_start blk;
          p = pos - start_coord trees
      in if pos = start_coord trees
         then (if \<not> prior_given
               then bindE (if intern
                           then bindE (root_child tree 0) (\<lambda>subtree_root.
                                  node_age tree subtree_root)
                           else Inr 0) (\<lambda>minage.
                    bindE (rd fw p) (\<lambda>col.
                    bindE (wr fw p (calc_state_priors env states tree intern pos minage col))
                      (\<lambda>fw'. Inr (fw', p, 0, m_blocklen mats))))
               else Inr (fw, p, 0, m_blocklen mats))
         else (case m_transmat_switch mats of
                 Some sw \<Rightarrow>
                   bindE (rd fw (p - 1)) (\<lambda>col1.
                   bindE (rd fw p) (\<lambda>col2.
                   bindE (rd (m_emit mats) 0) (\<lambda>emit0.
                   bindE (arghmm_forward_switch col1 col2 sw emit0) (\<lambda>c.
                   bindE (wr fw p c) (\<lambda>fw'. Inr (fw', p, 0, m_blocklen mats))))))
               | None \<Rightarrow> Inr (fw, p - 1, -1, m_blocklen mats + 1)))"

text \<open>The assertions \<^verbatim>\<open>assert(top > 0.0)\<close> on a column of the table.\<close>

definition assert_column :: "real list list \<Rightarrow> int \<Rightarrow> int \<Rightarrow> fault + unit" where
  "assert_column fw p n =
     bindE (rd fw p) (\<lambda>col.
     bindE (max_array col n) (\<lambda>top.
       if top > 0 then Inr () else Inl AssertFailed))"

text \<open>The body of the loop of \<^verbatim>\<open>arghmm_forward_alg\<close> over the blocks.\<close>

definition forward_alg_block ::
  "Env \<Rightarrow> LocalTrees \<Rightarrow> int \<Rightarrow> bool \<Rightarrow> bool \<Rightarrow> bool \<Rightarrow> nat \<Rightarrow> Block list \<Rightarrow> real list list
     \<Rightarrow> fault + real list list" where
  "forward_alg_block env trees ntimes prior_given intern slow b blocks fw =
     bindE (rd blocks (int b)) (\<lambda>blk.
       let tree = block_tree blk;
           mats = matrices blk;
           pos = block_start blk
       in bindE (if pos > start_coord trees \<or> \<not> prior_given
                 then new_block env trees fw pos (pos + m_blocklen mats) (m_nstates2 mats)
                 else Inr fw) (\<lambda>fw1.
          let states = get_coal_states env tree ntimes intern
          in bindE (forward_first_column env trees prior_given intern blk states fw1)
               (\<lambda>(fw2, fo, eo, blocklen).
             let n = max (nstates (m_transmat mats)) 1
             in bindE (assert_column fw2 fo n) (\<lambda>_.
                bindE (if slow
                       then arghmm_forward_block_slow tree ntimes blocklen states
                              (m_transmat mats) (m_emit mats) eo fw2 fo
                       else arghmm_forward_block tree ntimes blocklen states
                              (m_transmat mats) (m_emit mats) eo fw2 fo) (\<lambda>fw3.
                bindE (assert_column fw3 (pos + m_blocklen mats - 1 - start_coord trees) n)
                  (\<lambda>_. Inr fw3))))))"

definition arghmm_forward_alg ::
  "Env \<Rightarrow> LocalTrees \<Rightarrow> int \<Rightarrow> Block list \<Rightarrow> real list list \<Rightarrow> bool \<Rightarrow> bool \<Rightarrow> bool
     \<Rightarrow> fault + real list list" where
  "arghmm_forward_alg env trees ntimes blocks fw prior_given intern slow =
     forE [0..<length blocks] fw
       (\<lambda>b. forward_alg_block env trees ntimes prior_given intern slow b blocks)"


section \<open>Traceback\<close>

text \<open>
  Modelled from the spec: \<^verbatim>\<open>TransMatrixSwitch::get_log\<close> and \<^verbatim>\<open>get\<close> of \<^verbatim>\<open>trow.h\<close>,
  which is not among the sources. For a source that is not one of the two distinguished
  sources the probability is concentrated on \<open>determ[j]\<close>; for the two distinguished
  sources it spreads over the destinations as \<open>recombrow\<close> and \<open>recoalrow\<close> say.
\<close>

definition switch_get_log :: "TransMatrixSwitch \<Rightarrow> int \<Rightarrow> int \<Rightarrow> fault + logdouble" where
  "switch_get_log matrix j k =
     (if j = recoalsrc matrix then rd (recoalrow matrix) k
      else if j = recombsrc matrix then rd (recombrow matrix) k
      else bindE (rd (determ matrix) j) (\<lambda>d.
             if d = k then rd (determprob matrix) j else Inr NegInf))"

definition switch_get :: "TransMatrixSwitch \<Rightarrow> int \<Rightarrow> int \<Rightarrow> fault + real" where
  "switch_get matrix j k = bindE (switch_get_log matrix j k) (\<lambda>p. Inr (exp_ld p))"

text \<open>
  The logarithm of a \<^verbatim>\<open>double\<close> as a log-probability: \<open>log(0)\<close> is \<^verbatim>\<open>-INFINITY\<close>. The
  logarithm of a negative number is NaN in the source, which is outside the model.
\<close>

definition log_ld :: "real \<Rightarrow> logdouble" where
  "log_ld x = (if x > 0 then Fin (ln x) else NegInf)"

fun add_ld :: "logdouble \<Rightarrow> logdouble \<Rightarrow> logdouble" where
  "add_ld (Fin x) (Fin y) = Fin (x + y)"
| "add_ld _ _ = NegInf"

fun greater_ld :: "logdouble \<Rightarrow> logdouble \<Rightarrow> bool" where
  "greater_ld (Fin x) (Fin y) = (x > y)"
| "greater_ld (Fin x) NegInf = True"
| "greater_ld NegInf _ = False"

text \<open>
  One iteration of the loop of \<^verbatim>\<open>sample_hmm_posterior\<close>. The state is the path, \<open>last_k\<close>,
  the array \<^verbatim>\<open>trans\<close> (empty until it is first filled) and the random number generator;
  \<open>(fw, fo)\<close> and \<open>(path, po)\<close> are the two pointers.
\<close>

definition sample_hmm_posterior_iter ::
  "Env \<Rightarrow> LocalTree \<Rightarrow> State list \<Rightarrow> TransMatrix \<Rightarrow> real list list \<Rightarrow> int \<Rightarrow> int \<Rightarrow> nat
     \<Rightarrow> int list \<times> int \<times> real list \<times> nat \<Rightarrow> fault + (int list \<times> int \<times> real list \<times> nat)" where
  "sample_hmm_posterior_iter env tree states matrix fw fo po i st =
     (case st of (path, last_k, trow, rng) \<Rightarrow>
        let n = max (int (length states)) 1
        in bindE (rd path (po + int i + 1)) (\<lambda>k.
           let trow' = (if k \<noteq> last_k
                         then map (\<lambda>j. get matrix tree states (int j) k) [0..<nat n]
                         else trow)
           in bindE (rd fw (fo + int i)) (\<lambda>col.
              bindE (mapE (\<lambda>j. bindE (rd col (int j)) (\<lambda>x.
                                 bindE (rd trow' (int j)) (\<lambda>t. Inr (x * t)))) [0..<nat n])
                (\<lambda>A.
              case sample env rng A n of (s, rng') \<Rightarrow>
                bindE (wr path (po + int i) s) (\<lambda>path'.
                bindE (rd trow' s) (\<lambda>t.
                  if t \<noteq> 0 then Inr (path', k, trow', rng') else Inl AssertFailed))))))"

text \<open>
  \<^verbatim>\<open>sample_hmm_posterior\<close>: the loop runs \<open>i\<close> from \<open>blocklen - 2\<close> down to 0. The value
  returned by the source is always 0 and is not part of the result here.
\<close>

definition sample_hmm_posterior ::
  "Env \<Rightarrow> int \<Rightarrow> LocalTree \<Rightarrow> State list \<Rightarrow> TransMatrix \<Rightarrow> real list list \<Rightarrow> int
     \<Rightarrow> int list \<Rightarrow> int \<Rightarrow> nat \<Rightarrow> fault + (int list \<times> nat)" where
  "sample_hmm_posterior env blocklen tree states matrix fw fo path po rng =
     bindE (forE (rev [0..<nat (blocklen - 1)]) (path, -1, [], rng)
              (sample_hmm_posterior_iter env tree states matrix fw fo po))
       (\<lambda>(path', last_k, trow, rng'). Inr (path', rng'))"

definition sample_hmm_posterior_step ::
  "Env \<Rightarrow> TransMatrixSwitch \<Rightarrow> real list \<Rightarrow> int \<Rightarrow> nat \<Rightarrow> fault + (int \<times> nat)" where
  "sample_hmm_posterior_step env matrix col1 state2 rng =
     (let n1 = max (nstates1 matrix) 1
      in bindE (mapE (\<lambda>j. bindE (rd col1 (int j)) (\<lambda>x.
                         bindE (switch_get matrix (int j) state2) (\<lambda>t. Inr (x * t))))
                  [0..<nat n1]) (\<lambda>A.
         case sample env rng A n1 of (k, rng') \<Rightarrow>
           bindE (switch_get matrix k state2) (\<lambda>t.
             if t \<noteq> 0 then Inr (k, rng') else Inl AssertFailed)))"

text \<open>
  The body of the loop of \<^verbatim>\<open>stochastic_traceback\<close> over the blocks, in reverse order.
  The state is \<open>pos\<close>, the path, \<open>lnl\<close> and the random number generator.
\<close>

definition stochastic_traceback_block ::
  "Env \<Rightarrow> LocalTrees \<Rightarrow> int \<Rightarrow> real list list \<Rightarrow> bool \<Rightarrow> Block
     \<Rightarrow> int \<times> int list \<times> real \<times> nat \<Rightarrow> fault + (int \<times> int list \<times> real \<times> nat)" where
  "stochastic_traceback_block env trees ntimes fw intern blk st =
     (case st of (pos0, path, lnl, rng) \<Rightarrow>
        let mat = matrices blk;
            tree = block_tree blk;
            states = get_coal_states env tree ntimes intern;
            pos = pos0 - m_blocklen mat;
            st0 = start_coord trees
        in bindE (sample_hmm_posterior env (m_blocklen mat) tree states (m_transmat mat)
                    fw (pos - st0) path (pos - st0) rng) (\<lambda>(path1, rng1).
           if pos > st0
           then (case m_transmat_switch mat of
                   Some sw \<Rightarrow>
                     bindE (rd fw (pos - 1 - st0)) (\<lambda>col.
                     bindE (rd path1 (pos - st0)) (\<lambda>s2.
                     bindE (sample_hmm_posterior_step env sw col s2 rng1) (\<lambda>(k, rng2).
                     bindE (wr path1 (pos - 1 - st0) k) (\<lambda>path2.
                     bindE (rd col k) (\<lambda>x.
                     bindE (switch_get sw k s2) (\<lambda>t.
                       Inr (pos, path2, lnl + ln (x * t), rng2)))))))
                 | None \<Rightarrow>
                     bindE (sample_hmm_posterior env 2 tree states (m_transmat mat)
                              fw (pos - 1 - st0) path1 (pos - 1 - st0) rng1) (\<lambda>(path2, rng2).
                       Inr (pos, path2, lnl, rng2)))
           else Inr (pos, path1, lnl, rng1)))"

text \<open>The choice of the last column in \<^verbatim>\<open>stochastic_traceback\<close>.\<close>

definition stochastic_traceback_last ::
  "Env \<Rightarrow> LocalTrees \<Rightarrow> Block list \<Rightarrow> real list list \<Rightarrow> int list \<Rightarrow> bool \<Rightarrow> nat
     \<Rightarrow> fault + (int list \<times> real \<times> nat)" where
  "stochastic_traceback_last env trees blocks fw path last_state_given rng =
     (let p = end_coord trees - 1 - start_coord trees
      in if \<not> last_state_given
         then bindE (rd blocks (int (length blocks) - 1)) (\<lambda>blk.
              bindE (rd fw p) (\<lambda>col.
                case sample env rng col (max (m_nstates2 (matrices blk)) 1) of (s, rng') \<Rightarrow>
                  bindE (wr path p s) (\<lambda>path'.
                  bindE (rd col s) (\<lambda>x. Inr (path', x, rng')))))
         else Inr (path, 0, rng))"

fun forB :: "'b list \<Rightarrow> 's \<Rightarrow> ('b \<Rightarrow> 's \<Rightarrow> fault + 's) \<Rightarrow> fault + 's" where
  "forB [] s f = Inr s"
| "forB (b # bs) s f = (case f b s of Inl e \<Rightarrow> Inl e | Inr s' \<Rightarrow> forB bs s' f)"

definition stochastic_traceback ::
  "Env \<Rightarrow> LocalTrees \<Rightarrow> int \<Rightarrow> Block list \<Rightarrow> real list list \<Rightarrow> int list \<Rightarrow> bool \<Rightarrow> bool \<Rightarrow> nat
     \<Rightarrow> fault + (int list \<times> real \<times> nat)" where
  "stochastic_traceback env trees ntimes blocks fw path last_state_given intern rng =
     bindE (stochastic_traceback_last env trees blocks fw path last_state_given rng)
       (\<lambda>(path0, lnl0, rng0).
     bindE (forB (rev blocks) (end_coord trees, path0, lnl0, rng0)
              (stochastic_traceback_block env trees ntimes fw intern))
       (\<lambda>(pos, path', lnl, rng'). Inr (path', lnl, rng')))"

subsection \<open>The maximum path\<close>

text \<open>The loop ``find max transition'' of \<^verbatim>\<open>max_hmm_posterior\<close>, from \<open>j = 1\<close>.\<close>

definition max_transition :: "real list \<Rightarrow> logdouble list \<Rightarrow> int \<Rightarrow> fault + int" where
  "max_transition col trow n =
     bindE (rd col 0) (\<lambda>x0.
     bindE (rd trow 0) (\<lambda>t0.
     bindE (forE [1..<nat n] (0, add_ld (log_ld x0) t0) (\<lambda>j (maxj, maxprob).
              bindE (rd col (int j)) (\<lambda>x.
              bindE (rd trow (int j)) (\<lambda>t.
                let prob = add_ld (log_ld x) t
                in Inr (if greater_ld prob maxprob then (int j, prob) else (maxj, maxprob))))))
       (\<lambda>(maxj, maxprob). Inr maxj)))"

definition max_hmm_posterior_iter ::
  "LocalTree \<Rightarrow> State list \<Rightarrow> TransMatrix \<Rightarrow> real list list \<Rightarrow> int \<Rightarrow> int \<Rightarrow> nat
     \<Rightarrow> int list \<times> int \<times> logdouble list \<Rightarrow> fault + (int list \<times> int \<times> logdouble list)" where
  "max_hmm_posterior_iter tree states matrix fw fo po i st =
     (case st of (path, last_k, trow) \<Rightarrow>
        bindE (rd path (po + int i + 1)) (\<lambda>k.
          let trow' = (if k \<noteq> last_k
                        then map (\<lambda>j. get_log matrix tree states (int j) k) [0..<length states]
                        else trow)
          in bindE (rd fw (fo + int i)) (\<lambda>col.
             bindE (max_transition col trow' (int (length states))) (\<lambda>maxj.
             bindE (wr path (po + int i) maxj) (\<lambda>path'.
               Inr (path', k, trow'))))))"

definition max_hmm_posterior ::
  "int \<Rightarrow> LocalTree \<Rightarrow> State list \<Rightarrow> TransMatrix \<Rightarrow> real list list \<Rightarrow> int \<Rightarrow> int list \<Rightarrow> int
     \<Rightarrow> fault + int list" where
  "max_hmm_posterior n tree states matrix fw fo path po =
     bindE (forE (rev [0..<nat (n - 1)]) (path, -1, [])
              (max_hmm_posterior_iter tree states matrix fw fo po))
       (\<lambda>(path', last_k, trow). Inr path')"

definition max_hmm_posterior_step :: "TransMatrixSwitch \<Rightarrow> real list \<Rightarrow> int \<Rightarrow> fault + int" where
  "max_hmm_posterior_step matrix col1 state2 =
     bindE (rd col1 0) (\<lambda>x0.
     bindE (switch_get_log matrix 0 state2) (\<lambda>t0.
     bindE (forE [1..<nat (nstates1 matrix)] (0, add_ld (log_ld x0) t0) (\<lambda>j (maxj, maxprob).
              bindE (rd col1 (int j)) (\<lambda>x.
              bindE (switch_get_log matrix (int j) state2) (\<lambda>t.
                let prob = add_ld (log_ld x) t
                in Inr (if greater_ld prob maxprob then (int j, prob) else (maxj, maxprob))))))
       (\<lambda>(maxj, maxprob). Inr maxj)))"

text \<open>The choice of the last column in \<^verbatim>\<open>max_traceback\<close>.\<close>

definition max_traceback_last ::
  "LocalTrees \<Rightarrow> Block list \<Rightarrow> real list list \<Rightarrow> int list \<Rightarrow> bool \<Rightarrow> fault + int list" where
  "max_traceback_last trees blocks fw path last_state_given =
     (let p = end_coord trees - 1 - start_coord trees
      in if \<not> last_state_given
         then bindE (rd blocks (int (length blocks) - 1)) (\<lambda>blk.
              bindE (rd fw p) (\<lambda>col.
              bindE (rd col 0) (\<lambda>x0.
              bindE (forE [1..<nat (m_nstates2 (matrices blk))] (0, x0) (\<lambda>i (maxi, maxprob).
                       bindE (rd col (int i)) (\<lambda>x.
                         Inr (if x > maxprob then (int i, x) else (maxi, maxprob)))))
                (\<lambda>(maxi, maxprob). wr path p maxi))))
         else Inr path)"

definition max_traceback_block ::
  "Env \<Rightarrow> LocalTrees \<Rightarrow> int \<Rightarrow> real list list \<Rightarrow> bool \<Rightarrow> Block \<Rightarrow> int \<times> int list
     \<Rightarrow> fault + (int \<times> int list)" where
  "max_traceback_block env trees ntimes fw intern blk st =
     (case st of (pos0, path) \<Rightarrow>
        let mat = matrices blk;
            tree = block_tree blk;
            states = get_coal_states env tree ntimes intern;
            pos = pos0 - m_blocklen mat;
            st0 = start_coord trees
        in bindE (max_hmm_posterior (m_blocklen mat) tree states (m_transmat mat)
                    fw (pos - st0) path (pos - st0)) (\<lambda>path1.
           if pos > st0
           then (case m_transmat_switch mat of
                   Some sw \<Rightarrow>
                     bindE (rd fw (pos - 1 - st0)) (\<lambda>col.
                     bindE (rd path1 (pos - st0)) (\<lambda>s2.
                     bindE (max_hmm_posterior_step sw col s2) (\<lambda>k.
                     bindE (wr path1 (pos - 1 - st0) k) (\<lambda>path2.
                       Inr (pos, path2)))))
                 | None \<Rightarrow>
                     bindE (max_hmm_posterior 1 tree states (m_transmat mat)
                              fw (pos - 1 - st0) path1 (pos - 1 - st0)) (\<lambda>path2.
                       Inr (pos, path2)))
           else Inr (pos, path1)))"

definition max_traceback ::
  "Env \<Rightarrow> LocalTrees \<Rightarrow> int \<Rightarrow> Block list \<Rightarrow> real list list \<Rightarrow> int list \<Rightarrow> bool \<Rightarrow> bool
     \<Rightarrow> fault + int list" where
  "max_traceback env trees ntimes blocks fw path last_state_given intern =
     bindE (max_traceback_last trees blocks fw path last_state_given) (\<lambda>path0.
     bindE (forB (rev blocks) (end_coord trees, path0)
              (max_traceback_block env trees ntimes fw intern))
       (\<lambda>(pos, path'). Inr path'))"


section \<open>Threading with pinned endpoints\<close>

text \<open>
  Modelled from the spec: \<^verbatim>\<open>find_vector\<close> of \<^verbatim>\<open>common.h\<close>, which is not among the
  sources: the index of a state in \<open>States\<close>, and \<open>-1\<close> when it is not found.
\<close>

fun find_vector_from :: "State list \<Rightarrow> int \<Rightarrow> State \<Rightarrow> int" where
  "find_vector_from [] i x = -1"
| "find_vector_from (s # ss) i x = (if s = x then i else find_vector_from ss (i + 1) x)"

definition find_vector :: "State list \<Rightarrow> State \<Rightarrow> int" where
  "find_vector states x = find_vector_from states 0 x"

text \<open>
  \<^verbatim>\<open>cond_sample_arg_thread\<close> up to its last assertion. \<open>thread_path_alloc\<close> is the fresh
  array of the path, with whatever it holds. The forward pass and the traceback are called
  with the default arguments of the declarations (external threading, fast block step).
  The two calls that follow the assertion, \<^verbatim>\<open>sample_recombinations\<close> and
  \<^verbatim>\<open>add_arg_thread\<close>, belong to collaborators; they read the path and do not change the
  forward table. The result is the forward table, the path and the generator.
\<close>

definition pin_first_column ::
  "Env \<Rightarrow> LocalTrees \<Rightarrow> int \<Rightarrow> Block list \<Rightarrow> State \<Rightarrow> fault + real list list" where
  "pin_first_column env trees ntimes blocks start_state =
     bindE (rd blocks 0) (\<lambda>blk.
       let states = get_coal_states env (block_tree blk) ntimes False
       in bindE (new_block env trees (new_table trees) (block_start blk)
                   (block_start blk + m_blocklen (matrices blk)) (int (length states))) (\<lambda>fw.
          let j = find_vector states start_state
          in if j = -1 then Inl AssertFailed
             else bindE (rd fw 0) (\<lambda>col.
                  bindE (forE [0..<length states] col (\<lambda>k c. wr c (int k) 0)) (\<lambda>col'.
                  bindE (wr col' j 1) (\<lambda>col''.
                    wr fw 0 col'')))))"

definition cond_sample_arg_thread ::
  "Env \<Rightarrow> LocalTrees \<Rightarrow> int \<Rightarrow> Block list \<Rightarrow> int list \<Rightarrow> State \<Rightarrow> State \<Rightarrow> nat
     \<Rightarrow> fault + (real list list \<times> int list \<times> nat)" where
  "cond_sample_arg_thread env trees ntimes blocks thread_path_alloc start_state end_state rng =
     bindE (pin_first_column env trees ntimes blocks start_state) (\<lambda>fw0.
     bindE (arghmm_forward_alg env trees ntimes blocks fw0 True False False) (\<lambda>fw.
     bindE (rd blocks (int (length blocks) - 1)) (\<lambda>blk.
       let states = get_coal_states env (block_tree blk) ntimes False;
           e = find_vector states end_state
       in bindE (wr thread_path_alloc (end_coord trees - 1 - start_coord trees) e) (\<lambda>path0.
          if e = -1 then Inl AssertFailed
          else bindE (stochastic_traceback env trees ntimes blocks fw path0 True False rng)
                 (\<lambda>(thread_path, lnl, rng').
               bindE (rd thread_path 0) (\<lambda>s.
               bindE (rd fw 0) (\<lambda>col.
               bindE (rd col s) (\<lambda>x.
                 if x = 1 then Inr (fw, thread_path, rng') else Inl AssertFailed))))))))"

section \<open>The emission engine\<close>

record ArgModel =
  ntimes_m :: int
  times_m :: "real list"
  mu :: real
  mintime :: real
  removed_root_time :: int

text \<open>
  The collaborators of \<^verbatim>\<open>emit.cpp\<close> that are not among the sources are the fields of a
  record, and every theorem holds for whatever they compute: the table \<^verbatim>\<open>dna2int\<close>; the
  methods \<^verbatim>\<open>get_postorder\<close>, \<^verbatim>\<open>get_sibling\<close>, \<^verbatim>\<open>get_dist\<close>, \<^verbatim>\<open>get_num_leaves\<close> and
  \<^verbatim>\<open>is_leaf\<close> of the local tree; the construction of an editable copy of a tree with a
  given capacity; and \<^verbatim>\<open>add_tree_branch\<close> and \<^verbatim>\<open>remove_tree_branch\<close>.
\<close>

record Ops =
  dna2int :: "char \<Rightarrow> int"
  get_postorder :: "LocalTree \<Rightarrow> int list"
  get_sibling :: "LocalTree \<Rightarrow> int \<Rightarrow> int"
  get_dist :: "LocalTree \<Rightarrow> int \<Rightarrow> real list \<Rightarrow> real"
  get_num_leaves :: "LocalTree \<Rightarrow> int"
  is_leaf :: "LocalNode \<Rightarrow> bool"
  copy_tree :: "LocalTree \<Rightarrow> int \<Rightarrow> LocalTree"
  add_tree_branch :: "LocalTree \<Rightarrow> int \<Rightarrow> int \<Rightarrow> LocalTree"
  remove_tree_branch :: "LocalTree \<Rightarrow> int \<Rightarrow> LocalTree"

subsection \<open>Invariant sites\<close>

text \<open>The inner loop of \<^verbatim>\<open>find_invariant_sites\<close>: is some \<open>seqs[j][i]\<close>, \<open>j \<ge> 1\<close>, not \<open>c\<close>?\<close>

fun site_mut :: "string list \<Rightarrow> int \<Rightarrow> char \<Rightarrow> nat list \<Rightarrow> fault + bool" where
  "site_mut seqs i c [] = Inr False"
| "site_mut seqs i c (j # js) =
     bindE (rd seqs (int j)) (\<lambda>s.
     bindE (rd s i) (\<lambda>c'.
       if c' \<noteq> c then Inr True else site_mut seqs i c js))"

definition invariant_site :: "string list \<Rightarrow> int \<Rightarrow> nat \<Rightarrow> fault + bool" where
  "invariant_site seqs nseqs i =
     bindE (rd seqs 0) (\<lambda>s0.
     bindE (rd s0 (int i)) (\<lambda>c.
     bindE (site_mut seqs (int i) c [1..<nat nseqs]) (\<lambda>mut. Inr (\<not> mut))))"

definition find_invariant_sites :: "string list \<Rightarrow> int \<Rightarrow> int \<Rightarrow> fault + bool list" where
  "find_invariant_sites seqs nseqs seqlen = mapE (invariant_site seqs nseqs) [0..<nat seqlen]"

subsection \<open>Mutation probabilities\<close>

definition prob_branch :: "real \<Rightarrow> real \<Rightarrow> bool \<Rightarrow> real" where
  "prob_branch t m mut =
     (if \<not> mut then 0.25 * (1 + 3 * exp (- (4 / 3) * m * t))
      else 0.25 * (1 - exp (- (4 / 3) * m * t)))"

text \<open>
  The length of the branch above node \<open>i\<close>, floored at \<open>mintime\<close>:
  \<^verbatim>\<open>max(times[nodes[nodes[i].parent].age] - times[nodes[i].age], mintime)\<close>.
\<close>

definition branch_len :: "LocalTree \<Rightarrow> ArgModel \<Rightarrow> int \<Rightarrow> fault + real" where
  "branch_len tree model i =
     bindE (rd (nodes tree) i) (\<lambda>n.
     bindE (node_age tree (parent n)) (\<lambda>pa.
     bindE (rd (times_m model) pa) (\<lambda>tp.
     bindE (rd (times_m model) (age n)) (\<lambda>tn.
       Inr (max (tp - tn) (mintime model))))))"

text \<open>
  The loop ``get mutation probabilities and treelen'' of \<^verbatim>\<open>likelihood_sites\<close>. The arrays
  \<open>muts\<close> and \<open>nomuts\<close> are not written at the root: \<open>junk\<close> is what they hold there.
\<close>

definition muts_step ::
  "LocalTree \<Rightarrow> ArgModel \<Rightarrow> real \<Rightarrow> nat \<Rightarrow> real list \<times> real list \<times> real
     \<Rightarrow> fault + (real list \<times> real list \<times> real)" where
  "muts_step tree model junk i st =
     (case st of (muts, nomuts, treelen) \<Rightarrow>
        if int i \<noteq> root_t tree
        then bindE (branch_len tree model (int i)) (\<lambda>t.
               Inr (muts @ [prob_branch t (mu model) True],
                    nomuts @ [prob_branch t (mu model) False], treelen + t))
        else Inr (muts @ [junk], nomuts @ [junk], treelen))"

definition tree_muts ::
  "LocalTree \<Rightarrow> ArgModel \<Rightarrow> real \<Rightarrow> fault + (real list \<times> real list \<times> real)" where
  "tree_muts tree model junk = forE [0..<nat (nnodes tree)] ([], [], 0) (muts_step tree model junk)"

text \<open>\<^verbatim>\<open>prob_tree_mutation\<close>: the branches under the removed root are skipped as well.\<close>

definition prob_tree_mutation_step ::
  "LocalTree \<Rightarrow> ArgModel \<Rightarrow> real \<Rightarrow> nat \<Rightarrow> real list \<times> real list
     \<Rightarrow> fault + (real list \<times> real list)" where
  "prob_tree_mutation_step tree model junk i st =
     (case st of (muts, nomuts) \<Rightarrow>
        if int i = root_t tree then Inr (muts @ [junk], nomuts @ [junk])
        else bindE (rd (nodes tree) (int i)) (\<lambda>n.
             bindE (node_age tree (parent n)) (\<lambda>parent_age.
               if parent_age = removed_root_time model then Inr (muts @ [junk], nomuts @ [junk])
               else bindE (rd (times_m model) parent_age) (\<lambda>tp.
                    bindE (rd (times_m model) (age n)) (\<lambda>tn.
                      let t = max (tp - tn) (mintime model)
                      in Inr (muts @ [prob_branch t (mu model) True],
                              nomuts @ [prob_branch t (mu model) False]))))))"

definition prob_tree_mutation ::
  "LocalTree \<Rightarrow> ArgModel \<Rightarrow> real \<Rightarrow> fault + (real list \<times> real list)" where
  "prob_tree_mutation tree model junk =
     forE [0..<nat (nnodes tree)] ([], []) (prob_tree_mutation_step tree model junk)"

subsection \<open>Partial likelihoods\<close>

text \<open>
  A table of partial likelihoods for one site is a list of rows of four entries, one row
  per node. \<open>branch_sum row a mut nomut\<close> is the inner loop over \<open>b\<close>:
  \<open>\<Sum>b. row[b] * (if a = b then nomut else mut)\<close>, summed in the order of the source.
\<close>

definition branch_sum :: "real list \<Rightarrow> nat \<Rightarrow> real \<Rightarrow> real \<Rightarrow> fault + real" where
  "branch_sum row a mut nomut =
     forE [0..<4] 0 (\<lambda>b p. bindE (rd row (int b)) (\<lambda>x.
       Inr (p + x * (if a = b then nomut else mut))))"

definition set_cell :: "real list list \<Rightarrow> int \<Rightarrow> int \<Rightarrow> real \<Rightarrow> fault + real list list" where
  "set_cell tab j a v = bindE (rd tab j) (\<lambda>row. bindE (wr row a v) (\<lambda>row'. wr tab j row'))"

text \<open>
  The contribution of the branch above node \<open>c\<close> to the entry \<open>a\<close> of its parent:
  \<open>p += tab[c][b] * (a == b ? nomuts[c] : muts[c])\<close> over \<open>b\<close>.
\<close>

definition branch_term ::
  "real list list \<Rightarrow> real list \<Rightarrow> real list \<Rightarrow> int \<Rightarrow> nat \<Rightarrow> fault + real" where
  "branch_term tab muts nomuts c a =
     bindE (rd tab c) (\<lambda>row.
     bindE (rd muts c) (\<lambda>m.
     bindE (rd nomuts c) (\<lambda>nm.
       branch_sum row a m nm)))"

definition inner_cell ::
  "real list \<Rightarrow> real list \<Rightarrow> int \<Rightarrow> int \<Rightarrow> int \<Rightarrow> nat \<Rightarrow> real list list \<Rightarrow> fault + real list list" where
  "inner_cell muts nomuts j c1 c2 a tab =
     bindE (branch_term tab muts nomuts c1 a) (\<lambda>p1.
     bindE (branch_term tab muts nomuts c2 a) (\<lambda>p2.
       set_cell tab j (int a) (p1 * p2)))"

definition likelihood_site_node_inner ::
  "Ops \<Rightarrow> LocalTree \<Rightarrow> int \<Rightarrow> string list \<Rightarrow> int \<Rightarrow> real list \<Rightarrow> real list \<Rightarrow> real list list
     \<Rightarrow> fault + real list list" where
  "likelihood_site_node_inner ops tree j seqs pos muts nomuts inner =
     bindE (rd (nodes tree) j) (\<lambda>n.
       if is_leaf ops n
       then bindE (rd seqs j) (\<lambda>s.
            bindE (rd s pos) (\<lambda>c.
              if c = CHR ''N'' \<or> c = CHR ''n''
              then forE [0..<4] inner (\<lambda>a tab. set_cell tab j (int a) 1)
              else bindE (forE [0..<4] inner (\<lambda>a tab. set_cell tab j (int a) 0)) (\<lambda>tab.
                     set_cell tab j (dna2int ops c) 1)))
       else bindE (rd (child n) 0) (\<lambda>c1.
            bindE (rd (child n) 1) (\<lambda>c2.
              forE [0..<4] inner (inner_cell muts nomuts j c1 c2))))"

definition outer_cell ::
  "real list \<Rightarrow> real list \<Rightarrow> real list list \<Rightarrow> int \<Rightarrow> int \<Rightarrow> int \<Rightarrow> nat \<Rightarrow> real list list
     \<Rightarrow> fault + real list list" where
  "outer_cell muts nomuts inner j sib par a tab =
     bindE (branch_term inner muts nomuts sib a) (\<lambda>p1.
     bindE (branch_term tab muts nomuts par a) (\<lambda>p2.
       set_cell tab j (int a) (p1 * p2)))"

definition outer_cell_top ::
  "real list \<Rightarrow> real list \<Rightarrow> real list list \<Rightarrow> int \<Rightarrow> int \<Rightarrow> nat \<Rightarrow> real list list
     \<Rightarrow> fault + real list list" where
  "outer_cell_top muts nomuts inner j sib a tab =
     bindE (branch_term inner muts nomuts sib a) (\<lambda>p1. set_cell tab j (int a) p1)"

definition likelihood_site_node_outer ::
  "Ops \<Rightarrow> LocalTree \<Rightarrow> int \<Rightarrow> int \<Rightarrow> real list \<Rightarrow> real list \<Rightarrow> real list list \<Rightarrow> real list list
     \<Rightarrow> fault + real list list" where
  "likelihood_site_node_outer ops tree mroot j muts nomuts outer inner =
     (if j = mroot
      then forE [0..<4] outer (\<lambda>a tab. set_cell tab j (int a) 1)
      else let sib = get_sibling ops tree j
           in bindE (rd (nodes tree) j) (\<lambda>n.
              if parent n \<noteq> mroot
              then forE [0..<4] outer (outer_cell muts nomuts inner j sib (parent n))
              else forE [0..<4] outer (outer_cell_top muts nomuts inner j sib)))"

text \<open>\<^verbatim>\<open>likelihood_site_inner\<close>: the nodes of \<open>order\<close> in turn, then the sum over the root.\<close>

definition likelihood_site_inner ::
  "Ops \<Rightarrow> LocalTree \<Rightarrow> string list \<Rightarrow> int \<Rightarrow> int list \<Rightarrow> int \<Rightarrow> real list \<Rightarrow> real list
     \<Rightarrow> real list list \<Rightarrow> fault + (real \<times> real list list)" where
  "likelihood_site_inner ops tree seqs pos order norder muts nomuts inner =
     bindE (forE [0..<nat norder] inner (\<lambda>i tab.
              bindE (rd order (int i)) (\<lambda>j.
                likelihood_site_node_inner ops tree j seqs pos muts nomuts tab))) (\<lambda>tab.
     bindE (rd tab (root_t tree)) (\<lambda>row.
     bindE (forE [0..<4] 0 (\<lambda>a p. bindE (rd row (int a)) (\<lambda>x. Inr (p + x * 0.25)))) (\<lambda>p.
       Inr (p, tab))))"

text \<open>
  A traversal with a stack (\<^verbatim>\<open>queue\<close> and \<^verbatim>\<open>top\<close> in the sources): the stack is a list
  whose last entry is the top, and it holds at most \<open>nnodes\<close> entries. The \<^verbatim>\<open>while\<close> loop
  may not end on an ill-formed tree: the functions take the number of iterations they may
  run, and return the fault \<open>Diverged\<close> when it is used up.
\<close>

definition push_children :: "LocalTree \<Rightarrow> LocalNode \<Rightarrow> int list \<Rightarrow> fault + int list" where
  "push_children tree n stack =
     bindE (rd (child n) 0) (\<lambda>c0.
     bindE (rd (child n) 1) (\<lambda>c1.
       if int (length stack) + 2 \<le> nnodes tree then Inr (stack @ [c0, c1])
       else Inl OutOfBounds))"

fun likelihood_site_outer_loop ::
  "nat \<Rightarrow> Ops \<Rightarrow> LocalTree \<Rightarrow> int \<Rightarrow> real list \<Rightarrow> real list \<Rightarrow> real list list \<Rightarrow> int list
     \<Rightarrow> real list list \<Rightarrow> fault + real list list" where
  "likelihood_site_outer_loop 0 ops tree mroot muts nomuts inner stack outer =
     (if stack = [] then Inr outer else Inl Diverged)"
| "likelihood_site_outer_loop (Suc fuel) ops tree mroot muts nomuts inner stack outer =
     (if stack = [] then Inr outer
      else bindE (likelihood_site_node_outer ops tree mroot (last stack) muts nomuts outer inner)
             (\<lambda>outer'.
           bindE (rd (nodes tree) (last stack)) (\<lambda>n.
           bindE (if \<not> is_leaf ops n then push_children tree n (butlast stack)
                  else Inr (butlast stack)) (\<lambda>stack'.
             likelihood_site_outer_loop fuel ops tree mroot muts nomuts inner stack' outer'))))"

definition likelihood_site_outer ::
  "nat \<Rightarrow> Ops \<Rightarrow> LocalTree \<Rightarrow> real list \<Rightarrow> real list \<Rightarrow> real list list \<Rightarrow> real list list
     \<Rightarrow> fault + real list list" where
  "likelihood_site_outer fuel ops tree muts nomuts inner outer =
     bindE (root_child tree 1) (\<lambda>maintree_root.
       if 1 \<le> nnodes tree
       then likelihood_site_outer_loop fuel ops tree maintree_root muts nomuts inner
              [maintree_root] outer
       else Inl OutOfBounds)"

definition calc_inner_outer ::
  "nat \<Rightarrow> Ops \<Rightarrow> LocalTree \<Rightarrow> ArgModel \<Rightarrow> string list \<Rightarrow> int \<Rightarrow> bool list \<Rightarrow> real
     \<Rightarrow> real list list list \<Rightarrow> real list list list
     \<Rightarrow> fault + (real list list list \<times> real list list list)" where
  "calc_inner_outer fuel ops tree model seqs seqlen invariant junk inner outer =
     bindE (prob_tree_mutation tree model junk) (\<lambda>(muts, nomuts).
       forE [0..<nat seqlen] (inner, outer) (\<lambda>i (inn, out).
         bindE (rd invariant (int i)) (\<lambda>is_inv.
           if \<not> is_inv
           then bindE (rd inn (int i)) (\<lambda>tab.
                bindE (likelihood_site_inner ops tree seqs (int i) (get_postorder ops tree)
                         (nnodes tree) muts nomuts tab) (\<lambda>(p, tab').
                bindE (wr inn (int i) tab') (\<lambda>inn'.
                bindE (rd out (int i)) (\<lambda>otab.
                bindE (likelihood_site_outer fuel ops tree muts nomuts tab' otab) (\<lambda>otab'.
                bindE (wr out (int i) otab') (\<lambda>out'. Inr (inn', out')))))))
           else Inr (inn, out))))"

subsection \<open>The emissions of one state\<close>

text \<open>
  The partial postorder of \<^verbatim>\<open>likelihood_sites\<close>. \<open>mark_dirty\<close> is the loop
  \<^verbatim>\<open>for (j=prev_node; j!=-1; j=nodes[j].parent) dirty[j] = true\<close>, \<open>walk_clean\<close> the loop
  from \<open>new_node\<close> up to the first dirty node and \<open>walk_root\<close> the loop from \<open>prev_node\<close>
  to the root; \<open>order\<close> holds at most \<open>nnodes\<close> entries. Each loop takes the number of
  iterations it may run.
\<close>

fun mark_dirty :: "nat \<Rightarrow> LocalTree \<Rightarrow> int \<Rightarrow> bool list \<Rightarrow> fault + bool list" where
  "mark_dirty 0 tree j dirty = (if j = -1 then Inr dirty else Inl Diverged)"
| "mark_dirty (Suc fuel) tree j dirty =
     (if j = -1 then Inr dirty
      else bindE (wr dirty j True) (\<lambda>dirty'.
           bindE (rd (nodes tree) j) (\<lambda>n. mark_dirty fuel tree (parent n) dirty')))"

fun walk_clean :: "nat \<Rightarrow> LocalTree \<Rightarrow> bool list \<Rightarrow> int \<Rightarrow> int list \<Rightarrow> fault + int list" where
  "walk_clean 0 tree dirty j order =
     bindE (rd dirty j) (\<lambda>d. if d then Inr order else Inl Diverged)"
| "walk_clean (Suc fuel) tree dirty j order =
     bindE (rd dirty j) (\<lambda>d.
       if d then Inr order
       else if int (length order) < nnodes tree
       then bindE (rd (nodes tree) j) (\<lambda>n. walk_clean fuel tree dirty (parent n) (order @ [j]))
       else Inl OutOfBounds)"

fun walk_root :: "nat \<Rightarrow> LocalTree \<Rightarrow> int \<Rightarrow> int list \<Rightarrow> fault + int list" where
  "walk_root 0 tree j order = (if j = -1 then Inr order else Inl Diverged)"
| "walk_root (Suc fuel) tree j order =
     (if j = -1 then Inr order
      else if int (length order) < nnodes tree
      then bindE (rd (nodes tree) j) (\<lambda>n. walk_root fuel tree (parent n) (order @ [j]))
      else Inl OutOfBounds)"

definition sites_order :: "nat \<Rightarrow> Ops \<Rightarrow> LocalTree \<Rightarrow> int \<Rightarrow> int \<Rightarrow> fault + (int list \<times> int)" where
  "sites_order fuel ops tree prev_node new_node =
     (if prev_node = -1 then Inr (get_postorder ops tree, nnodes tree)
      else bindE (mark_dirty fuel tree prev_node (replicate (nat (nnodes tree)) False)) (\<lambda>dirty.
           bindE (walk_clean fuel tree dirty new_node []) (\<lambda>order1.
           bindE (walk_root fuel tree prev_node order1) (\<lambda>order.
             Inr (order, int (length order))))))"

text \<open>The precomputed likelihood of an invariant site.\<close>

definition invariant_lk :: "ArgModel \<Rightarrow> real \<Rightarrow> real" where
  "invariant_lk model treelen = 0.25 * exp (- mu model * max treelen (mintime model))"

text \<open>
  The loop ``calculate emissions for tree at each site'' of \<^verbatim>\<open>likelihood_sites\<close>;
  \<^verbatim>\<open>invariant\<close> is \<open>None\<close> for a null pointer.
\<close>

definition sites_step ::
  "Ops \<Rightarrow> LocalTree \<Rightarrow> string list \<Rightarrow> int \<Rightarrow> bool list option \<Rightarrow> int list \<Rightarrow> int
     \<Rightarrow> real list \<Rightarrow> real list \<Rightarrow> real \<Rightarrow> nat \<Rightarrow> real list list \<times> real list list list
     \<Rightarrow> fault + (real list list \<times> real list list list)" where
  "sites_step ops tree seqs statei invariant order norder muts nomuts inv_lk i st =
     (case st of (emit, table) \<Rightarrow>
        bindE (case invariant of None \<Rightarrow> Inr False | Some ivs \<Rightarrow> rd ivs (int i)) (\<lambda>is_inv.
          if is_inv then bindE (set_cell emit (int i) statei inv_lk) (\<lambda>emit'. Inr (emit', table))
          else bindE (rd table (int i)) (\<lambda>tab.
               bindE (likelihood_site_inner ops tree seqs (int i) order norder muts nomuts tab)
                 (\<lambda>(p, tab').
               bindE (wr table (int i) tab') (\<lambda>table'.
               bindE (set_cell emit (int i) statei p) (\<lambda>emit'. Inr (emit', table')))))))"

definition likelihood_sites ::
  "nat \<Rightarrow> Ops \<Rightarrow> LocalTree \<Rightarrow> ArgModel \<Rightarrow> string list \<Rightarrow> int \<Rightarrow> int \<Rightarrow> bool list option \<Rightarrow> real
     \<Rightarrow> real list list \<Rightarrow> real list list list \<Rightarrow> int \<Rightarrow> int
     \<Rightarrow> fault + (real list list \<times> real list list list)" where
  "likelihood_sites fuel ops tree model seqs seqlen statei invariant junk emit table
       prev_node new_node =
     bindE (sites_order fuel ops tree prev_node new_node) (\<lambda>(order, norder).
     bindE (tree_muts tree model junk) (\<lambda>(muts, nomuts, treelen).
       forE [0..<nat seqlen] (emit, table)
         (sites_step ops tree seqs statei invariant order norder muts nomuts
            (invariant_lk model treelen))))"

subsection \<open>Emissions for external threading\<close>

text \<open>
  The table of partial likelihoods \<^verbatim>\<open>LikelihoodTable(seqlen, nnodes)\<close> as it is after its
  construction: \<open>junk\<close> is what a cell that has not been written holds.
\<close>

definition new_likelihood_table :: "int \<Rightarrow> int \<Rightarrow> real \<Rightarrow> real list list list" where
  "new_likelihood_table seqlen n junk = replicate (nat seqlen) (replicate (nat n) (replicate 4 junk))"

text \<open>
  The body of the loop of \<^verbatim>\<open>calc_emissions\<close> over the states. The state of the loop is
  the editable tree, the emission table, the table of partial likelihoods, and
  \<open>prev_node\<close> and \<open>new_node\<close>, which the call of \<^verbatim>\<open>likelihood_sites\<close> does not use: it
  is called with \<open>-1, -1\<close>.
\<close>

definition calc_emissions_step ::
  "nat \<Rightarrow> Ops \<Rightarrow> LocalTree \<Rightarrow> ArgModel \<Rightarrow> string list \<Rightarrow> int \<Rightarrow> bool list \<Rightarrow> real \<Rightarrow> State list
     \<Rightarrow> int \<Rightarrow> nat \<Rightarrow> LocalTree \<times> real list list \<times> real list list list \<times> int \<times> int
     \<Rightarrow> fault + (LocalTree \<times> real list list \<times> real list list list \<times> int \<times> int)" where
  "calc_emissions_step fuel ops tree model seqs seqlen invariant junk states newleaf j st =
     (case st of (tree2, emit, table, prev_node, new_node) \<Rightarrow>
        bindE (rd states (int j)) (\<lambda>state.
          let tree2a = add_tree_branch ops tree2 (node state) (time state);
              new_node' = (if node state \<noteq> newleaf then node state else nnodes tree - 1)
          in bindE (likelihood_sites fuel ops tree2a model seqs seqlen (int j) (Some invariant)
                      junk emit table (-1) (-1)) (\<lambda>(emit', table').
             let tree2b = remove_tree_branch ops tree2a newleaf
             in bindE (rd (nodes tree2b) (node state)) (\<lambda>n.
                  Inr (tree2b, emit', table',
                       (if parent n \<noteq> newleaf then parent n else nnodes tree - 1),
                       new_node')))))"

definition calc_emissions ::
  "nat \<Rightarrow> Ops \<Rightarrow> State list \<Rightarrow> LocalTree \<Rightarrow> string list \<Rightarrow> int \<Rightarrow> int \<Rightarrow> ArgModel \<Rightarrow> real
     \<Rightarrow> real list list \<Rightarrow> fault + real list list" where
  "calc_emissions fuel ops states tree seqs nseqs seqlen model junk emit =
     bindE (find_invariant_sites seqs nseqs seqlen) (\<lambda>invariant.
     bindE (forE [0..<length states]
              (copy_tree ops tree (nnodes tree + 2), emit,
               new_likelihood_table seqlen (nnodes tree + 2) junk, -1, -1)
              (calc_emissions_step fuel ops tree model seqs seqlen invariant junk states
                 (get_num_leaves ops tree)))
       (\<lambda>(tree2, emit', table, prev_node, new_node). Inr emit'))"

text \<open>The slow reference.\<close>

definition calc_emissions_slow_step ::
  "nat \<Rightarrow> Ops \<Rightarrow> ArgModel \<Rightarrow> string list \<Rightarrow> int \<Rightarrow> bool list \<Rightarrow> real \<Rightarrow> State list
     \<Rightarrow> int \<Rightarrow> nat \<Rightarrow> LocalTree \<times> real list list \<times> real list list list
     \<Rightarrow> fault + (LocalTree \<times> real list list \<times> real list list list)" where
  "calc_emissions_slow_step fuel ops model seqs seqlen invariant junk states newleaf j st =
     (case st of (tree2, emit, table) \<Rightarrow>
        bindE (rd states (int j)) (\<lambda>state.
          let tree2a = add_tree_branch ops tree2 (node state) (time state)
          in bindE (likelihood_sites fuel ops tree2a model seqs seqlen (int j) (Some invariant)
                      junk emit table (-1) (-1)) (\<lambda>(emit', table').
               Inr (remove_tree_branch ops tree2a newleaf, emit', table'))))"

definition calc_emissions_slow ::
  "nat \<Rightarrow> Ops \<Rightarrow> State list \<Rightarrow> LocalTree \<Rightarrow> string list \<Rightarrow> int \<Rightarrow> int \<Rightarrow> ArgModel \<Rightarrow> real
     \<Rightarrow> real list list \<Rightarrow> fault + real list list" where
  "calc_emissions_slow fuel ops states tree seqs nseqs seqlen model junk emit =
     bindE (find_invariant_sites seqs nseqs seqlen) (\<lambda>invariant.
     bindE (forE [0..<length states]
              (copy_tree ops tree (nnodes tree + 2), emit,
               new_likelihood_table seqlen (nnodes tree + 2) junk)
              (calc_emissions_slow_step fuel ops model seqs seqlen invariant junk states
                 (get_num_leaves ops tree)))
       (\<lambda>(tree2, emit', table). Inr emit'))"

text \<open>
  Modelled from the spec: \<^verbatim>\<open>fequal\<close> of \<^verbatim>\<open>common.h\<close>, which is not among the sources:
  two values agree when they are equal, or within the absolute tolerance, or within the
  relative tolerance.
\<close>

definition fequal :: "real \<Rightarrow> real \<Rightarrow> real \<Rightarrow> real \<Rightarrow> bool" where
  "fequal f1 f2 rel eabs = (f1 = f2 \<or> \<bar>f1 - f2\<bar> < eabs \<or> \<bar>f1 - f2\<bar> < rel * \<bar>f2\<bar>)"

subsection \<open>Emissions for internal threading\<close>

text \<open>
  The loops ``process in preorder maintree nodes'' and ``process in preorder subtree
  nodes'' of \<^verbatim>\<open>calc_emissions_internal\<close>: the sum of the floored lengths of the branches
  under \<open>r\<close>.
\<close>

fun preorder_len ::
  "nat \<Rightarrow> Ops \<Rightarrow> LocalTree \<Rightarrow> ArgModel \<Rightarrow> int \<Rightarrow> int list \<Rightarrow> real \<Rightarrow> fault + real" where
  "preorder_len 0 ops tree model r stack len = (if stack = [] then Inr len else Inl Diverged)"
| "preorder_len (Suc fuel) ops tree model r stack len =
     (if stack = [] then Inr len
      else let len' = (if last stack \<noteq> r
                       then len + max (get_dist ops tree (last stack) (times_m model))
                                      (mintime model)
                       else len)
           in bindE (rd (nodes tree) (last stack)) (\<lambda>n.
              bindE (if \<not> is_leaf ops n then push_children tree n (butlast stack)
                     else Inr (butlast stack)) (\<lambda>stack'.
                preorder_len fuel ops tree model r stack' len')))"

definition subtree_len :: "nat \<Rightarrow> Ops \<Rightarrow> LocalTree \<Rightarrow> ArgModel \<Rightarrow> int \<Rightarrow> fault + real" where
  "subtree_len fuel ops tree model r =
     (if 1 \<le> nnodes tree then preorder_len fuel ops tree model r [r] 0 else Inl OutOfBounds)"

text \<open>The three sums over \<open>b\<close> for one \<open>a\<close>, and the term they add to \<open>emit[i][j]\<close>.\<close>

definition internal_term ::
  "real list list \<Rightarrow> real list list \<Rightarrow> int \<Rightarrow> int \<Rightarrow> bool \<Rightarrow> real \<Rightarrow> real \<Rightarrow> real \<Rightarrow> real \<Rightarrow> real
     \<Rightarrow> real \<Rightarrow> nat \<Rightarrow> real \<Rightarrow> fault + real" where
  "internal_term inn out node1 node2 at_root mut1 nomut1 mut2 nomut2 mut3 nomut3 a e =
     bindE (rd inn node1) (\<lambda>row1.
     bindE (rd inn node2) (\<lambda>row2.
     bindE (rd out node2) (\<lambda>row3.
     bindE (branch_sum row1 a mut1 nomut1) (\<lambda>p1.
     bindE (branch_sum row2 a mut2 nomut2) (\<lambda>p2.
     bindE (branch_sum row3 a mut3 nomut3) (\<lambda>p3.
       Inr (if \<not> at_root then e + p1 * p2 * p3 * 0.25 else e + p1 * p2 * 0.25)))))))"

text \<open>The tree length of a state in \<^verbatim>\<open>calc_emissions_internal\<close> (``get tree length'').\<close>

definition internal_treelen ::
  "ArgModel \<Rightarrow> real \<Rightarrow> real \<Rightarrow> bool \<Rightarrow> real \<Rightarrow> real \<Rightarrow> real \<Rightarrow> real" where
  "internal_treelen model maintreelen subtreelen at_root coal_time time1 root_time =
     (if at_root
      then maintreelen + subtreelen + max (coal_time - time1) (mintime model)
           + max (coal_time - root_time) (mintime model)
      else maintreelen + subtreelen + max (coal_time - time1) (mintime model))"

text \<open>The loop ``fill in row of emission table'', at site \<open>i\<close>.\<close>

definition internal_site ::
  "bool list \<Rightarrow> real list list list \<Rightarrow> real list list list \<Rightarrow> int \<Rightarrow> int \<Rightarrow> int \<Rightarrow> bool
     \<Rightarrow> real \<Rightarrow> real \<Rightarrow> real \<Rightarrow> real \<Rightarrow> real \<Rightarrow> real \<Rightarrow> real \<Rightarrow> nat \<Rightarrow> real list list
     \<Rightarrow> fault + real list list" where
  "internal_site invariant inner outer j node1 node2 at_root inv_lk
       mut1 nomut1 mut2 nomut2 mut3 nomut3 i emit =
     bindE (rd invariant (int i)) (\<lambda>is_inv.
       if is_inv then set_cell emit (int i) j inv_lk
       else bindE (rd inner (int i)) (\<lambda>inn.
            bindE (rd outer (int i)) (\<lambda>out.
            bindE (set_cell emit (int i) j 0) (\<lambda>emit0.
              forE [0..<4] emit0 (\<lambda>a em.
                bindE (rd em (int i)) (\<lambda>row.
                bindE (rd row j) (\<lambda>e.
                bindE (internal_term inn out node1 node2 at_root
                         mut1 nomut1 mut2 nomut2 mut3 nomut3 a e) (\<lambda>e'.
                  set_cell em (int i) j e'))))))))"

text \<open>
  The body of the loop ``populate emission table'', for the state \<open>j\<close>.
  \<open>internal_state_times\<close> is its part ``get nodes'' and ``get times'': the node of the
  state, \<open>time1\<close>, \<open>time2\<close>, \<open>parent_time\<close>, \<open>coal_time\<close>, and the time of the maintree
  root, which is read when the state is on the maintree root.
\<close>

definition internal_state_times ::
  "LocalTree \<Rightarrow> ArgModel \<Rightarrow> State list \<Rightarrow> int \<Rightarrow> int \<Rightarrow> nat
     \<Rightarrow> fault + (int \<times> real \<times> real \<times> real \<times> real \<times> real)" where
  "internal_state_times tree model states subtree_root maintree_root j =
     bindE (rd states (int j)) (\<lambda>state.
     bindE (rd (nodes tree) (node state)) (\<lambda>n2.
     bindE (node_age tree subtree_root) (\<lambda>age1.
     bindE (rd (times_m model) age1) (\<lambda>time1.
     bindE (rd (times_m model) (age n2)) (\<lambda>time2.
     bindE (node_age tree (parent n2)) (\<lambda>parent_age.
     bindE (rd (times_m model) (min parent_age (ntimes_m model - 1))) (\<lambda>parent_time.
     bindE (rd (times_m model) (time state)) (\<lambda>coal_time.
     bindE (if node state = maintree_root
            then bindE (node_age tree maintree_root) (\<lambda>rage. rd (times_m model) rage)
            else Inr 0) (\<lambda>root_time.
       Inr (node state, time1, time2, parent_time, coal_time, root_time))))))))))"

definition internal_state ::
  "LocalTree \<Rightarrow> ArgModel \<Rightarrow> State list \<Rightarrow> int \<Rightarrow> bool list \<Rightarrow> real list list list
     \<Rightarrow> real list list list \<Rightarrow> int \<Rightarrow> int \<Rightarrow> real \<Rightarrow> real \<Rightarrow> nat \<Rightarrow> real list list
     \<Rightarrow> fault + real list list" where
  "internal_state tree model states seqlen invariant inner outer subtree_root maintree_root
       maintreelen subtreelen j emit =
     bindE (internal_state_times tree model states subtree_root maintree_root j)
       (\<lambda>(node2, time1, time2, parent_time, coal_time, root_time).
       let dist1 = max (coal_time - time1) (mintime model);
           dist2 = max (coal_time - time2) (mintime model);
           dist3 = max (parent_time - coal_time) (mintime model);
           at_root = (node2 = maintree_root)
       in forE [0..<nat seqlen] emit
            (internal_site invariant inner outer (int j) subtree_root node2 at_root
               (invariant_lk model
                  (internal_treelen model maintreelen subtreelen at_root coal_time time1
                     root_time))
               (prob_branch dist1 (mu model) True) (prob_branch dist1 (mu model) False)
               (prob_branch dist2 (mu model) True) (prob_branch dist2 (mu model) False)
               (prob_branch dist3 (mu model) True) (prob_branch dist3 (mu model) False)))"

definition calc_emissions_internal ::
  "nat \<Rightarrow> Ops \<Rightarrow> State list \<Rightarrow> LocalTree \<Rightarrow> string list \<Rightarrow> int \<Rightarrow> int \<Rightarrow> ArgModel \<Rightarrow> real
     \<Rightarrow> real list list \<Rightarrow> fault + real list list" where
  "calc_emissions_internal fuel ops states tree seqs nseqs seqlen model junk emit =
     bindE (root_child tree 1) (\<lambda>maintree_root.
     bindE (root_child tree 0) (\<lambda>subtree_root.
       if states = []
       then forE [0..<nat seqlen] emit (\<lambda>i em. set_cell em (int i) 0 1)
       else
         bindE (find_invariant_sites seqs nseqs seqlen) (\<lambda>invariant.
         bindE (calc_inner_outer fuel ops tree model seqs seqlen invariant junk
                  (new_likelihood_table seqlen (nnodes tree) junk)
                  (new_likelihood_table seqlen (nnodes tree) junk)) (\<lambda>(inner, outer).
         bindE (subtree_len fuel ops tree model maintree_root) (\<lambda>maintreelen.
         bindE (subtree_len fuel ops tree model subtree_root) (\<lambda>subtreelen.
           forE [0..<length states] emit
             (internal_state tree model states seqlen invariant inner outer
                subtree_root maintree_root maintreelen subtreelen)))))))"

text \<open>The entry \<open>emit[i][j]\<close> of a table.\<close>

definition cell :: "real list list \<Rightarrow> int \<Rightarrow> int \<Rightarrow> fault + real" where
  "cell tab i j = bindE (rd tab i) (\<lambda>row. rd row j)"

text \<open>
  The sum of the floored branch lengths of a tree: the branches above the nodes other
  than the root.
\<close>

definition tree_length :: "LocalTree \<Rightarrow> ArgModel \<Rightarrow> real" where
  "tree_length tree model =
     sum_list (map (\<lambda>i. case branch_len tree model (int i) of Inr t \<Rightarrow> t | Inl e \<Rightarrow> 0)
                 (filter (\<lambda>i. int i \<noteq> root_t tree) [0..<nat (nnodes tree)]))"

text \<open>
  The editable tree of \<^verbatim>\<open>calc_emissions\<close> before the state \<open>j\<close> is handled: the copy of
  the tree, to which every earlier state has added its branch and removed it again.
\<close>

fun edited_tree :: "Ops \<Rightarrow> LocalTree \<Rightarrow> State list \<Rightarrow> nat \<Rightarrow> LocalTree" where
  "edited_tree ops tree states 0 = copy_tree ops tree (nnodes tree + 2)"
| "edited_tree ops tree states (Suc j) =
     remove_tree_branch ops
       (add_tree_branch ops (edited_tree ops tree states j) (node (states ! j)) (time (states ! j)))
       (get_num_leaves ops tree)"

text \<open>The tree with the branch of the state \<open>j\<close> added, which \<^verbatim>\<open>likelihood_sites\<close> is given.\<close>

definition augmented_tree :: "Ops \<Rightarrow> LocalTree \<Rightarrow> State list \<Rightarrow> nat \<Rightarrow> LocalTree" where
  "augmented_tree ops tree states j =
     add_tree_branch ops (edited_tree ops tree states j) (node (states ! j)) (time (states ! j))"

text \<open>
  The likelihood of an invariant site for a state of \<^verbatim>\<open>calc_emissions_internal\<close>, from
  the times of the state as \<open>internal_state_times\<close> returns them.
\<close>

definition internal_lk ::
  "ArgModel \<Rightarrow> real \<Rightarrow> real \<Rightarrow> int \<Rightarrow> int \<times> real \<times> real \<times> real \<times> real \<times> real \<Rightarrow> real" where
  "internal_lk model maintreelen subtreelen maintree_root pr =
     (case pr of (node2, time1, time2, parent_time, coal_time, root_time) \<Rightarrow>
        invariant_lk model
          (internal_treelen model maintreelen subtreelen (node2 = maintree_root) coal_time time1
             root_time))"

definition upd_pref :: "nat \<Rightarrow> (nat \<Rightarrow> 'a) \<Rightarrow> 'a list \<Rightarrow> 'a list" where
  "upd_pref n f col = map (\<lambda>k. if k < n then f k else col ! k) [0..<length col]"





text \<open>The invariant of the loops that fill a column and sum it: the sum so far is the sum of the entries written.\<close>

definition fill_inv :: "nat \<Rightarrow> real list \<times> real \<Rightarrow> bool" where
  "fill_inv k st = (case st of (c, nrm) \<Rightarrow> k \<le> length c \<and> nrm = (\<Sum>i<k. c ! i))"

section \<open>The factored step and the full transition matrix\<close>

















section \<open>Trees for internal threading\<close>

text \<open>
  The part of a local tree under a node, as the traversals with a stack see it: a leaf, or
  a node with the two subtrees under \<open>child[0]\<close> and \<open>child[1]\<close>. \<open>shape_ok\<close> says that the
  arrays of the tree hold this shape, \<open>shape_nodes\<close> lists its nodes.
\<close>

datatype shape = Tip int | Bin int shape shape

fun shape_root :: "shape \<Rightarrow> int" where
  "shape_root (Tip v) = v"
| "shape_root (Bin v l r) = v"

fun shape_nodes :: "shape \<Rightarrow> int list" where
  "shape_nodes (Tip v) = [v]"
| "shape_nodes (Bin v l r) = v # shape_nodes l @ shape_nodes r"

fun shape_ok :: "Ops \<Rightarrow> LocalTree \<Rightarrow> shape \<Rightarrow> bool" where
  "shape_ok ops tree (Tip v) =
     (0 \<le> v \<and> v < nnodes tree \<and> is_leaf ops (nodes tree ! nat v))"
| "shape_ok ops tree (Bin v l r) =
     (0 \<le> v \<and> v < nnodes tree \<and> \<not> is_leaf ops (nodes tree ! nat v)
      \<and> 2 \<le> length (child (nodes tree ! nat v))
      \<and> child (nodes tree ! nat v) ! 0 = shape_root l
      \<and> child (nodes tree ! nat v) ! 1 = shape_root r
      \<and> shape_ok ops tree l \<and> shape_ok ops tree r)"

text \<open>
  The sum of the floored branch lengths of the tree under a node: the length
  \<open>max(get_dist(v), mintime)\<close> of the branch above every node \<open>v\<close> under it.
\<close>

definition floored_dist :: "Ops \<Rightarrow> LocalTree \<Rightarrow> ArgModel \<Rightarrow> int \<Rightarrow> real" where
  "floored_dist ops tree model v = max (get_dist ops tree v (times_m model)) (mintime model)"

definition shape_length :: "Ops \<Rightarrow> LocalTree \<Rightarrow> ArgModel \<Rightarrow> shape \<Rightarrow> real" where
  "shape_length ops tree model sh =
     sum_list (map (floored_dist ops tree model)
                 (filter (\<lambda>v. v \<noteq> shape_root sh) (shape_nodes sh)))"

text \<open>
  The tree length of a state for internal threading: the length of the maintree, the
  length of the subtree, the floored length of the new branch from the subtree root to
  the coalescence time of the state and, when the state is on the maintree root, the
  floored length of the branch from the maintree root to the coalescence time.
\<close>

definition internal_tree_length ::
  "Ops \<Rightarrow> LocalTree \<Rightarrow> ArgModel \<Rightarrow> shape \<Rightarrow> shape \<Rightarrow> State \<Rightarrow> real" where
  "internal_tree_length ops tree model msh ssh st =
     (let coal_time = times_m model ! nat (time st);
          sub_time = times_m model ! nat (age (nodes tree ! nat (shape_root ssh)));
          main_time = times_m model ! nat (age (nodes tree ! nat (shape_root msh)));
          base = shape_length ops tree model msh + shape_length ops tree model ssh
                 + max (coal_time - sub_time) (mintime model)
      in if node st = shape_root msh
         then base + max (coal_time - main_time) (mintime model)
         else base)"

text \<open>
  What \<^verbatim>\<open>calc_emissions_internal\<close> reads exists. \<open>in_times\<close>: an age is an index of
  \<open>times\<close>. \<open>mut_ok\<close>: the parent and the ages that \<^verbatim>\<open>prob_tree_mutation\<close> reads for a node.
  \<open>node_ok\<close>: a leaf has a sequence of bases, another node has two children. \<open>outer_ok\<close>:
  the sibling and the parent of a node of the maintree. \<open>state_ok\<close>: the node, the parent
  and the times of a state.
\<close>

definition in_times :: "ArgModel \<Rightarrow> int \<Rightarrow> bool" where
  "in_times model a = (0 \<le> a \<and> a < int (length (times_m model)))"

definition mut_ok :: "LocalTree \<Rightarrow> ArgModel \<Rightarrow> nat \<Rightarrow> bool" where
  "mut_ok tree model i =
     (int i \<noteq> root_t tree \<longrightarrow>
        (let p = parent (nodes tree ! i)
         in 0 \<le> p \<and> p < int (length (nodes tree))
            \<and> (age (nodes tree ! nat p) \<noteq> removed_root_time model \<longrightarrow>
                 in_times model (age (nodes tree ! nat p))
                 \<and> in_times model (age (nodes tree ! i)))))"

definition base_ok :: "Ops \<Rightarrow> char \<Rightarrow> bool" where
  "base_ok ops c = (c = CHR ''N'' \<or> c = CHR ''n'' \<or> (0 \<le> dna2int ops c \<and> dna2int ops c < 4))"

definition node_ok :: "Ops \<Rightarrow> LocalTree \<Rightarrow> string list \<Rightarrow> int \<Rightarrow> int \<Rightarrow> bool" where
  "node_ok ops tree seqs seqlen j =
     (0 \<le> j \<and> j < nnodes tree
      \<and> (if is_leaf ops (nodes tree ! nat j)
         then j < int (length seqs) \<and> nat seqlen \<le> length (seqs ! nat j)
              \<and> list_all (base_ok ops) (take (nat seqlen) (seqs ! nat j))
         else 2 \<le> length (child (nodes tree ! nat j))
              \<and> 0 \<le> child (nodes tree ! nat j) ! 0 \<and> child (nodes tree ! nat j) ! 0 < nnodes tree
              \<and> 0 \<le> child (nodes tree ! nat j) ! 1 \<and> child (nodes tree ! nat j) ! 1 < nnodes tree))"

definition outer_ok :: "Ops \<Rightarrow> LocalTree \<Rightarrow> int \<Rightarrow> int \<Rightarrow> bool" where
  "outer_ok ops tree mroot v =
     (v \<noteq> mroot \<longrightarrow>
        0 \<le> get_sibling ops tree v \<and> get_sibling ops tree v < nnodes tree
      \<and> 0 \<le> parent (nodes tree ! nat v) \<and> parent (nodes tree ! nat v) < nnodes tree)"

definition state_ok :: "LocalTree \<Rightarrow> ArgModel \<Rightarrow> int \<Rightarrow> int \<Rightarrow> State \<Rightarrow> bool" where
  "state_ok tree model mroot sroot st =
     (0 \<le> node st \<and> node st < nnodes tree
      \<and> in_times model (age (nodes tree ! nat sroot))
      \<and> in_times model (age (nodes tree ! nat (node st)))
      \<and> 0 \<le> parent (nodes tree ! nat (node st))
      \<and> parent (nodes tree ! nat (node st)) < int (length (nodes tree))
      \<and> in_times model (min (age (nodes tree ! nat (parent (nodes tree ! nat (node st)))))
                           (ntimes_m model - 1))
      \<and> in_times model (time st)
      \<and> (node st = mroot \<longrightarrow> in_times model (age (nodes tree ! nat mroot))))"

definition internal_wf ::
  "Ops \<Rightarrow> State list \<Rightarrow> LocalTree \<Rightarrow> string list \<Rightarrow> int \<Rightarrow> int \<Rightarrow> ArgModel \<Rightarrow> real list list
     \<Rightarrow> shape \<Rightarrow> shape \<Rightarrow> bool" where
  "internal_wf ops states tree seqs nseqs seqlen model emit msh ssh =
     (states \<noteq> []
      \<and> nat (nnodes tree) \<le> length (nodes tree)
      \<and> 0 \<le> root_t tree \<and> root_t tree < nnodes tree
      \<and> 2 \<le> length (child (nodes tree ! nat (root_t tree)))
      \<and> child (nodes tree ! nat (root_t tree)) ! 1 = shape_root msh
      \<and> child (nodes tree ! nat (root_t tree)) ! 0 = shape_root ssh
      \<and> shape_ok ops tree msh \<and> shape_ok ops tree ssh
      \<and> int (length (shape_nodes msh)) \<le> nnodes tree
      \<and> int (length (shape_nodes ssh)) \<le> nnodes tree
      \<and> seqs \<noteq> [] \<and> nat nseqs \<le> length seqs
      \<and> list_all (\<lambda>s. nat seqlen \<le> length s) (take (max (nat nseqs) 1) seqs)
      \<and> list_all (mut_ok tree model) [0..<nat (nnodes tree)]
      \<and> nat (nnodes tree) \<le> length (get_postorder ops tree)
      \<and> list_all (node_ok ops tree seqs seqlen) (take (nat (nnodes tree)) (get_postorder ops tree))
      \<and> list_all (outer_ok ops tree (shape_root msh)) (shape_nodes msh)
      \<and> list_all (state_ok tree model (shape_root msh) (shape_root ssh)) states
      \<and> nat seqlen \<le> length emit
      \<and> list_all (\<lambda>row. length states \<le> length row) (take (nat seqlen) emit))"

text \<open>
  A table of partial likelihoods for one site has a row of four entries for each of the
  first \<open>n\<close> nodes; an emission table has a row for each of the first \<open>seqlen\<close> sites,
  with an entry for each of \<open>ns\<close> states.
\<close>

definition tab_ok :: "nat \<Rightarrow> real list list \<Rightarrow> bool" where
  "tab_ok n tab = (n \<le> length tab \<and> list_all (\<lambda>row. 4 \<le> length row) (take n tab))"

definition emit_ok :: "nat \<Rightarrow> nat \<Rightarrow> real list list \<Rightarrow> bool" where
  "emit_ok m ns emit = (m \<le> length emit \<and> list_all (\<lambda>row. ns \<le> length row) (take m emit))"

definition tabs_ok :: "nat \<Rightarrow> nat \<Rightarrow> real list list list \<Rightarrow> bool" where
  "tabs_ok m n tabs = (m \<le> length tabs \<and> list_all (tab_ok n) (take m tabs))"

lemma bindE_Inr [simp]: "bindE (Inr x) f = f x"
  by (simp add: bindE_def)

lemma bindE_Inl [simp]: "bindE (Inl e) f = Inl e"
  by (simp add: bindE_def)

lemma rd_ok: "i < length xs \<Longrightarrow> rd xs (int i) = Inr (xs ! i)"
  by (simp add: rd_def)

lemma wr_ok: "i < length xs \<Longrightarrow> wr xs (int i) v = Inr (xs[i := v])"
  by (simp add: wr_def)

lemma forE_append: "forE (xs @ ys) s f = bindE (forE xs s f) (\<lambda>s'. forE ys s' f)"
  by (induction xs arbitrary: s) (auto split: sum.splits)

lemma forE_upt_from:
  assumes "\<And>i. m \<le> i \<Longrightarrow> i < n \<Longrightarrow> f i (g i) = Inr (g (Suc i))" and "m \<le> n"
  shows "forE [m..<n] (g m) f = Inr (g n)"
  using assms
proof (induction n)
  case 0
  then show ?case by simp
next
  case (Suc n)
  show ?case
  proof (cases "m = Suc n")
    case True
    then show ?thesis by simp
  next
    case False
    with Suc.prems have le: "m \<le> n" by simp
    have "forE [m..<n] (g m) f = Inr (g n)"
      using Suc.IH Suc.prems(1) le by simp
    moreover have "f n (g n) = Inr (g (Suc n))"
      using Suc.prems(1) le by simp
    ultimately show ?thesis
      using le by (simp add: forE_append)
  qed
qed

lemma forE_upt:
  assumes "\<And>i. i < n \<Longrightarrow> f i (g i) = Inr (g (Suc i))"
  shows "forE [0..<n] (g 0) f = Inr (g n)"
  using forE_upt_from [of 0 n f g] assms by simp

lemma length_upd_pref [simp]: "length (upd_pref n f col) = length col"
  by (simp add: upd_pref_def)

lemma nth_upd_pref [simp]:
  "k < length col \<Longrightarrow> upd_pref n f col ! k = (if k < n then f k else col ! k)"
  by (simp add: upd_pref_def)

lemma upd_pref_0 [simp]: "upd_pref 0 f col = col"
  by (simp add: upd_pref_def map_nth)

lemma upd_pref_update:
  assumes "k < n" "k < length col" "\<And>i. i < n \<Longrightarrow> i \<noteq> k \<Longrightarrow> h i = f i" "h k = v"
  shows "(upd_pref n f col)[k := v] = upd_pref n h col"
  using assms by (intro nth_equalityI) (auto simp: nth_list_update)

lemma upd_pref_Suc:
  assumes "k < length col" "\<And>i. i < k \<Longrightarrow> h i = f i" "h k = v"
  shows "(upd_pref k f col)[k := v] = upd_pref (Suc k) h col"
  using assms by (intro nth_equalityI) (auto simp: nth_list_update less_Suc_eq)


lemma max_array_ok:
  assumes "1 \<le> n" "n \<le> length xs"
  shows "max_array xs (int n) = Inr (Max (set (take n xs)))"
proof -
  let ?g = "\<lambda>i. Max (set (take i xs))"
  have step: "bindE (rd xs (int i)) (\<lambda>x. Inr (if x > ?g i then x else ?g i)) = Inr (?g (Suc i))"
    if "1 \<le> i" "i < n" for i
  proof -
    have ne: "set (take i xs) \<noteq> {}" using that assms by auto
    have "?g (Suc i) = max (xs ! i) (?g i)"
      using that assms ne by (simp add: take_Suc_conv_app_nth)
    then show ?thesis using that assms by (auto simp: rd_ok max_def)
  qed
  have g1: "?g 1 = xs ! 0"
    using assms by (cases xs) auto
  have "forE [1..<n] (?g 1) (\<lambda>i top. bindE (rd xs (int i)) (\<lambda>x. Inr (if x > top then x else top)))
        = Inr (?g n)"
    using step assms by (intro forE_upt_from) auto
  moreover have "rd xs 0 = Inr (xs ! 0)"
    using assms by (cases xs) (auto simp: rd_def)
  ultimately show ?thesis
    using g1 by (simp add: max_array_def)
qed

lemma ln2_bounds: "1 / 2 \<le> ln (2::real)" "ln (2::real) \<le> 9 / 10"
proof -
  have "1 / 2 \<le> ln (2::real) \<longleftrightarrow> exp (1 / 2) \<le> (2::real)"
    by (rule ln_ge_iff) simp
  with exp_half_le2 show "1 / 2 \<le> ln (2::real)" by blast
  have "1 + 9 / 20 \<le> exp (9 / 20 :: real)" by (rule exp_ge_add_one_self)
  then have "(1 + 9 / 20) * (1 + 9 / 20) \<le> exp (9 / 20 :: real) * exp (9 / 20)"
    by (intro mult_mono) simp_all
  also have "\<dots> = exp (9 / 10 :: real)" by (simp add: exp_add [symmetric])
  finally have "(2::real) \<le> exp (9 / 10)" by simp
  then have "ln (2::real) \<le> ln (exp (9 / 10))" by (subst ln_le_cancel_iff) simp_all
  then show "ln (2::real) \<le> 9 / 10" by simp
qed


lemma exp_ld_regular: "- 537 \<le> x \<Longrightarrow> exp_ld (Fin x) = exp x"
  using ln2_bounds(1) by simp











lemma normalize_loop:
  assumes "n \<le> length col2" and nz: "t \<noteq> 0"
  shows "forE [0..<n] (upd_pref n f col2) (normalize_col t) = Inr (upd_pref n (\<lambda>k. f k / t) col2)"
proof -
  let ?g = "\<lambda>k. upd_pref n (\<lambda>i. if i < k then f i / t else f i) col2"
  have "forE [0..<n] (?g 0) (normalize_col t) = Inr (?g n)"
  proof (rule forE_upt)
    fix k assume k: "k < n"
    have "(?g k)[k := f k / t] = ?g (Suc k)"
      using k assms by (intro upd_pref_update) auto
    then show "normalize_col t k (?g k) = Inr (?g (Suc k))"
      using k assms by (simp add: normalize_col_def rd_ok wr_ok)
  qed
  moreover have "?g 0 = upd_pref n f col2" by simp
  moreover have "?g n = upd_pref n (\<lambda>k. f k / t) col2"
    by (intro nth_equalityI) auto
  ultimately show ?thesis by simp
qed






lemma switch_determ_sizes [simp]:
  "switch_determ col1 (m\<lparr>nstates1 := a, nstates2 := b\<rparr>) = switch_determ col1 m"
  by (intro ext) (simp add: switch_determ_def cong: if_cong)

lemma switch_spread_sizes [simp]:
  "switch_spread col1 (m\<lparr>nstates1 := a, nstates2 := b\<rparr>) emit = switch_spread col1 m emit"
  by (intro ext) (simp add: switch_spread_def switch_row_def cong: if_cong)

lemma switch_get_sizes [simp]:
  "switch_get (m\<lparr>nstates1 := a\<rparr>) = switch_get m"
  by (intro ext) (simp add: switch_get_def switch_get_log_def cong: if_cong)





lemma forE_upt_Suc:
  "forE [0..<Suc n] s f = bindE (forE [0..<n] s f) (\<lambda>s'. f n s')"
  by (simp add: forE_append bindE_def split: sum.splits)

lemma forE_upt_inv:
  assumes "forE [0..<n] s f = Inr s'" "P 0 s"
    and "\<And>i s t. i < n \<Longrightarrow> P i s \<Longrightarrow> f i s = Inr t \<Longrightarrow> P (Suc i) t"
  shows "P n s'"
  using assms
proof (induction n arbitrary: s')
  case 0
  then show ?case by simp
next
  case (Suc n)
  from Suc.prems(1) obtain t where t: "forE [0..<n] s f = Inr t" and f: "f n t = Inr s'"
    unfolding forE_upt_Suc by (cases "forE [0..<n] s f") auto
  have "P n t"
    using Suc.IH [OF t Suc.prems(2)] Suc.prems(3) by simp
  then show ?case
    using Suc.prems(3) [of n t s'] f by simp
qed

lemma wr_Inr_iff: "wr xs i v = Inr ys \<longleftrightarrow> 0 \<le> i \<and> i < int (length xs) \<and> ys = xs[nat i := v]"
  by (auto simp: wr_def)

lemma rd_Inr_iff: "rd xs i = Inr y \<longleftrightarrow> 0 \<le> i \<and> i < int (length xs) \<and> y = xs ! nat i"
  by (auto simp: rd_def)

lemma bindE_Inr_iff: "bindE m f = Inr y \<longleftrightarrow> (\<exists>x. m = Inr x \<and> f x = Inr y)"
  by (cases m) auto

lemma fill_inv_step:
  assumes "fill_inv k (c, nrm)" "wr c (int k) v = Inr c'"
  shows "fill_inv (Suc k) (c', nrm + v)"
  using assms by (auto simp: fill_inv_def wr_Inr_iff)

lemma fill_column_step_inv:
  assumes "fill_inv k st" "fill_column_step states ages tmf tm2 col1 emit2 k st = Inr st'"
  shows "fill_inv (Suc k) st'"
proof -
  obtain c nrm where st: "st = (c, nrm)" by (cases st)
  from assms(2) obtain v c' where "wr c (int k) v = Inr c'" "st' = (c', nrm + v)"
    unfolding fill_column_step_def st by (auto simp: bindE_Inr_iff)
  with assms(1) show ?thesis
    unfolding st by (auto intro: fill_inv_step)
qed

lemma forward_block_fill_inv:
  assumes "forward_block_fill states ntimes ages tm tm2 col1 col2 emit2 = Inr (c, nrm)"
  shows "length states \<le> length c" "nrm = (\<Sum>k<length states. c ! k)"
proof -
  from assms obtain tmf where
    "forE [0..<length states] (col2, 0) (fill_column_step states ages tmf tm2 col1 emit2)
       = Inr (c, nrm)"
    unfolding forward_block_fill_def by (auto simp: bindE_Inr_iff)
  then have "fill_inv (length states) (c, nrm)"
    by (rule forE_upt_inv [where P = fill_inv])
      (simp add: fill_inv_def, erule fill_column_step_inv)
  then show "length states \<le> length c" "nrm = (\<Sum>k<length states. c ! k)"
    by (simp_all add: fill_inv_def)
qed

lemma normalize_result:
  assumes "n \<le> length c" "t \<noteq> 0"
  shows "forE [0..<n] c (normalize_col t) = Inr (upd_pref n (\<lambda>k. c ! k / t) c)"
proof -
  have "upd_pref n ((!) c) c = c"
    by (intro nth_equalityI) auto
  with normalize_loop [OF assms, of "(!) c"] show ?thesis by simp
qed

lemma normalized_sum:
  assumes "n \<le> length c" "t = (\<Sum>k<n. c ! k)" "t \<noteq> 0"
  shows "(\<Sum>k<n. upd_pref n (\<lambda>k. c ! k / t) c ! k) = (1::real)"
proof -
  have "(\<Sum>k<n. upd_pref n (\<lambda>k. c ! k / t) c ! k) = (\<Sum>k<n. c ! k / t)"
    using assms(1) by (intro sum.cong) auto
  also have "\<dots> = (\<Sum>k<n. c ! k) / t"
    by (simp add: sum_divide_distrib)
  finally show ?thesis using assms by simp
qed

lemma forward_block_column_normalized:
  assumes "forward_block_fill states ntimes ages tm tm2 col1 col2 emit2 = Inr (c, nrm)" "nrm \<noteq> 0"
  shows "\<exists>c'. forward_block_column states ntimes ages tm tm2 col1 col2 emit2 = Inr c'
           \<and> (\<Sum>k<length states. c' ! k) = 1 \<and> nrm = (\<Sum>k<length states. c ! k)"
proof -
  note inv = forward_block_fill_inv [OF assms(1)]
  have "forward_block_column states ntimes ages tm tm2 col1 col2 emit2
      = Inr (upd_pref (length states) (\<lambda>k. c ! k / nrm) c)"
    by (simp add: forward_block_column_def assms(1) normalize_result [OF inv(1) assms(2)])
  with normalized_sum [OF inv assms(2)] inv(2) show ?thesis by simp
qed

lemma switch_row_frame:
  assumes "switch_row col1 src row k c = Inr c'"
  shows "\<exists>v. c' = c[k := v] \<or> c' = c"
  using assms by (auto simp: switch_row_def bindE_Inr_iff wr_Inr_iff split: if_splits)

lemma switch_spread_inv:
  assumes "fill_inv k st" "switch_spread col1 m emit k st = Inr st'"
  shows "fill_inv (Suc k) st'"
proof -
  obtain c nrm where st: "st = (c, nrm)" by (cases st)
  from assms(2) obtain c1 c2 v c' where r1: "switch_row col1 (recombsrc m) (recombrow m) k c = Inr c1"
    and r2: "switch_row col1 (recoalsrc m) (recoalrow m) k c1 = Inr c2"
    and w: "wr c2 (int k) v = Inr c'" and st': "st' = (c', nrm + v)"
    unfolding switch_spread_def st by (auto simp: bindE_Inr_iff)
  from switch_row_frame [OF r1] switch_row_frame [OF r2]
  have len: "length c2 = length c" and same: "\<And>i. i < k \<Longrightarrow> c2 ! i = c ! i"
    by auto
  from assms(1) len same have "fill_inv k (c2, nrm)"
    by (simp add: fill_inv_def st)
  from fill_inv_step [OF this w] st' show ?thesis by simp
qed

lemma forward_switch_fill_inv:
  assumes "forward_switch_fill col1 col2 m emit = Inr (c, nrm)"
  shows "nat (max (nstates2 m) 1) \<le> length c" "nrm = (\<Sum>k<nat (max (nstates2 m) 1). c ! k)"
proof -
  from assms obtain c1 where
    "forE [0..<nat (max (nstates2 m) 1)] (c1, 0) (switch_spread col1 m emit) = Inr (c, nrm)"
    unfolding forward_switch_fill_def Let_def by (auto simp: bindE_Inr_iff)
  then have "fill_inv (nat (max (nstates2 m) 1)) (c, nrm)"
    by (rule forE_upt_inv [where P = fill_inv])
      (simp add: fill_inv_def, erule switch_spread_inv)
  then show "nat (max (nstates2 m) 1) \<le> length c" "nrm = (\<Sum>k<nat (max (nstates2 m) 1). c ! k)"
    by (simp_all add: fill_inv_def)
qed

lemma forward_switch_normalized:
  assumes "forward_switch_fill col1 col2 m emit = Inr (c, nrm)" "0 < nrm"
  shows "\<exists>c'. arghmm_forward_switch col1 col2 m emit = Inr c'
           \<and> (\<Sum>k<nat (max (nstates2 m) 1). c' ! k) = 1
           \<and> nrm = (\<Sum>k<nat (max (nstates2 m) 1). c ! k)"
proof -
  let ?n = "nat (max (nstates2 m) 1)"
  note inv = forward_switch_fill_inv [OF assms(1)]
  have n1: "1 \<le> ?n" by simp
  have "0 \<le> max (nstates2 m) 1" by linarith
  then have i2: "int ?n = max (nstates2 m) 1" by (rule int_nat_eq [THEN trans, OF if_P])
  have top: "max_array c (max (nstates2 m) 1) = Inr (Max (set (take ?n c)))"
    using max_array_ok [OF n1 inv(1)] unfolding i2 .
  have "\<exists>k<?n. 0 < c ! k"
  proof (rule ccontr)
    assume "\<not> (\<exists>k<?n. 0 < c ! k)"
    then have "c ! k \<le> 0" if "k < ?n" for k
      using that by (meson not_less)
    then have "(\<Sum>k<?n. c ! k) \<le> 0"
      by (intro sum_nonpos) simp
    with assms(2) inv(2) show False by simp
  qed
  then obtain k where k: "k < ?n" "0 < c ! k" by blast
  then have "c ! k \<in> set (take ?n c)"
    using inv(1) by (auto simp: in_set_conv_nth intro!: exI [of _ k])
  then have "c ! k \<le> Max (set (take ?n c))"
    by (intro Max_ge) auto
  with k have pos: "\<not> Max (set (take ?n c)) \<le> 0" by simp
  from assms(2) have nz: "nrm \<noteq> 0" by simp
  have "arghmm_forward_switch col1 col2 m emit = Inr (upd_pref ?n (\<lambda>k. c ! k / nrm) c)"
    using pos by (simp add: arghmm_forward_switch_def assms(1) top normalize_result [OF inv(1) nz])
  with normalized_sum [OF inv nz] inv(2) show ?thesis by simp
qed

lemma rd_wr_same: "wr xs i v = Inr ys \<Longrightarrow> rd ys i = Inr v"
  by (auto simp: wr_def rd_def split: if_splits)

lemma copy_first_entry_result:
  assumes "copy_first_entry fo i fw = Inr fw'"
  shows "bindE (rd fw' (fo + int i)) (\<lambda>c. rd c 0) = bindE (rd fw (fo + int i - 1)) (\<lambda>c. rd c 0)"
proof -
  from assms obtain col1 x col2 c where r: "rd fw (fo + int i - 1) = Inr col1" "rd col1 0 = Inr x"
    and w: "wr col2 0 x = Inr c" "wr fw (fo + int i) c = Inr fw'"
    unfolding copy_first_entry_def by (auto simp: bindE_Inr_iff)
  from rd_wr_same [OF w(2)] rd_wr_same [OF w(1)] r show ?thesis by simp
qed

lemma forE_cong_set:
  assumes "\<And>i s. i \<in> set is \<Longrightarrow> f i s = g i s"
  shows "forE is s f = forE is s g"
  using assms by (induction "is" arbitrary: s) (auto split: sum.splits)

lemma rd_shift_Cons:
  assumes "1 \<le> i"
  shows "rd (x # xs) (int i) = rd xs (int i - 1)"
  using assms by (cases i) (auto simp: rd_def nat_add_distrib)

lemma forward_block_shift:
  "arghmm_forward_block tree ntimes blocklen states matrix emit (-1) fw fo
   = arghmm_forward_block tree ntimes blocklen states matrix (e0 # emit) 0 fw fo"
proof -
  have "forE [1..<nat blocklen] fw (forward_block_step states ntimes ages tm tm2 emit (-1) fo)
      = forE [1..<nat blocklen] fw (forward_block_step states ntimes ages tm tm2 (e0 # emit) 0 fo)"
    for ages tm tm2
    by (rule forE_cong_set) (simp add: forward_block_step_def rd_shift_Cons)
  then show ?thesis
    by (simp only: arghmm_forward_block_def)
qed

lemma slow_column_step_shift:
  assumes "1 \<le> i"
  shows "slow_column_step n tm col1 (e0 # emit) (int i) = slow_column_step n tm col1 emit (int i - 1)"
  using assms by (intro ext) (simp add: slow_column_step_def rd_shift_Cons)

lemma forward_block_slow_shift:
  "arghmm_forward_block_slow tree ntimes blocklen states matrix emit (-1) fw fo
   = arghmm_forward_block_slow tree ntimes blocklen states matrix (e0 # emit) 0 fw fo"
proof -
  have "forE [1..<nat blocklen] fw (forward_block_slow_step n tm emit (-1) fo)
      = forE [1..<nat blocklen] fw (forward_block_slow_step n tm (e0 # emit) 0 fo)"
    for n tm
    by (rule forE_cong_set)
      (simp add: forward_block_slow_step_def forward_block_slow_column_def
        slow_column_step_shift)
  then show ?thesis
    by (simp only: arghmm_forward_block_slow_def)
qed

lemma forward_alg_block_no_switch:
  assumes "rd blocks (int b) = Inr blk" "block_start blk > start_coord trees"
    "m_transmat_switch (matrices blk) = None"
  shows "forward_alg_block env trees ntimes prior_given intern slow b blocks fw =
     bindE (new_block env trees fw (block_start blk)
              (block_start blk + m_blocklen (matrices blk)) (m_nstates2 (matrices blk))) (\<lambda>fw1.
     bindE (assert_column fw1 (block_start blk - 1 - start_coord trees)
              (max (nstates (m_transmat (matrices blk))) 1)) (\<lambda>_.
     bindE ((if slow then arghmm_forward_block_slow else arghmm_forward_block)
              (block_tree blk) ntimes (m_blocklen (matrices blk) + 1)
              (get_coal_states env (block_tree blk) ntimes intern)
              (m_transmat (matrices blk)) (m_emit (matrices blk)) (-1)
              fw1 (block_start blk - 1 - start_coord trees)) (\<lambda>fw3.
     bindE (assert_column fw3
              (block_start blk + m_blocklen (matrices blk) - 1 - start_coord trees)
              (max (nstates (m_transmat (matrices blk))) 1)) (\<lambda>_. Inr fw3))))"
  using assms
  by (cases slow)
    (simp_all add: forward_alg_block_def forward_first_column_def Let_def diff_diff_eq
      add.commute)

lemma find_vector_from_range:
  "find_vector_from ss i x = j \<Longrightarrow> j \<noteq> -1 \<Longrightarrow> 0 \<le> i \<Longrightarrow>
     i \<le> j \<and> j < i + int (length ss) \<and> ss ! nat (j - i) = x"
proof (induction ss arbitrary: i)
  case Nil
  then show ?case by simp
next
  case (Cons s ss)
  show ?case
  proof (cases "s = x")
    case True
    with Cons.prems show ?thesis by simp
  next
    case False
    with Cons.prems have "find_vector_from ss (i + 1) x = j" by simp
    from Cons.IH [OF this Cons.prems(2)] Cons.prems(3)
    have r: "i + 1 \<le> j" "j < i + 1 + int (length ss)" "ss ! nat (j - (i + 1)) = x" by simp_all
    from r(1) have "nat (j - i) = Suc (nat (j - (i + 1)))" by simp
    with r show ?thesis by simp
  qed
qed

lemma find_vector_from_absent:
  "0 \<le> i \<Longrightarrow> find_vector_from ss i x = -1 \<longleftrightarrow> x \<notin> set ss"
proof (induction ss arbitrary: i)
  case Nil
  then show ?case by simp
next
  case (Cons s ss)
  then have "find_vector_from ss (i + 1) x = -1 \<longleftrightarrow> x \<notin> set ss" by simp
  with Cons.prems show ?case by auto
qed

lemma find_vector_absent: "find_vector states x = -1 \<longleftrightarrow> x \<notin> set states"
  by (simp add: find_vector_def find_vector_from_absent)

lemma find_vector_range:
  assumes "find_vector states x \<noteq> -1"
  shows "0 \<le> find_vector states x" "find_vector states x < int (length states)"
    "states ! nat (find_vector states x) = x"
  using find_vector_from_range [of states 0 x "find_vector states x"] assms
  by (simp_all add: find_vector_def)

lemma zero_fill_loop:
  assumes "forE [0..<n] col (\<lambda>k c. wr c (int k) 0) = Inr col'"
  shows "col' = upd_pref n (\<lambda>k. 0::real) col \<and> n \<le> length col"
proof -
  have "col' = upd_pref n (\<lambda>k. 0::real) col \<and> n \<le> length col' \<and> length col' = length col"
    using assms
  proof (rule forE_upt_inv [where P = "\<lambda>k c. c = upd_pref k (\<lambda>k. 0::real) col
        \<and> k \<le> length c \<and> length c = length col"])
    fix i s t
    assume "s = upd_pref i (\<lambda>k. 0) col \<and> i \<le> length s \<and> length s = length col"
      "wr s (int i) 0 = Inr t"
    then show "t = upd_pref (Suc i) (\<lambda>k. 0) col \<and> Suc i \<le> length t \<and> length t = length col"
      by (auto simp: wr_Inr_iff upd_pref_Suc)
  qed simp
  then show ?thesis by simp
qed

lemma pin_first_column_result:
  assumes "pin_first_column env trees ntimes blocks start_state = Inr fw0"
  shows "\<exists>blk col. rd blocks 0 = Inr blk \<and> rd fw0 0 = Inr col
     \<and> start_state \<in> set (get_coal_states env (block_tree blk) ntimes False)
     \<and> length (get_coal_states env (block_tree blk) ntimes False) \<le> length col
     \<and> (\<forall>k<length (get_coal_states env (block_tree blk) ntimes False).
          col ! k = (if int k = find_vector (get_coal_states env (block_tree blk) ntimes False)
                                  start_state then 1 else 0))"
proof -
  from assms obtain blk where blk: "rd blocks 0 = Inr blk"
    unfolding pin_first_column_def by (auto simp: bindE_Inr_iff)
  let ?S = "get_coal_states env (block_tree blk) ntimes False"
  let ?j = "find_vector ?S start_state"
  from assms blk obtain fw col col' col'' where
    j: "?j \<noteq> -1" and z: "forE [0..<length ?S] col (\<lambda>k c. wr c (int k) 0) = Inr col'"
    and w1: "wr col' ?j 1 = Inr col''" and w2: "wr fw 0 col'' = Inr fw0"
    unfolding pin_first_column_def Let_def
    by (auto simp: bindE_Inr_iff split: if_splits)
  from zero_fill_loop [OF z] have c': "col' = upd_pref (length ?S) (\<lambda>k. 0) col"
    "length ?S \<le> length col" by simp_all
  from w1 have c'': "col'' = col'[nat ?j := 1]" "0 \<le> ?j" by (simp_all add: wr_Inr_iff)
  have "rd fw0 0 = Inr col''" using rd_wr_same [OF w2] .
  moreover have "start_state \<in> set ?S" using j by (simp add: find_vector_absent)
  moreover have "length ?S \<le> length col''" using c' c'' by simp
  moreover have "col'' ! k = (if int k = ?j then 1 else 0)" if "k < length ?S" for k
    using that c' c'' find_vector_range [OF j]
    by (cases "k = nat ?j") (auto simp: nth_list_update)
  ultimately show ?thesis using blk by blast
qed

lemma cond_sample_absent:
  assumes "rd blocks 0 = Inr blk"
    "start_state \<notin> set (get_coal_states env (block_tree blk) ntimes False)"
  shows "\<exists>e. cond_sample_arg_thread env trees ntimes blocks path0 start_state end_state rng = Inl e"
proof (cases "pin_first_column env trees ntimes blocks start_state")
  case (Inl e)
  then show ?thesis by (simp add: cond_sample_arg_thread_def)
next
  case (Inr fw0)
  from pin_first_column_result [OF this] assms show ?thesis by auto
qed

lemma cond_sample_entry:
  assumes "cond_sample_arg_thread env trees ntimes blocks path0 start_state end_state rng
     = Inr (fw, path, rng')"
  shows "\<exists>s col. rd path 0 = Inr s \<and> rd fw 0 = Inr col \<and> rd col s = Inr 1"
  using assms unfolding cond_sample_arg_thread_def Let_def
  by (auto simp: bindE_Inr_iff split: if_splits)

lemma forE_preserve:
  assumes "forE is s f = Inr s'" "Q s"
    and "\<And>i s t. Q s \<Longrightarrow> f i s = Inr t \<Longrightarrow> Q t"
  shows "Q s'"
  using assms
proof (induction "is" arbitrary: s)
  case Nil
  then show ?case by simp
next
  case (Cons i "is")
  from Cons.prems(1) obtain t where t: "f i s = Inr t" "forE is t f = Inr s'"
    by (cases "f i s") auto
  from Cons.prems(3) [OF Cons.prems(2) t(1)] have "Q t" .
  from Cons.IH [OF t(2) this] Cons.prems(3) show ?case by blast
qed

lemma wr_keeps_first:
  assumes "wr fw i c = Inr fw'" "i \<noteq> 0"
  shows "rd fw' 0 = rd fw 0"
  using assms by (auto simp: wr_Inr_iff rd_def)

lemma forward_block_step_first:
  assumes "forward_block_step states ntimes ages tm tm2 emit eo fo i fw = Inr fw'"
  shows "rd fw' 0 = rd fw 0"
proof -
  from assms obtain col1 c where "rd fw (fo + int i - 1) = Inr col1" "wr fw (fo + int i) c = Inr fw'"
    unfolding forward_block_step_def by (auto simp: bindE_Inr_iff)
  then show ?thesis
    by (intro wr_keeps_first [of fw "fo + int i" c]) (auto simp: rd_Inr_iff)
qed

lemma forward_block_slow_step_first:
  assumes "forward_block_slow_step n tm emit eo fo i fw = Inr fw'"
  shows "rd fw' 0 = rd fw 0"
proof -
  from assms obtain col1 c where "rd fw (fo + int i - 1) = Inr col1" "wr fw (fo + int i) c = Inr fw'"
    unfolding forward_block_slow_step_def by (auto simp: bindE_Inr_iff)
  then show ?thesis
    by (intro wr_keeps_first [of fw "fo + int i" c]) (auto simp: rd_Inr_iff)
qed

lemma copy_first_entry_first:
  assumes "copy_first_entry fo i fw = Inr fw'"
  shows "rd fw' 0 = rd fw 0"
proof -
  from assms obtain col1 c where "rd fw (fo + int i - 1) = Inr col1" "wr fw (fo + int i) c = Inr fw'"
    unfolding copy_first_entry_def by (auto simp: bindE_Inr_iff)
  then show ?thesis
    by (intro wr_keeps_first [of fw "fo + int i" c]) (auto simp: rd_Inr_iff)
qed

lemma forward_block_first:
  assumes "arghmm_forward_block tree ntimes blocklen states matrix emit eo fw fo = Inr fw'"
  shows "rd fw' 0 = rd fw 0"
proof -
  from assms consider
    (a) "forE [1..<nat blocklen] fw (copy_first_entry fo) = Inr fw'"
  | (b) ages tm tm2 where
      "forE [1..<nat blocklen] fw (forward_block_step states ntimes ages tm tm2 emit eo fo) = Inr fw'"
    unfolding arghmm_forward_block_def
    by (auto simp: bindE_Inr_iff split: if_splits)
  then show ?thesis
  proof cases
    case a
    then show ?thesis
      by (rule forE_preserve [where Q = "\<lambda>t. rd t 0 = rd fw 0"])
        (simp_all add: copy_first_entry_first)
  next
    case b
    then show ?thesis
      by (rule forE_preserve [where Q = "\<lambda>t. rd t 0 = rd fw 0"])
        (simp_all add: forward_block_step_first)
  qed
qed

lemma forward_block_slow_first:
  assumes "arghmm_forward_block_slow tree ntimes blocklen states matrix emit eo fw fo = Inr fw'"
  shows "rd fw' 0 = rd fw 0"
  using assms unfolding arghmm_forward_block_slow_def
  by (rule forE_preserve [where Q = "\<lambda>t. rd t 0 = rd fw 0"])
    (simp_all add: forward_block_slow_step_first)

lemma new_block_first:
  assumes "new_block env trees fw start end n = Inr fw'" "start_coord trees < start"
  shows "rd fw' 0 = rd fw 0"
  using assms(1) unfolding new_block_def
proof (rule forE_preserve [where Q = "\<lambda>t. rd t 0 = rd fw 0"])
  fix i s t
  assume q: "rd s 0 = rd fw 0"
    and "(if 0 \<le> start + int i - start_coord trees
          \<and> start + int i - start_coord trees < int (length s)
       then wr s (start + int i - start_coord trees) (replicate (nat (max n 1)) (fresh env))
       else Inl AssertFailed) = Inr t"
  then have "wr s (start + int i - start_coord trees) (replicate (nat (max n 1)) (fresh env)) = Inr t"
    by (simp split: if_splits)
  from wr_keeps_first [OF this] assms(2) q show "rd t 0 = rd fw 0" by simp
qed simp

lemma forward_first_column_first:
  assumes "forward_first_column env trees True intern blk states fw = Inr (fw', fo, eo, bl)"
  shows "rd fw' 0 = rd fw 0"
proof (cases "block_start blk = start_coord trees")
  case True
  with assms show ?thesis by (simp add: forward_first_column_def Let_def)
next
  case False
  show ?thesis
  proof (cases "m_transmat_switch (matrices blk)")
    case None
    with False assms show ?thesis by (simp add: forward_first_column_def Let_def)
  next
    case (Some sw)
    with False assms obtain c where
      "wr fw (block_start blk - start_coord trees) c = Inr fw'"
      by (auto simp: forward_first_column_def Let_def bindE_Inr_iff)
    from wr_keeps_first [OF this] False show ?thesis by simp
  qed
qed

lemma forward_alg_block_first:
  assumes "forward_alg_block env trees ntimes True intern slow b blocks fw = Inr fw'"
  shows "rd fw' 0 = rd fw 0"
proof -
  from assms obtain blk fw1 fw2 fo eo bl where
    nb: "(if block_start blk > start_coord trees \<or> \<not> True
          then new_block env trees fw (block_start blk)
                 (block_start blk + m_blocklen (matrices blk)) (m_nstates2 (matrices blk))
          else Inr fw) = Inr fw1"
    and fc: "forward_first_column env trees True intern blk
               (get_coal_states env (block_tree blk) ntimes intern) fw1 = Inr (fw2, fo, eo, bl)"
    and blk: "(if slow
          then arghmm_forward_block_slow (block_tree blk) ntimes bl
                 (get_coal_states env (block_tree blk) ntimes intern)
                 (m_transmat (matrices blk)) (m_emit (matrices blk)) eo fw2 fo
          else arghmm_forward_block (block_tree blk) ntimes bl
                 (get_coal_states env (block_tree blk) ntimes intern)
                 (m_transmat (matrices blk)) (m_emit (matrices blk)) eo fw2 fo) = Inr fw'"
    unfolding forward_alg_block_def Let_def
    by (auto simp: bindE_Inr_iff)
  have 1: "rd fw1 0 = rd fw 0"
    using nb new_block_first by (auto split: if_splits)
  have 2: "rd fw2 0 = rd fw1 0"
    using fc by (rule forward_first_column_first)
  have 3: "rd fw' 0 = rd fw2 0"
    using blk forward_block_first forward_block_slow_first by (auto split: if_splits)
  from 1 2 3 show ?thesis by simp
qed

lemma forward_alg_first:
  assumes "arghmm_forward_alg env trees ntimes blocks fw True intern slow = Inr fw'"
  shows "rd fw' 0 = rd fw 0"
  using assms unfolding arghmm_forward_alg_def
  by (rule forE_preserve [where Q = "\<lambda>t. rd t 0 = rd fw 0"])
    (simp_all add: forward_alg_block_first)

lemma calc_emissions_step_slow:
  assumes "calc_emissions_step fuel ops tree model seqs seqlen invariant junk states newleaf j
             (t, e, tab, p, n) = Inr (t', e', tab', p', n')"
  shows "calc_emissions_slow_step fuel ops model seqs seqlen invariant junk states newleaf j
             (t, e, tab) = Inr (t', e', tab')"
  using assms unfolding calc_emissions_step_def calc_emissions_slow_step_def Let_def
  by (auto simp: bindE_Inr_iff)

lemma calc_emissions_loop_slow:
  assumes "forE js (t, e, tab, p, n)
             (calc_emissions_step fuel ops tree model seqs seqlen invariant junk states newleaf)
           = Inr (t', e', tab', p', n')"
  shows "forE js (t, e, tab)
             (calc_emissions_slow_step fuel ops model seqs seqlen invariant junk states newleaf)
           = Inr (t', e', tab')"
  using assms
proof (induction js arbitrary: t e tab p n)
  case Nil
  then show ?case by simp
next
  case (Cons j js)
  from Cons.prems obtain st where
    s: "calc_emissions_step fuel ops tree model seqs seqlen invariant junk states newleaf j
          (t, e, tab, p, n) = Inr st"
    and r: "forE js st
          (calc_emissions_step fuel ops tree model seqs seqlen invariant junk states newleaf)
          = Inr (t', e', tab', p', n')"
    by (auto split: sum.splits)
  obtain t1 e1 tab1 p1 n1 where st: "st = (t1, e1, tab1, p1, n1)" by (cases st)
  from calc_emissions_step_slow [OF s [unfolded st]] Cons.IH [OF r [unfolded st]]
  show ?case by simp
qed

lemma fequal_refl: "fequal x x rel eabs"
  by (simp add: fequal_def)

lemma calc_emissions_agree:
  assumes "calc_emissions fuel ops states tree seqs nseqs seqlen model junk emit = Inr e1"
  shows "calc_emissions_slow fuel ops states tree seqs nseqs seqlen model junk emit = Inr e1"
proof -
  from assms obtain invariant t' tab' p' n' where
    i: "find_invariant_sites seqs nseqs seqlen = Inr invariant"
    and l: "forE [0..<length states]
              (copy_tree ops tree (nnodes tree + 2), emit,
               new_likelihood_table seqlen (nnodes tree + 2) junk, -1, -1)
              (calc_emissions_step fuel ops tree model seqs seqlen invariant junk states
                 (get_num_leaves ops tree)) = Inr (t', e1, tab', p', n')"
    unfolding calc_emissions_def by (auto simp: bindE_Inr_iff)
  from calc_emissions_loop_slow [OF l] i show ?thesis
    by (simp add: calc_emissions_slow_def)
qed

lemma set_cell_Inr:
  assumes "set_cell tab i j v = Inr tab'"
  shows "cell tab' i j = Inr v"
    and "\<And>i' j'. i' \<noteq> i \<or> j' \<noteq> j \<Longrightarrow> cell tab' i' j' = cell tab i' j'"
proof -
  from assms obtain row row' where r: "rd tab i = Inr row" and w: "wr row j v = Inr row'"
    and t: "wr tab i row' = Inr tab'"
    unfolding set_cell_def by (auto simp: bindE_Inr_iff)
  from rd_wr_same [OF t] rd_wr_same [OF w] show "cell tab' i j = Inr v"
    by (simp add: cell_def)
  fix i' j' :: int
  assume d: "i' \<noteq> i \<or> j' \<noteq> j"
  show "cell tab' i' j' = cell tab i' j'"
  proof (cases "i' = i")
    case False
    with t have "rd tab' i' = rd tab i'"
      by (auto simp: wr_Inr_iff rd_def)
    then show ?thesis by (simp add: cell_def)
  next
    case True
    with d have "j' \<noteq> j" by simp
    with w have "rd row' j' = rd row j'"
      by (auto simp: wr_Inr_iff rd_def)
    with True r rd_wr_same [OF t] show ?thesis by (simp add: cell_def)
  qed
qed

lemma sites_step_cells:
  assumes "sites_step ops tree seqs statei invariant order norder muts nomuts lk i (emit, table)
           = Inr (emit', table')"
  shows "\<And>i' j'. i' \<noteq> int i \<or> j' \<noteq> statei \<Longrightarrow> cell emit' i' j' = cell emit i' j'"
    and "\<And>ivs. invariant = Some ivs \<Longrightarrow> rd ivs (int i) = Inr True
           \<Longrightarrow> cell emit' (int i) statei = Inr lk"
proof -
  from assms obtain v is_inv where s: "set_cell emit (int i) statei v = Inr emit'"
    and iv: "(case invariant of None \<Rightarrow> Inr False | Some ivs \<Rightarrow> rd ivs (int i)) = Inr is_inv"
    and v: "is_inv \<Longrightarrow> v = lk"
    unfolding sites_step_def
    by (auto simp: bindE_Inr_iff split: if_splits)
  show "\<And>i' j'. i' \<noteq> int i \<or> j' \<noteq> statei \<Longrightarrow> cell emit' i' j' = cell emit i' j'"
    using set_cell_Inr(2) [OF s] by blast
  show "\<And>ivs. invariant = Some ivs \<Longrightarrow> rd ivs (int i) = Inr True
           \<Longrightarrow> cell emit' (int i) statei = Inr lk"
    using set_cell_Inr(1) [OF s] iv v by auto
qed

lemma sites_loop_cells:
  assumes "forE [0..<n] (emit, table)
             (sites_step ops tree seqs statei (Some ivs) order norder muts nomuts lk)
           = Inr (emit', table')"
  shows "\<And>i' j'. j' \<noteq> statei \<Longrightarrow> cell emit' i' j' = cell emit i' j'"
    and "\<And>i. i < n \<Longrightarrow> rd ivs (int i) = Inr True \<Longrightarrow> cell emit' (int i) statei = Inr lk"
proof -
  let ?P = "\<lambda>k st. (\<forall>i' j'. j' \<noteq> statei \<longrightarrow> cell (fst st) i' j' = cell emit i' j')
      \<and> (\<forall>i<k. rd ivs (int i) = Inr True \<longrightarrow> cell (fst st) (int i) statei = Inr lk)"
  have "?P n (emit', table')"
    using assms
  proof (rule forE_upt_inv [where P = ?P])
    show "?P 0 (emit, table)" by simp
  next
    fix k st st'
    assume k: "k < n" and p: "?P k st"
      and s: "sites_step ops tree seqs statei (Some ivs) order norder muts nomuts lk k st = Inr st'"
    obtain e t e' t' where st: "st = (e, t)" "st' = (e', t')" by (cases st, cases st')
    note c = sites_step_cells [OF s [unfolded st]]
    have "cell e' (int i) statei = Inr lk" if "i < Suc k" "rd ivs (int i) = Inr True" for i
    proof (cases "i = k")
      case True
      with c(2) that show ?thesis by simp
    next
      case False
      with that have "i < k" by simp
      with p that st have "cell e (int i) statei = Inr lk" by simp
      with c(1) [of "int i" statei] False show ?thesis by simp
    qed
    moreover have "cell e' i' j' = cell emit i' j'" if "j' \<noteq> statei" for i' j'
      using c(1) [of i' j'] p that st by simp
    ultimately show "?P (Suc k) st'" by (simp add: st)
  qed
  then show "\<And>i' j'. j' \<noteq> statei \<Longrightarrow> cell emit' i' j' = cell emit i' j'"
    and "\<And>i. i < n \<Longrightarrow> rd ivs (int i) = Inr True \<Longrightarrow> cell emit' (int i) statei = Inr lk"
    by simp_all
qed

lemma muts_step_length:
  assumes "muts_step tree model junk i (m, nm, ln0) = Inr (m', nm', ln1)"
  shows "ln1 = ln0 + (if int i \<noteq> root_t tree
                     then (case branch_len tree model (int i) of Inr t \<Rightarrow> t | Inl e \<Rightarrow> 0) else 0)"
  using assms unfolding muts_step_def
  by (auto simp: bindE_Inr_iff split: if_splits)

lemma tree_muts_length:
  assumes "tree_muts tree model junk = Inr (muts, nomuts, treelen)"
  shows "treelen = tree_length tree model"
proof -
  let ?f = "\<lambda>i. case branch_len tree model (int i) of Inr t \<Rightarrow> t | Inl e \<Rightarrow> 0"
  let ?P = "\<lambda>k st. snd (snd st) = sum_list (map ?f (filter (\<lambda>i. int i \<noteq> root_t tree) [0..<k]))"
  have "?P (nat (nnodes tree)) (muts, nomuts, treelen)"
    using assms unfolding tree_muts_def
  proof (rule forE_upt_inv [where P = ?P])
    show "?P 0 ([], [], 0)" by simp
  next
    fix k st st'
    assume p: "?P k st" and s: "muts_step tree model junk k st = Inr st'"
    obtain m nm ln0 m' nm' ln1 where st: "st = (m, nm, ln0)" "st' = (m', nm', ln1)"
      by (cases st, cases st') auto
    from muts_step_length [OF s [unfolded st]] p show "?P (Suc k) st'"
      by (simp add: st)
  qed
  then show ?thesis by (simp add: tree_length_def)
qed

lemma likelihood_sites_invariant:
  assumes "likelihood_sites fuel ops tree model seqs seqlen statei (Some ivs) junk emit table
             prev_node new_node = Inr (emit', table')"
    and "i < nat seqlen" "rd ivs (int i) = Inr True"
  shows "cell emit' (int i) statei = Inr (invariant_lk model (tree_length tree model))"
proof -
  from assms(1) obtain order norder muts nomuts treelen where
    m: "tree_muts tree model junk = Inr (muts, nomuts, treelen)"
    and l: "forE [0..<nat seqlen] (emit, table)
         (sites_step ops tree seqs statei (Some ivs) order norder muts nomuts
            (invariant_lk model treelen)) = Inr (emit', table')"
    unfolding likelihood_sites_def by (auto simp: bindE_Inr_iff)
  from sites_loop_cells(2) [OF l assms(2,3)] tree_muts_length [OF m] show ?thesis by simp
qed

lemma likelihood_sites_frame:
  assumes "likelihood_sites fuel ops tree model seqs seqlen statei (Some ivs) junk emit table
             prev_node new_node = Inr (emit', table')"
    and "j' \<noteq> statei"
  shows "cell emit' i' j' = cell emit i' j'"
proof -
  from assms(1) obtain order norder muts nomuts treelen where
    l: "forE [0..<nat seqlen] (emit, table)
         (sites_step ops tree seqs statei (Some ivs) order norder muts nomuts
            (invariant_lk model treelen)) = Inr (emit', table')"
    unfolding likelihood_sites_def by (auto simp: bindE_Inr_iff)
  from sites_loop_cells(1) [OF l assms(2)] show ?thesis .
qed

lemma mapE_Inr:
  assumes "mapE f xs = Inr ys"
  shows "length ys = length xs" and "\<And>k. k < length xs \<Longrightarrow> f (xs ! k) = Inr (ys ! k)"
proof -
  have "length ys = length xs \<and> (\<forall>k<length xs. f (xs ! k) = Inr (ys ! k))"
    using assms
  proof (induction xs arbitrary: ys)
    case Nil
    then show ?case by simp
  next
    case (Cons x xs)
    from Cons.prems obtain y ys' where y: "f x = Inr y" "mapE f xs = Inr ys'" "ys = y # ys'"
      by (auto split: sum.splits)
    from Cons.IH [OF y(2)] y show ?case
      by (auto simp: nth_Cons split: nat.splits)
  qed
  then show "length ys = length xs" and "\<And>k. k < length xs \<Longrightarrow> f (xs ! k) = Inr (ys ! k)"
    by simp_all
qed

lemma find_invariant_sites_rd:
  assumes "find_invariant_sites seqs nseqs seqlen = Inr ivs" "i < nat seqlen"
  shows "rd ivs (int i) = invariant_site seqs nseqs i"
proof -
  note m = mapE_Inr [OF assms(1) [unfolded find_invariant_sites_def]]
  from m(1) assms(2) have "i < length ivs" by simp
  then have "rd ivs (int i) = Inr (ivs ! i)" by (simp add: rd_def)
  with m(2) [of i] assms(2) show ?thesis by simp
qed

lemma calc_emissions_step_cells:
  assumes "calc_emissions_step fuel ops tree model seqs seqlen ivs junk states newleaf j
             (t, e, tab, p, n) = Inr (t', e', tab', p', n')" "j < length states"
  shows "t' = remove_tree_branch ops (add_tree_branch ops t (node (states ! j)) (time (states ! j)))
               newleaf"
    and "\<And>i' j'. j' \<noteq> int j \<Longrightarrow> cell e' i' j' = cell e i' j'"
    and "\<And>i. i < nat seqlen \<Longrightarrow> rd ivs (int i) = Inr True \<Longrightarrow>
           cell e' (int i) (int j) = Inr (invariant_lk model (tree_length
             (add_tree_branch ops t (node (states ! j)) (time (states ! j))) model))"
proof -
  from assms(2) have r: "rd states (int j) = Inr (states ! j)" by (simp add: rd_def)
  from assms(1) obtain tb where
    l: "likelihood_sites fuel ops (add_tree_branch ops t (node (states ! j)) (time (states ! j)))
          model seqs seqlen (int j) (Some ivs) junk e tab (-1) (-1) = Inr (e', tb)"
    and t: "t' = remove_tree_branch ops
          (add_tree_branch ops t (node (states ! j)) (time (states ! j))) newleaf"
    unfolding calc_emissions_step_def Let_def r
    by (auto simp: bindE_Inr_iff)
  show "t' = remove_tree_branch ops (add_tree_branch ops t (node (states ! j)) (time (states ! j)))
               newleaf" by (rule t)
  show "\<And>i' j'. j' \<noteq> int j \<Longrightarrow> cell e' i' j' = cell e i' j'"
    by (rule likelihood_sites_frame [OF l])
  show "\<And>i. i < nat seqlen \<Longrightarrow> rd ivs (int i) = Inr True \<Longrightarrow>
           cell e' (int i) (int j) = Inr (invariant_lk model (tree_length
             (add_tree_branch ops t (node (states ! j)) (time (states ! j))) model))"
    by (rule likelihood_sites_invariant [OF l])
qed

lemma calc_emissions_invariant:
  assumes c: "calc_emissions fuel ops states tree seqs nseqs seqlen model junk emit = Inr emit'"
    and j: "j < length states" and i: "i < nat seqlen"
    and iv: "invariant_site seqs nseqs i = Inr True"
  shows "cell emit' (int i) (int j)
         = Inr (invariant_lk model (tree_length (augmented_tree ops tree states j) model))"
proof -
  from c obtain ivs t' tab' p' n' where
    f: "find_invariant_sites seqs nseqs seqlen = Inr ivs"
    and l: "forE [0..<length states]
              (copy_tree ops tree (nnodes tree + 2), emit,
               new_likelihood_table seqlen (nnodes tree + 2) junk, -1, -1)
              (calc_emissions_step fuel ops tree model seqs seqlen ivs junk states
                 (get_num_leaves ops tree)) = Inr (t', emit', tab', p', n')"
    unfolding calc_emissions_def by (auto simp: bindE_Inr_iff)
  let ?lk = "\<lambda>j. invariant_lk model (tree_length (augmented_tree ops tree states j) model)"
  let ?P = "\<lambda>k st. k \<le> length states \<longrightarrow> fst st = edited_tree ops tree states k
      \<and> (\<forall>j<k. \<forall>i<nat seqlen. rd ivs (int i) = Inr True
            \<longrightarrow> cell (fst (snd st)) (int i) (int j) = Inr (?lk j))"
  have "?P (length states) (t', emit', tab', p', n')"
    using l
  proof (rule forE_upt_inv [where P = ?P])
    show "?P 0 (copy_tree ops tree (nnodes tree + 2), emit,
               new_likelihood_table seqlen (nnodes tree + 2) junk, -1, -1)" by simp
  next
    fix k st st'
    assume k: "k < length states" and p: "?P k st"
      and s: "calc_emissions_step fuel ops tree model seqs seqlen ivs junk states
                 (get_num_leaves ops tree) k st = Inr st'"
    obtain t e tab p n t1 e1 tab1 p1 n1 where
      st: "st = (t, e, tab, p, n)" "st' = (t1, e1, tab1, p1, n1)"
      by (cases st, cases st') auto
    note cc = calc_emissions_step_cells [OF s [unfolded st] k]
    from p k st have t: "t = edited_tree ops tree states k"
      and old: "\<And>j i. j < k \<Longrightarrow> i < nat seqlen \<Longrightarrow> rd ivs (int i) = Inr True
            \<Longrightarrow> cell e (int i) (int j) = Inr (?lk j)"
      by simp_all
    have "t1 = edited_tree ops tree states (Suc k)"
      using cc(1) t by simp
    moreover have "cell e1 (int i) (int j) = Inr (?lk j)"
      if "j < Suc k" "i < nat seqlen" "rd ivs (int i) = Inr True" for i j
    proof (cases "j = k")
      case True
      with cc(3) [OF that(2,3)] t show ?thesis by (simp add: augmented_tree_def)
    next
      case False
      with that have "j < k" by simp
      from old [OF this that(2,3)] cc(2) [of "int j" "int i"] False show ?thesis by simp
    qed
    ultimately show "?P (Suc k) st'" by (simp add: st)
  qed
  with j i iv find_invariant_sites_rd [OF f i] show ?thesis by simp
qed

lemma internal_site_cells:
  assumes "internal_site ivs inner outer j node1 node2 at_root lk m1 n1 m2 n2 m3 n3 i emit
           = Inr emit'"
  shows "\<And>i' j'. i' \<noteq> int i \<or> j' \<noteq> j \<Longrightarrow> cell emit' i' j' = cell emit i' j'"
    and "rd ivs (int i) = Inr True \<Longrightarrow> cell emit' (int i) j = Inr lk"
proof -
  from assms obtain is_inv where iv: "rd ivs (int i) = Inr is_inv"
    unfolding internal_site_def by (auto simp: bindE_Inr_iff)
  show "rd ivs (int i) = Inr True \<Longrightarrow> cell emit' (int i) j = Inr lk"
    using assms unfolding internal_site_def
    by (auto simp: set_cell_Inr(1))
  fix i' j' :: int
  assume d: "i' \<noteq> int i \<or> j' \<noteq> j"
  show "cell emit' i' j' = cell emit i' j'"
  proof (cases is_inv)
    case True
    with assms iv have "set_cell emit (int i) j lk = Inr emit'"
      unfolding internal_site_def by simp
    from set_cell_Inr(2) [OF this d] show ?thesis .
  next
    case False
    with assms iv obtain inn out emit0 where
      z: "set_cell emit (int i) j 0 = Inr emit0"
      and l: "forE [0..<4] emit0 (\<lambda>a em.
                bindE (rd em (int i)) (\<lambda>row.
                bindE (rd row j) (\<lambda>e.
                bindE (internal_term inn out node1 node2 at_root m1 n1 m2 n2 m3 n3 a e) (\<lambda>e'.
                  set_cell em (int i) j e')))) = Inr emit'"
      unfolding internal_site_def by (auto simp: bindE_Inr_iff)
    have "cell emit' i' j' = cell emit0 i' j'"
      using l
    proof (rule forE_preserve [where Q = "\<lambda>em. cell em i' j' = cell emit0 i' j'"])
      fix a em em'
      assume q: "cell em i' j' = cell emit0 i' j'"
        and "bindE (rd em (int i)) (\<lambda>row.
                bindE (rd row j) (\<lambda>e.
                bindE (internal_term inn out node1 node2 at_root m1 n1 m2 n2 m3 n3 a e) (\<lambda>e'.
                  set_cell em (int i) j e'))) = Inr em'"
      then obtain v where "set_cell em (int i) j v = Inr em'"
        by (auto simp: bindE_Inr_iff)
      from set_cell_Inr(2) [OF this d] q show "cell em' i' j' = cell emit0 i' j'" by simp
    qed simp
    with set_cell_Inr(2) [OF z d] show ?thesis by simp
  qed
qed

lemma internal_state_cells:
  assumes "internal_state tree model states seqlen ivs inner outer sroot mroot mlen slen j emit
           = Inr emit'"
  shows "\<And>i' j'. j' \<noteq> int j \<Longrightarrow> cell emit' i' j' = cell emit i' j'"
    and "\<exists>pr. internal_state_times tree model states sroot mroot j = Inr pr
           \<and> (\<forall>i<nat seqlen. rd ivs (int i) = Inr True
                \<longrightarrow> cell emit' (int i) (int j) = Inr (internal_lk model mlen slen mroot pr))"
proof -
  from assms obtain node2 time1 time2 parent_time coal_time root_time where
    pr: "internal_state_times tree model states sroot mroot j
         = Inr (node2, time1, time2, parent_time, coal_time, root_time)"
    unfolding internal_state_def by (auto simp: bindE_Inr_iff)
  let ?lk = "internal_lk model mlen slen mroot
               (node2, time1, time2, parent_time, coal_time, root_time)"
  from assms pr obtain m1 n1 m2 n2 m3 n3 where
    l: "forE [0..<nat seqlen] emit
          (internal_site ivs inner outer (int j) sroot node2 (node2 = mroot) ?lk
             m1 n1 m2 n2 m3 n3) = Inr emit'"
    unfolding internal_state_def Let_def internal_lk_def by simp
  let ?P = "\<lambda>k em. (\<forall>i' j'. j' \<noteq> int j \<longrightarrow> cell em i' j' = cell emit i' j')
      \<and> (\<forall>i<k. rd ivs (int i) = Inr True \<longrightarrow> cell em (int i) (int j) = Inr ?lk)"
  have p: "?P (nat seqlen) emit'"
    using l
  proof (rule forE_upt_inv [where P = ?P])
    show "?P 0 emit" by simp
  next
    fix k em em'
    assume q: "?P k em"
      and s: "internal_site ivs inner outer (int j) sroot node2 (node2 = mroot) ?lk
                m1 n1 m2 n2 m3 n3 k em = Inr em'"
    note c = internal_site_cells [OF s]
    have "cell em' (int i) (int j) = Inr ?lk" if "i < Suc k" "rd ivs (int i) = Inr True" for i
    proof (cases "i = k")
      case True
      with c(2) that show ?thesis by simp
    next
      case False
      with that have "i < k" by simp
      with q that have "cell em (int i) (int j) = Inr ?lk" by simp
      with c(1) [of "int i" "int j"] False show ?thesis by simp
    qed
    moreover have "cell em' i' j' = cell emit i' j'" if "j' \<noteq> int j" for i' j'
      using c(1) [of i' j'] q that by simp
    ultimately show "?P (Suc k) em'" by simp
  qed
  from p show "\<And>i' j'. j' \<noteq> int j \<Longrightarrow> cell emit' i' j' = cell emit i' j'" by simp
  from p pr show "\<exists>pr. internal_state_times tree model states sroot mroot j = Inr pr
           \<and> (\<forall>i<nat seqlen. rd ivs (int i) = Inr True
                \<longrightarrow> cell emit' (int i) (int j) = Inr (internal_lk model mlen slen mroot pr))"
    by blast
qed

lemma calc_emissions_internal_invariant:
  assumes c: "calc_emissions_internal fuel ops states tree seqs nseqs seqlen model junk emit
              = Inr emit'"
    and j: "j < length states" and i: "i < nat seqlen"
    and iv: "invariant_site seqs nseqs i = Inr True"
  shows "\<exists>mroot sroot mlen slen pr.
           root_child tree 1 = Inr mroot \<and> root_child tree 0 = Inr sroot
         \<and> subtree_len fuel ops tree model mroot = Inr mlen
         \<and> subtree_len fuel ops tree model sroot = Inr slen
         \<and> internal_state_times tree model states sroot mroot j = Inr pr
         \<and> cell emit' (int i) (int j) = Inr (internal_lk model mlen slen mroot pr)"
proof -
  from j have ne: "states \<noteq> []" by auto
  from c ne obtain mroot sroot ivs inner outer mlen slen where
    r: "root_child tree 1 = Inr mroot" "root_child tree 0 = Inr sroot"
    and f: "find_invariant_sites seqs nseqs seqlen = Inr ivs"
    and sl: "subtree_len fuel ops tree model mroot = Inr mlen"
      "subtree_len fuel ops tree model sroot = Inr slen"
    and l: "forE [0..<length states] emit
             (internal_state tree model states seqlen ivs inner outer sroot mroot mlen slen)
            = Inr emit'"
    unfolding calc_emissions_internal_def by (auto simp: bindE_Inr_iff)
  let ?P = "\<lambda>k em. \<forall>j<k. \<exists>pr. internal_state_times tree model states sroot mroot j = Inr pr
      \<and> (\<forall>i<nat seqlen. rd ivs (int i) = Inr True
            \<longrightarrow> cell em (int i) (int j) = Inr (internal_lk model mlen slen mroot pr))"
  have "?P (length states) emit'"
    using l
  proof (rule forE_upt_inv [where P = ?P])
    show "?P 0 emit" by simp
  next
    fix k em em'
    assume q: "?P k em"
      and s: "internal_state tree model states seqlen ivs inner outer sroot mroot mlen slen k em
              = Inr em'"
    note cc = internal_state_cells [OF s]
    show "?P (Suc k) em'"
    proof (intro allI impI)
      fix j assume jk: "j < Suc k"
      show "\<exists>pr. internal_state_times tree model states sroot mroot j = Inr pr
          \<and> (\<forall>i<nat seqlen. rd ivs (int i) = Inr True
                \<longrightarrow> cell em' (int i) (int j) = Inr (internal_lk model mlen slen mroot pr))"
      proof (cases "j = k")
        case True
        with cc(2) show ?thesis by simp
      next
        case False
        with jk have "j < k" by simp
        with q obtain pr where "internal_state_times tree model states sroot mroot j = Inr pr"
          "\<forall>i<nat seqlen. rd ivs (int i) = Inr True
                \<longrightarrow> cell em (int i) (int j) = Inr (internal_lk model mlen slen mroot pr)"
          by blast
        with cc(1) [of "int j"] False show ?thesis by auto
      qed
    qed
  qed
  with j obtain pr where pr: "internal_state_times tree model states sroot mroot j = Inr pr"
    and a: "\<forall>i<nat seqlen. rd ivs (int i) = Inr True
       \<longrightarrow> cell emit' (int i) (int j) = Inr (internal_lk model mlen slen mroot pr)"
    by blast
  from a i iv find_invariant_sites_rd [OF f i]
  have "cell emit' (int i) (int j) = Inr (internal_lk model mlen slen mroot pr)" by simp
  with r sl pr show ?thesis by blast
qed

section \<open>The factored step computes the sums of the full-matrix step\<close>



lemma rd_nat: "0 \<le> i \<Longrightarrow> nat i < length xs \<Longrightarrow> rd xs i = Inr (xs ! nat i)"
  by (simp add: rd_def)

















lemma forE_agree:
  assumes "P s"
    and "\<And>i s. i \<in> set is \<Longrightarrow> P s \<Longrightarrow> \<exists>t. f i s = Inr t \<and> g i s = Inr t \<and> P t"
  shows "\<exists>t. forE is s f = Inr t \<and> forE is s g = Inr t \<and> P t"
  using assms
proof (induction "is" arbitrary: s)
  case Nil
  then show ?case by simp
next
  case (Cons i "is")
  from Cons.prems(2) [of i s] Cons.prems(1)
  obtain t where t: "f i s = Inr t" "g i s = Inr t" "P t" by auto
  from Cons.IH [OF t(3)] Cons.prems(2)
  have "\<exists>u. forE is t f = Inr u \<and> forE is t g = Inr u \<and> P u" by simp
  with t show ?case by simp
qed













section \<open>The internal emissions are computed: enough fuel gives the table\<close>

lemma rd_two:
  assumes "2 \<le> length xs"
  shows "rd xs 0 = Inr (xs ! 0)" "rd xs 1 = Inr (xs ! 1)"
proof -
  from assms have "0 < length xs" "1 < length xs" by linarith+
  then show "rd xs 0 = Inr (xs ! 0)" "rd xs 1 = Inr (xs ! 1)"
    by (simp_all add: rd_def)
qed

lemma shape_nodes_nonempty: "shape_nodes sh \<noteq> []"
  by (cases sh) simp_all

lemma shape_root_hd: "hd (shape_nodes sh) = shape_root sh"
  by (cases sh) simp_all

lemma shape_ok_root:
  assumes "shape_ok ops tree sh"
  shows "0 \<le> shape_root sh" "shape_root sh < nnodes tree"
  using assms by (cases sh; simp)+

text \<open>The sum that a traversal adds for the shapes that are still on its stack.\<close>

lemma preorder_len_shapes:
  assumes "list_all (shape_ok ops tree) ss"
    and "length (concat (map shape_nodes ss)) \<le> fuel"
    and "int (length (concat (map shape_nodes ss))) \<le> nnodes tree"
    and "nat (nnodes tree) \<le> length (nodes tree)"
  shows "preorder_len fuel ops tree model r (map shape_root ss) len
         = Inr (len + sum_list (map (floored_dist ops tree model)
                  (filter (\<lambda>v. v \<noteq> r) (concat (map shape_nodes ss)))))"
  using assms
proof (induction fuel arbitrary: ss len)
  case 0
  then have "ss = []"
    by (cases ss) (simp_all add: shape_nodes_nonempty)
  then show ?case by simp
next
  case (Suc fuel)
  show ?case
  proof (cases ss rule: rev_cases)
    case Nil
    then show ?thesis by simp
  next
    case (snoc ss' s)
    from Suc.prems(1) snoc have oks: "list_all (shape_ok ops tree) ss'" and ok: "shape_ok ops tree s"
      by simp_all
    from shape_ok_root [OF ok] Suc.prems(4)
    have rt: "rd (nodes tree) (shape_root s) = Inr (nodes tree ! nat (shape_root s))"
      by (simp add: rd_def)
    have st: "map shape_root ss \<noteq> []" "last (map shape_root ss) = shape_root s"
      "butlast (map shape_root ss) = map shape_root ss'"
      using snoc by simp_all
    show ?thesis
    proof (cases s)
      case (Tip v)
      with ok have lf: "is_leaf ops (nodes tree ! nat v)" by simp
      have "preorder_len fuel ops tree model r (map shape_root ss')
              (if v \<noteq> r then len + floored_dist ops tree model v else len)
            = Inr ((if v \<noteq> r then len + floored_dist ops tree model v else len)
                + sum_list (map (floored_dist ops tree model)
                    (filter (\<lambda>v. v \<noteq> r) (concat (map shape_nodes ss')))))"
        using Suc.prems snoc Tip by (intro Suc.IH oks) simp_all
      moreover have "preorder_len (Suc fuel) ops tree model r (map shape_root ss) len
          = preorder_len fuel ops tree model r (map shape_root ss')
              (if v \<noteq> r then len + floored_dist ops tree model v else len)"
        using st rt lf Tip
        by (simp add: Let_def floored_dist_def)
      ultimately show ?thesis using snoc Tip by simp
    next
      case (Bin v l r')
      with ok have nl: "\<not> is_leaf ops (nodes tree ! nat v)"
        and ch: "2 \<le> length (child (nodes tree ! nat v))"
          "child (nodes tree ! nat v) ! 0 = shape_root l"
          "child (nodes tree ! nat v) ! 1 = shape_root r'"
        and okl: "shape_ok ops tree l" and okr: "shape_ok ops tree r'" by simp_all
      have len_ss': "length ss' \<le> length (concat (map shape_nodes ss'))"
      proof (induction ss')
        case Nil then show ?case by simp
      next
        case (Cons a as)
        with shape_nodes_nonempty [of a] show ?case
          by (cases "shape_nodes a") simp_all
      qed
      have "1 \<le> length (shape_nodes l)" "1 \<le> length (shape_nodes r')"
        using shape_nodes_nonempty [of l] shape_nodes_nonempty [of r']
        by (simp_all add: Suc_le_eq)
      with len_ss' Suc.prems(3) snoc Bin
      have bound: "int (length (map shape_root ss')) + 2 \<le> nnodes tree" by simp
      from rd_two [OF ch(1)] ch(2,3)
      have "rd (child (nodes tree ! nat v)) 0 = Inr (shape_root l)"
        "rd (child (nodes tree ! nat v)) 1 = Inr (shape_root r')"
        by simp_all
      with bound have push: "push_children tree (nodes tree ! nat v) (map shape_root ss')
          = Inr (map shape_root (ss' @ [l, r']))"
        by (simp add: push_children_def)
      have ih: "preorder_len fuel ops tree model r (map shape_root (ss' @ [l, r']))
              (if v \<noteq> r then len + floored_dist ops tree model v else len)
            = Inr ((if v \<noteq> r then len + floored_dist ops tree model v else len)
                + sum_list (map (floored_dist ops tree model)
                    (filter (\<lambda>v. v \<noteq> r) (concat (map shape_nodes (ss' @ [l, r']))))))"
        using Suc.prems snoc Bin okl okr by (intro Suc.IH) (simp_all add: oks)
      have "preorder_len (Suc fuel) ops tree model r (map shape_root ss) len
          = preorder_len fuel ops tree model r (map shape_root (ss' @ [l, r']))
              (if v \<noteq> r then len + floored_dist ops tree model v else len)"
        using st rt nl push Bin
        by (simp add: Let_def floored_dist_def)
      with ih show ?thesis using snoc Bin by simp
    qed
  qed
qed

lemma subtree_len_result:
  assumes "shape_ok ops tree sh" "length (shape_nodes sh) \<le> fuel"
    "int (length (shape_nodes sh)) \<le> nnodes tree" "nat (nnodes tree) \<le> length (nodes tree)"
  shows "subtree_len fuel ops tree model (shape_root sh) = Inr (shape_length ops tree model sh)"
proof -
  from assms(3) shape_nodes_nonempty [of sh] have "1 \<le> nnodes tree"
    by (cases "shape_nodes sh") simp_all
  moreover have "preorder_len fuel ops tree model (shape_root sh) (map shape_root [sh]) 0
      = Inr (0 + sum_list (map (floored_dist ops tree model)
                  (filter (\<lambda>v. v \<noteq> shape_root sh) (concat (map shape_nodes [sh])))))"
    using assms by (intro preorder_len_shapes) simp_all
  ultimately show ?thesis
    by (simp add: subtree_len_def shape_length_def)
qed

lemma forE_total:
  assumes "P s"
    and "\<And>i s. i \<in> set is \<Longrightarrow> P s \<Longrightarrow> \<exists>t. f i s = Inr t \<and> P t"
  shows "\<exists>t. forE is s f = Inr t \<and> P t"
  using assms
proof (induction "is" arbitrary: s)
  case Nil
  then show ?case by simp
next
  case (Cons i "is")
  from Cons.prems(2) [of i s] Cons.prems(1)
  obtain t where t: "f i s = Inr t" "P t" by auto
  have "\<exists>u. forE is t f = Inr u \<and> P u"
  proof (rule Cons.IH [OF t(2)])
    fix j s' assume "j \<in> set is" "P s'"
    then show "\<exists>t. f j s' = Inr t \<and> P t" by (intro Cons.prems(2)) simp_all
  qed
  with t(1) show ?case by simp
qed

lemma tab_okD:
  assumes "tab_ok n tab" "r < n"
  shows "r < length tab" "4 \<le> length (tab ! r)"
proof -
  from assms show "r < length tab" by (simp add: tab_ok_def)
  from assms have "list_all (\<lambda>row. 4 \<le> length row) (take n tab)" "r < length (take n tab)"
    by (simp_all add: tab_ok_def)
  then have "4 \<le> length (take n tab ! r)" by (simp only: list_all_length)
  with assms(2) show "4 \<le> length (tab ! r)" by simp
qed

lemma tab_okI:
  assumes "n \<le> length tab" "\<And>r. r < n \<Longrightarrow> 4 \<le> length (tab ! r)"
  shows "tab_ok n tab"
  using assms by (simp add: tab_ok_def list_all_length)

lemma tab_ok_update:
  assumes "tab_ok n tab" "length row = length (tab ! j)"
  shows "tab_ok n (tab[j := row])"
proof (rule tab_okI)
  from assms(1) show "n \<le> length (tab[j := row])" by (simp add: tab_ok_def)
  fix r assume r: "r < n"
  from tab_okD [OF assms(1) r] assms(2) show "4 \<le> length (tab[j := row] ! r)"
    by (cases "r = j") simp_all
qed

lemma set_cell_total:
  assumes ok: "tab_ok n tab" and j: "0 \<le> j" "j < int n" and a: "0 \<le> a" "a < 4"
  shows "\<exists>tab'. set_cell tab j a v = Inr tab' \<and> tab_ok n tab'"
proof -
  from j have jn: "nat j < n" by linarith
  note d = tab_okD [OF ok jn]
  from d(1) j have r: "rd tab j = Inr (tab ! nat j)" by (simp add: rd_def)
  from d(2) a have w: "wr (tab ! nat j) a v = Inr ((tab ! nat j)[nat a := v])"
    by (simp add: wr_def)
  from d(1) j have w2: "wr tab j ((tab ! nat j)[nat a := v])
      = Inr (tab[nat j := (tab ! nat j)[nat a := v]])"
    by (simp add: wr_def)
  have "tab_ok n (tab[nat j := (tab ! nat j)[nat a := v]])"
    by (rule tab_ok_update [OF ok]) simp
  then show ?thesis
    by (simp add: set_cell_def r w w2)
qed

lemma set_cells_total:
  assumes ok: "tab_ok n tab" and j: "0 \<le> j" "j < int n"
  shows "\<exists>tab'. forE [0..<4] tab (\<lambda>a tab. set_cell tab j (int a) v) = Inr tab' \<and> tab_ok n tab'"
  by (rule forE_total [where P = "tab_ok n", OF ok]) (rule set_cell_total [OF _ j], simp_all)

lemma sum_loop_total:
  assumes "\<And>i s. i \<in> set is \<Longrightarrow> \<exists>t. f i (s::real) = Inr t"
  shows "\<exists>t. forE is s f = Inr (t::real)"
proof -
  have "\<exists>t. forE is s f = Inr t \<and> True"
    by (rule forE_total [where P = "\<lambda>_. True"]) (simp_all add: assms)
  then show ?thesis by simp
qed

lemma branch_sum_total:
  assumes "4 \<le> length row"
  shows "\<exists>p. branch_sum row a m nm = Inr p"
  unfolding branch_sum_def
proof (rule sum_loop_total)
  fix b and s :: real assume "b \<in> set [0..<4]"
  with assms have "b < length row" by simp
  then show "\<exists>t. bindE (rd row (int b)) (\<lambda>x. Inr (s + x * (if a = b then nm else m))) = Inr t"
    by (simp add: rd_ok)
qed

lemma branch_term_total:
  assumes ok: "tab_ok n tab" and c: "0 \<le> c" "c < int n"
    and len: "n \<le> length muts" "n \<le> length nomuts"
  shows "\<exists>p. branch_term tab muts nomuts c a = Inr p"
proof -
  from c have cn: "nat c < n" by linarith
  note d = tab_okD [OF ok cn]
  from d(1) c have r: "rd tab c = Inr (tab ! nat c)" by (simp add: rd_def)
  from cn len c have m: "rd muts c = Inr (muts ! nat c)" "rd nomuts c = Inr (nomuts ! nat c)"
    by (simp_all add: rd_def)
  from branch_sum_total [OF d(2)] show ?thesis
    by (simp add: branch_term_def r m)
qed

lemma inner_cell_total:
  assumes ok: "tab_ok n tab" and j: "0 \<le> j" "j < int n"
    and c1: "0 \<le> c1" "c1 < int n" and c2: "0 \<le> c2" "c2 < int n"
    and len: "n \<le> length muts" "n \<le> length nomuts" and a: "a < 4"
  shows "\<exists>tab'. inner_cell muts nomuts j c1 c2 a tab = Inr tab' \<and> tab_ok n tab'"
proof -
  from branch_term_total [OF ok c1 len] obtain p1
    where p1: "branch_term tab muts nomuts c1 a = Inr p1" by blast
  from branch_term_total [OF ok c2 len] obtain p2
    where p2: "branch_term tab muts nomuts c2 a = Inr p2" by blast
  from a have "0 \<le> int a" "int a < 4" by simp_all
  from set_cell_total [OF ok j this] show ?thesis
    by (simp add: inner_cell_def p1 p2)
qed

lemma node_okD:
  assumes "node_ok ops tree seqs seqlen j"
  shows "0 \<le> j" "j < nnodes tree"
    "is_leaf ops (nodes tree ! nat j) \<Longrightarrow> j < int (length seqs)"
    "is_leaf ops (nodes tree ! nat j) \<Longrightarrow> nat seqlen \<le> length (seqs ! nat j)"
    "is_leaf ops (nodes tree ! nat j) \<Longrightarrow> pos < nat seqlen \<Longrightarrow> base_ok ops (seqs ! nat j ! pos)"
    "\<not> is_leaf ops (nodes tree ! nat j) \<Longrightarrow> 2 \<le> length (child (nodes tree ! nat j))"
    "\<not> is_leaf ops (nodes tree ! nat j) \<Longrightarrow> 0 \<le> child (nodes tree ! nat j) ! 0"
    "\<not> is_leaf ops (nodes tree ! nat j) \<Longrightarrow> child (nodes tree ! nat j) ! 0 < nnodes tree"
    "\<not> is_leaf ops (nodes tree ! nat j) \<Longrightarrow> 0 \<le> child (nodes tree ! nat j) ! 1"
    "\<not> is_leaf ops (nodes tree ! nat j) \<Longrightarrow> child (nodes tree ! nat j) ! 1 < nnodes tree"
proof -
  from assms show "0 \<le> j" "j < nnodes tree" by (simp_all add: node_ok_def)
  {
    assume lf: "is_leaf ops (nodes tree ! nat j)"
    with assms show "j < int (length seqs)" "nat seqlen \<le> length (seqs ! nat j)"
      by (simp_all add: node_ok_def)
    assume pos: "pos < nat seqlen"
    from assms lf have l: "nat seqlen \<le> length (seqs ! nat j)"
      "list_all (base_ok ops) (take (nat seqlen) (seqs ! nat j))"
      by (simp_all add: node_ok_def)
    from l pos have "pos < length (take (nat seqlen) (seqs ! nat j))" by simp
    with l(2) have "base_ok ops (take (nat seqlen) (seqs ! nat j) ! pos)"
      by (simp only: list_all_length)
    with pos show "base_ok ops (seqs ! nat j ! pos)" by simp
  }
  {
    assume "\<not> is_leaf ops (nodes tree ! nat j)"
    with assms show "2 \<le> length (child (nodes tree ! nat j))"
      "0 \<le> child (nodes tree ! nat j) ! 0" "child (nodes tree ! nat j) ! 0 < nnodes tree"
      "0 \<le> child (nodes tree ! nat j) ! 1" "child (nodes tree ! nat j) ! 1 < nnodes tree"
      by (simp_all add: node_ok_def)
  }
qed

lemma node_inner_total:
  assumes nk: "node_ok ops tree seqs seqlen j" and pos: "pos < nat seqlen"
    and ok: "tab_ok (nat (nnodes tree)) inner"
    and nn: "nat (nnodes tree) \<le> length (nodes tree)"
    and len: "nat (nnodes tree) \<le> length muts" "nat (nnodes tree) \<le> length nomuts"
  shows "\<exists>tab'. likelihood_site_node_inner ops tree j seqs (int pos) muts nomuts inner = Inr tab'
           \<and> tab_ok (nat (nnodes tree)) tab'"
proof -
  let ?n = "nat (nnodes tree)"
  note d = node_okD [OF nk]
  from d(1,2) have j: "0 \<le> j" "j < int ?n" by linarith+
  from j nn have "nat j < length (nodes tree)" by linarith
  with j have r: "rd (nodes tree) j = Inr (nodes tree ! nat j)" by (simp add: rd_nat)
  show ?thesis
  proof (cases "is_leaf ops (nodes tree ! nat j)")
    case True
    from d(3) [OF True] d(1) have rs: "rd seqs j = Inr (seqs ! nat j)" by (simp add: rd_def)
    from d(4) [OF True] pos have rc: "rd (seqs ! nat j) (int pos) = Inr (seqs ! nat j ! pos)"
      by (simp add: rd_ok)
    let ?c = "seqs ! nat j ! pos"
    show ?thesis
    proof (cases "?c = CHR ''N'' \<or> ?c = CHR ''n''")
      case c: True
      from set_cells_total [OF ok j] c True show ?thesis
        by (simp add: likelihood_site_node_inner_def r rs rc)
    next
      case c: False
      from set_cells_total [OF ok j, of 0] obtain tab0
        where t0: "forE [0..<4] inner (\<lambda>a tab. set_cell tab j (int a) 0) = Inr tab0"
          "tab_ok ?n tab0" by blast
      from d(5) [OF True pos] c have "0 \<le> dna2int ops ?c" "dna2int ops ?c < 4"
        by (simp_all add: base_ok_def)
      from set_cell_total [OF t0(2) j this] c True t0(1) show ?thesis
        by (simp add: likelihood_site_node_inner_def r rs rc)
    qed
  next
    case False
    note ch = d(6-10) [OF False]
    note rch = rd_two [OF ch(1)]
    from ch(2-5) have c1: "0 \<le> child (nodes tree ! nat j) ! 0"
      "child (nodes tree ! nat j) ! 0 < int ?n"
      and c2: "0 \<le> child (nodes tree ! nat j) ! 1" "child (nodes tree ! nat j) ! 1 < int ?n"
      by linarith+
    have "\<exists>tab'. forE [0..<4] inner
        (inner_cell muts nomuts j (child (nodes tree ! nat j) ! 0)
           (child (nodes tree ! nat j) ! 1)) = Inr tab' \<and> tab_ok ?n tab'"
      by (rule forE_total [where P = "tab_ok ?n", OF ok])
        (rule inner_cell_total [OF _ j c1 c2 len], simp_all)
    with False show ?thesis
      by (simp add: likelihood_site_node_inner_def r rch)
  qed
qed

lemma forE_upt_total:
  assumes "P 0 s"
    and "\<And>i s. i < n \<Longrightarrow> P i s \<Longrightarrow> \<exists>t. f i s = Inr t \<and> P (Suc i) t"
  shows "\<exists>t. forE [0..<n] s f = Inr t \<and> P n t"
  using assms(2)
proof (induction n)
  case 0
  with assms(1) show ?case by simp
next
  case (Suc n)
  have "\<exists>t. forE [0..<n] s f = Inr t \<and> P n t"
  proof (rule Suc.IH)
    fix i s' assume "i < n" "P i s'"
    then show "\<exists>t. f i s' = Inr t \<and> P (Suc i) t" by (intro Suc.prems) simp_all
  qed
  then obtain t where t: "forE [0..<n] s f = Inr t" "P n t" by blast
  from Suc.prems [of n t] t(2) obtain u where u: "f n t = Inr u" "P (Suc n) u" by auto
  have "forE [0..<Suc n] s f = Inr u"
    unfolding forE_upt_Suc by (simp add: t(1) u(1))
  with u(2) show ?case by blast
qed

lemma site_inner_total:
  assumes order: "nat (nnodes tree) \<le> length order"
      "list_all (node_ok ops tree seqs seqlen) (take (nat (nnodes tree)) order)"
    and pos: "pos < nat seqlen"
    and ok: "tab_ok (nat (nnodes tree)) inner"
    and nn: "nat (nnodes tree) \<le> length (nodes tree)"
    and root: "0 \<le> root_t tree" "root_t tree < nnodes tree"
    and len: "nat (nnodes tree) \<le> length muts" "nat (nnodes tree) \<le> length nomuts"
  shows "\<exists>p tab'. likelihood_site_inner ops tree seqs (int pos) order (nnodes tree) muts nomuts
             inner = Inr (p, tab') \<and> tab_ok (nat (nnodes tree)) tab'"
proof -
  let ?n = "nat (nnodes tree)"
  have "\<exists>tab'. forE [0..<?n] inner (\<lambda>i tab.
          bindE (rd order (int i)) (\<lambda>j.
            likelihood_site_node_inner ops tree j seqs (int pos) muts nomuts tab)) = Inr tab'
        \<and> tab_ok ?n tab'"
  proof (rule forE_total [where P = "tab_ok ?n", OF ok])
    fix i tab assume i: "i \<in> set [0..<?n]" and t: "tab_ok ?n tab"
    from i have i: "i < ?n" by simp
    with order(1) have r: "rd order (int i) = Inr (order ! i)" by (simp add: rd_ok)
    from i order have "i < length (take ?n order)" by simp
    with order(2) have "node_ok ops tree seqs seqlen (take ?n order ! i)"
      by (simp only: list_all_length)
    with i have nk: "node_ok ops tree seqs seqlen (order ! i)" by simp
    from node_inner_total [OF nk pos t nn len]
    show "\<exists>t. bindE (rd order (int i)) (\<lambda>j.
            likelihood_site_node_inner ops tree j seqs (int pos) muts nomuts tab) = Inr t
        \<and> tab_ok ?n t"
      by (simp add: r)
  qed
  then obtain tab' where t: "forE [0..<?n] inner (\<lambda>i tab.
          bindE (rd order (int i)) (\<lambda>j.
            likelihood_site_node_inner ops tree j seqs (int pos) muts nomuts tab)) = Inr tab'"
      "tab_ok ?n tab'" by blast
  from root have rn: "nat (root_t tree) < ?n" by linarith
  note d = tab_okD [OF t(2) rn]
  from d(1) root have r: "rd tab' (root_t tree) = Inr (tab' ! nat (root_t tree))"
    by (simp add: rd_nat)
  have "\<exists>p. forE [0..<4] 0 (\<lambda>a p. bindE (rd (tab' ! nat (root_t tree)) (int a))
                (\<lambda>x. Inr (p + x * 0.25))) = Inr p"
  proof (rule sum_loop_total)
    fix a and s :: real assume "a \<in> set [0..<4]"
    with d(2) have "a < length (tab' ! nat (root_t tree))" by simp
    then show "\<exists>t. bindE (rd (tab' ! nat (root_t tree)) (int a)) (\<lambda>x. Inr (s + x * 0.25)) = Inr t"
      by (simp add: rd_ok)
  qed
  then obtain p where "forE [0..<4] 0 (\<lambda>a p. bindE (rd (tab' ! nat (root_t tree)) (int a))
                (\<lambda>x. Inr (p + x * 0.25))) = Inr p" by blast
  with t r show ?thesis
    by (simp add: likelihood_site_inner_def)
qed

lemma outer_cell_total:
  assumes inn: "tab_ok n inner" and ok: "tab_ok n tab" and j: "0 \<le> j" "j < int n"
    and sib: "0 \<le> sib" "sib < int n" and par: "0 \<le> par" "par < int n"
    and len: "n \<le> length muts" "n \<le> length nomuts" and a: "a < 4"
  shows "\<exists>tab'. outer_cell muts nomuts inner j sib par a tab = Inr tab' \<and> tab_ok n tab'"
    and "\<exists>tab'. outer_cell_top muts nomuts inner j sib a tab = Inr tab' \<and> tab_ok n tab'"
proof -
  from branch_term_total [OF inn sib len] obtain p1
    where p1: "branch_term inner muts nomuts sib a = Inr p1" by blast
  from branch_term_total [OF ok par len] obtain p2
    where p2: "branch_term tab muts nomuts par a = Inr p2" by blast
  from a have a': "0 \<le> int a" "int a < 4" by simp_all
  from set_cell_total [OF ok j a']
  show "\<exists>tab'. outer_cell muts nomuts inner j sib par a tab = Inr tab' \<and> tab_ok n tab'"
    by (simp add: outer_cell_def p1 p2)
  from set_cell_total [OF ok j a']
  show "\<exists>tab'. outer_cell_top muts nomuts inner j sib a tab = Inr tab' \<and> tab_ok n tab'"
    by (simp add: outer_cell_top_def p1)
qed

lemma node_outer_total:
  assumes inn: "tab_ok (nat (nnodes tree)) inner" and ok: "tab_ok (nat (nnodes tree)) outer"
    and j: "0 \<le> j" "j < nnodes tree" and ook: "outer_ok ops tree mroot j"
    and nn: "nat (nnodes tree) \<le> length (nodes tree)"
    and len: "nat (nnodes tree) \<le> length muts" "nat (nnodes tree) \<le> length nomuts"
  shows "\<exists>tab'. likelihood_site_node_outer ops tree mroot j muts nomuts outer inner = Inr tab'
           \<and> tab_ok (nat (nnodes tree)) tab'"
proof (cases "j = mroot")
  case True
  from j have "0 \<le> j" "j < int (nat (nnodes tree))" by linarith+
  from set_cells_total [OF ok this] True show ?thesis
    by (simp add: likelihood_site_node_outer_def)
next
  case False
  let ?n = "nat (nnodes tree)"
  from j have jn: "0 \<le> j" "j < int ?n" by linarith+
  from ook False have sib: "0 \<le> get_sibling ops tree j" "get_sibling ops tree j < int ?n"
    and par: "0 \<le> parent (nodes tree ! nat j)" "parent (nodes tree ! nat j) < int ?n"
    by (simp_all add: outer_ok_def)
  from jn nn have "nat j < length (nodes tree)" by linarith
  with jn have r: "rd (nodes tree) j = Inr (nodes tree ! nat j)" by (simp add: rd_nat)
  have a: "\<exists>tab'. forE [0..<4] outer
      (outer_cell muts nomuts inner j (get_sibling ops tree j) (parent (nodes tree ! nat j)))
        = Inr tab' \<and> tab_ok ?n tab'"
    by (rule forE_total [where P = "tab_ok ?n", OF ok])
      (rule outer_cell_total(1) [OF inn _ jn sib par len], simp_all)
  have b: "\<exists>tab'. forE [0..<4] outer
      (outer_cell_top muts nomuts inner j (get_sibling ops tree j)) = Inr tab' \<and> tab_ok ?n tab'"
    by (rule forE_total [where P = "tab_ok ?n", OF ok])
      (rule outer_cell_total(2) [OF inn _ jn sib par len], simp_all)
  from a b False show ?thesis
    by (simp add: likelihood_site_node_outer_def Let_def r)
qed

lemma outer_loop_total:
  assumes "list_all (shape_ok ops tree) ss"
    and "list_all (outer_ok ops tree mroot) (concat (map shape_nodes ss))"
    and "length (concat (map shape_nodes ss)) \<le> fuel"
    and "int (length (concat (map shape_nodes ss))) \<le> nnodes tree"
    and nn: "nat (nnodes tree) \<le> length (nodes tree)"
    and inn: "tab_ok (nat (nnodes tree)) inner"
    and "tab_ok (nat (nnodes tree)) outer"
    and len: "nat (nnodes tree) \<le> length muts" "nat (nnodes tree) \<le> length nomuts"
  shows "\<exists>outer'. likelihood_site_outer_loop fuel ops tree mroot muts nomuts inner
             (map shape_root ss) outer = Inr outer' \<and> tab_ok (nat (nnodes tree)) outer'"
  using assms(1-4,7)
proof (induction fuel arbitrary: ss outer)
  case 0
  then have "ss = []"
    by (cases ss) (simp_all add: shape_nodes_nonempty)
  with 0 show ?case by simp
next
  case (Suc fuel)
  show ?case
  proof (cases ss rule: rev_cases)
    case Nil
    with Suc.prems show ?thesis by simp
  next
    case (snoc ss' s)
    from Suc.prems(1) snoc have oks: "list_all (shape_ok ops tree) ss'" and ok: "shape_ok ops tree s"
      by simp_all
    from Suc.prems(2) snoc have ooks: "list_all (outer_ok ops tree mroot) (concat (map shape_nodes ss'))"
      and ook: "list_all (outer_ok ops tree mroot) (shape_nodes s)" by simp_all
    from ook have ookr: "outer_ok ops tree mroot (shape_root s)" by (cases s) simp_all
    note rt = shape_ok_root [OF ok]
    from rt nn have "nat (shape_root s) < length (nodes tree)" by linarith
    with rt have r: "rd (nodes tree) (shape_root s) = Inr (nodes tree ! nat (shape_root s))"
      by (simp add: rd_nat)
    from node_outer_total [OF inn Suc.prems(5) rt ookr nn len] obtain outer1
      where o1: "likelihood_site_node_outer ops tree mroot (shape_root s) muts nomuts outer inner
                 = Inr outer1" "tab_ok (nat (nnodes tree)) outer1" by blast
    have st: "map shape_root ss \<noteq> []" "last (map shape_root ss) = shape_root s"
      "butlast (map shape_root ss) = map shape_root ss'"
      using snoc by simp_all
    show ?thesis
    proof (cases s)
      case (Tip v)
      with ok have lf: "is_leaf ops (nodes tree ! nat v)" by simp
      have "\<exists>outer'. likelihood_site_outer_loop fuel ops tree mroot muts nomuts inner
             (map shape_root ss') outer1 = Inr outer' \<and> tab_ok (nat (nnodes tree)) outer'"
        using Suc.prems(3,4) snoc Tip by (intro Suc.IH oks ooks o1(2)) simp_all
      moreover have "likelihood_site_outer_loop (Suc fuel) ops tree mroot muts nomuts inner
             (map shape_root ss) outer
          = likelihood_site_outer_loop fuel ops tree mroot muts nomuts inner
             (map shape_root ss') outer1"
        using st r lf Tip o1(1) by simp
      ultimately show ?thesis by simp
    next
      case (Bin v l r')
      with ok have nl: "\<not> is_leaf ops (nodes tree ! nat v)"
        and ch: "2 \<le> length (child (nodes tree ! nat v))"
          "child (nodes tree ! nat v) ! 0 = shape_root l"
          "child (nodes tree ! nat v) ! 1 = shape_root r'"
        and okl: "shape_ok ops tree l" and okr: "shape_ok ops tree r'" by simp_all
      have len_ss': "length ss' \<le> length (concat (map shape_nodes ss'))"
      proof (induction ss')
        case Nil then show ?case by simp
      next
        case (Cons a as)
        with shape_nodes_nonempty [of a] show ?case
          by (cases "shape_nodes a") simp_all
      qed
      have "1 \<le> length (shape_nodes l)" "1 \<le> length (shape_nodes r')"
        using shape_nodes_nonempty [of l] shape_nodes_nonempty [of r']
        by (simp_all add: Suc_le_eq)
      with len_ss' Suc.prems(4) snoc Bin
      have bound: "int (length (map shape_root ss')) + 2 \<le> nnodes tree" by simp
      from rd_two [OF ch(1)] ch(2,3)
      have "rd (child (nodes tree ! nat v)) 0 = Inr (shape_root l)"
        "rd (child (nodes tree ! nat v)) 1 = Inr (shape_root r')"
        by simp_all
      with bound have push: "push_children tree (nodes tree ! nat v) (map shape_root ss')
          = Inr (map shape_root (ss' @ [l, r']))"
        by (simp add: push_children_def)
      from ook Bin have ookl: "list_all (outer_ok ops tree mroot) (shape_nodes l)"
        and ookr': "list_all (outer_ok ops tree mroot) (shape_nodes r')" by simp_all
      have "\<exists>outer'. likelihood_site_outer_loop fuel ops tree mroot muts nomuts inner
             (map shape_root (ss' @ [l, r'])) outer1 = Inr outer'
             \<and> tab_ok (nat (nnodes tree)) outer'"
        using Suc.prems(3,4) snoc Bin okl okr ookl ookr'
        by (intro Suc.IH o1(2)) (simp_all add: oks ooks)
      moreover have "likelihood_site_outer_loop (Suc fuel) ops tree mroot muts nomuts inner
             (map shape_root ss) outer
          = likelihood_site_outer_loop fuel ops tree mroot muts nomuts inner
             (map shape_root (ss' @ [l, r'])) outer1"
        using st r nl push Bin o1(1) by simp
      ultimately show ?thesis by simp
    qed
  qed
qed

lemma tabs_okD:
  assumes "tabs_ok m n tabs" "i < m"
  shows "i < length tabs" "tab_ok n (tabs ! i)"
proof -
  from assms show "i < length tabs" by (simp add: tabs_ok_def)
  from assms have "list_all (tab_ok n) (take m tabs)" "i < length (take m tabs)"
    by (simp_all add: tabs_ok_def)
  then have "tab_ok n (take m tabs ! i)" by (simp only: list_all_length)
  with assms(2) show "tab_ok n (tabs ! i)" by simp
qed

lemma tabs_ok_update:
  assumes "tabs_ok m n tabs" "tab_ok n tab"
  shows "tabs_ok m n (tabs[i := tab])"
proof -
  from assms(1) have l: "m \<le> length tabs" by (simp add: tabs_ok_def)
  have "tab_ok n (take m (tabs[i := tab]) ! r)" if "r < m" for r
    using tabs_okD [OF assms(1) that] that assms(2) l by (cases "r = i") simp_all
  with l show ?thesis by (simp add: tabs_ok_def list_all_length)
qed

lemma new_likelihood_table_ok: "tabs_ok (nat seqlen) (nat n) (new_likelihood_table seqlen n junk)"
  by (simp add: tabs_ok_def tab_ok_def new_likelihood_table_def list_all_length)

lemma site_outer_total:
  assumes root: "0 \<le> root_t tree" "root_t tree < nnodes tree"
    and ch: "2 \<le> length (child (nodes tree ! nat (root_t tree)))"
      "child (nodes tree ! nat (root_t tree)) ! 1 = shape_root msh"
    and sh: "shape_ok ops tree msh" "list_all (outer_ok ops tree (shape_root msh)) (shape_nodes msh)"
      "length (shape_nodes msh) \<le> fuel" "int (length (shape_nodes msh)) \<le> nnodes tree"
    and nn: "nat (nnodes tree) \<le> length (nodes tree)"
    and inn: "tab_ok (nat (nnodes tree)) inner" and out: "tab_ok (nat (nnodes tree)) outer"
    and len: "nat (nnodes tree) \<le> length muts" "nat (nnodes tree) \<le> length nomuts"
  shows "\<exists>outer'. likelihood_site_outer fuel ops tree muts nomuts inner outer = Inr outer'
           \<and> tab_ok (nat (nnodes tree)) outer'"
proof -
  from root nn have "nat (root_t tree) < length (nodes tree)" by linarith
  with root have "rd (nodes tree) (root_t tree) = Inr (nodes tree ! nat (root_t tree))"
    by (simp add: rd_nat)
  with rd_two(2) [OF ch(1)] ch(2) have rc: "root_child tree 1 = Inr (shape_root msh)"
    by (simp add: root_child_def)
  from root have one: "1 \<le> nnodes tree" by linarith
  have "\<exists>outer'. likelihood_site_outer_loop fuel ops tree (shape_root msh) muts nomuts inner
             (map shape_root [msh]) outer = Inr outer' \<and> tab_ok (nat (nnodes tree)) outer'"
    using sh by (intro outer_loop_total nn inn out len) simp_all
  with one show ?thesis
    by (simp add: likelihood_site_outer_def rc)
qed

lemma prob_tree_mutation_total:
  assumes mut: "list_all (mut_ok tree model) [0..<nat (nnodes tree)]"
    and nn: "nat (nnodes tree) \<le> length (nodes tree)"
  shows "\<exists>muts nomuts. prob_tree_mutation tree model junk = Inr (muts, nomuts)
           \<and> length muts = nat (nnodes tree) \<and> length nomuts = nat (nnodes tree)"
proof -
  let ?P = "\<lambda>i (st :: real list \<times> real list). length (fst st) = i \<and> length (snd st) = i"
  have "\<exists>t. forE [0..<nat (nnodes tree)] ([], []) (prob_tree_mutation_step tree model junk) = Inr t
          \<and> ?P (nat (nnodes tree)) t"
  proof (rule forE_upt_total [where P = ?P])
    show "?P 0 ([], [])" by simp
    fix i and st :: "real list \<times> real list"
    assume i: "i < nat (nnodes tree)" and p: "?P i st"
    obtain muts nomuts where st: "st = (muts, nomuts)" by (cases st)
    from mut i have m: "mut_ok tree model i" by (simp add: list_all_length)
    show "\<exists>t. prob_tree_mutation_step tree model junk i st = Inr t \<and> ?P (Suc i) t"
    proof (cases "int i = root_t tree")
      case True
      with p st show ?thesis by (simp add: prob_tree_mutation_step_def)
    next
      case False
      let ?p = "parent (nodes tree ! i)"
      from i nn have r: "rd (nodes tree) (int i) = Inr (nodes tree ! i)" by (simp add: rd_ok)
      from m False have pr: "0 \<le> ?p" "?p < int (length (nodes tree))"
        by (simp_all add: mut_ok_def Let_def)
      then have na: "node_age tree ?p = Inr (age (nodes tree ! nat ?p))"
        by (simp add: node_age_def rd_def)
      show ?thesis
      proof (cases "age (nodes tree ! nat ?p) = removed_root_time model")
        case True
        with p st False show ?thesis by (simp add: prob_tree_mutation_step_def r na)
      next
        case nr: False
        with m False have "in_times model (age (nodes tree ! nat ?p))"
          "in_times model (age (nodes tree ! i))"
          by (simp_all add: mut_ok_def Let_def)
        then have "rd (times_m model) (age (nodes tree ! nat ?p))
            = Inr (times_m model ! nat (age (nodes tree ! nat ?p)))"
          "rd (times_m model) (age (nodes tree ! i)) = Inr (times_m model ! nat (age (nodes tree ! i)))"
          by (simp_all add: in_times_def rd_def)
        with p st False nr show ?thesis
          by (simp add: prob_tree_mutation_step_def r na Let_def)
      qed
    qed
  qed
  then show ?thesis
    by (auto simp: prob_tree_mutation_def)
qed

lemma calc_inner_outer_total:
  assumes root: "0 \<le> root_t tree" "root_t tree < nnodes tree"
    and ch: "2 \<le> length (child (nodes tree ! nat (root_t tree)))"
      "child (nodes tree ! nat (root_t tree)) ! 1 = shape_root msh"
    and sh: "shape_ok ops tree msh" "list_all (outer_ok ops tree (shape_root msh)) (shape_nodes msh)"
      "length (shape_nodes msh) \<le> fuel" "int (length (shape_nodes msh)) \<le> nnodes tree"
    and nn: "nat (nnodes tree) \<le> length (nodes tree)"
    and mut: "list_all (mut_ok tree model) [0..<nat (nnodes tree)]"
    and order: "nat (nnodes tree) \<le> length (get_postorder ops tree)"
      "list_all (node_ok ops tree seqs seqlen) (take (nat (nnodes tree)) (get_postorder ops tree))"
    and ivs: "nat seqlen \<le> length ivs"
    and inn: "tabs_ok (nat seqlen) (nat (nnodes tree)) inner"
    and out: "tabs_ok (nat seqlen) (nat (nnodes tree)) outer"
  shows "\<exists>inner' outer'. calc_inner_outer fuel ops tree model seqs seqlen ivs junk inner outer
             = Inr (inner', outer')
           \<and> tabs_ok (nat seqlen) (nat (nnodes tree)) inner'
           \<and> tabs_ok (nat seqlen) (nat (nnodes tree)) outer'"
proof -
  let ?n = "nat (nnodes tree)" and ?m = "nat seqlen"
  from prob_tree_mutation_total [OF mut nn, of junk] obtain muts nomuts
    where pm: "prob_tree_mutation tree model junk = Inr (muts, nomuts)"
      and len: "?n \<le> length muts" "?n \<le> length nomuts" by auto
  let ?P = "\<lambda>st :: real list list list \<times> real list list list.
      tabs_ok ?m ?n (fst st) \<and> tabs_ok ?m ?n (snd st)"
  let ?f = "\<lambda>i (inn, out).
         bindE (rd ivs (int i)) (\<lambda>is_inv.
           if \<not> is_inv
           then bindE (rd inn (int i)) (\<lambda>tab.
                bindE (likelihood_site_inner ops tree seqs (int i) (get_postorder ops tree)
                         (nnodes tree) muts nomuts tab) (\<lambda>(p, tab').
                bindE (wr inn (int i) tab') (\<lambda>inn'.
                bindE (rd out (int i)) (\<lambda>otab.
                bindE (likelihood_site_outer fuel ops tree muts nomuts tab' otab) (\<lambda>otab'.
                bindE (wr out (int i) otab') (\<lambda>out'. Inr (inn', out')))))))
           else Inr (inn, out))"
  have "\<exists>t. forE [0..<?m] (inner, outer) ?f = Inr t \<and> ?P t"
  proof (rule forE_total [where P = ?P])
    show "?P (inner, outer)" using inn out by simp
    fix i and st :: "real list list list \<times> real list list list"
    assume "i \<in> set [0..<?m]" and p: "?P st"
    then have i: "i < ?m" by simp
    obtain inn out where st: "st = (inn, out)" by (cases st)
    from p st have pi: "tabs_ok ?m ?n inn" and po: "tabs_ok ?m ?n out" by simp_all
    from i ivs have ri: "rd ivs (int i) = Inr (ivs ! i)" by (simp add: rd_ok)
    show "\<exists>t. ?f i st = Inr t \<and> ?P t"
    proof (cases "ivs ! i")
      case True
      with p st show ?thesis by (simp add: ri)
    next
      case False
      note di = tabs_okD [OF pi i] and dout = tabs_okD [OF po i]
      from di(1) have r1: "rd inn (int i) = Inr (inn ! i)" by (simp add: rd_ok)
      from site_inner_total [OF order i di(2) nn root len] obtain p' tab'
        where si: "likelihood_site_inner ops tree seqs (int i) (get_postorder ops tree)
                     (nnodes tree) muts nomuts (inn ! i) = Inr (p', tab')"
          and t': "tab_ok ?n tab'" by blast
      from di(1) have w1: "wr inn (int i) tab' = Inr (inn[i := tab'])" by (simp add: wr_ok)
      from dout(1) have r2: "rd out (int i) = Inr (out ! i)" by (simp add: rd_ok)
      from site_outer_total [OF root ch sh nn t' dout(2) len] obtain otab'
        where so: "likelihood_site_outer fuel ops tree muts nomuts tab' (out ! i) = Inr otab'"
          and ot': "tab_ok ?n otab'" by blast
      from dout(1) have w2: "wr out (int i) otab' = Inr (out[i := otab'])" by (simp add: wr_ok)
      from tabs_ok_update [OF pi t'] tabs_ok_update [OF po ot'] False show ?thesis
        by (simp add: st ri r1 si w1 r2 so w2)
    qed
  qed
  then show ?thesis
    by (auto simp: calc_inner_outer_def pm)
qed

lemma mapE_total:
  assumes "\<And>x. x \<in> set xs \<Longrightarrow> \<exists>y. f x = Inr y"
  shows "\<exists>ys. mapE f xs = Inr ys \<and> length ys = length xs"
  using assms
proof (induction xs)
  case Nil
  then show ?case by simp
next
  case (Cons x xs)
  from Cons.prems [of x] obtain y where y: "f x = Inr y" by auto
  have "\<exists>ys. mapE f xs = Inr ys \<and> length ys = length xs"
    by (rule Cons.IH) (simp add: Cons.prems)
  then obtain ys where "mapE f xs = Inr ys" "length ys = length xs" by blast
  with y show ?case by simp
qed

lemma site_mut_total:
  assumes "\<And>j. j \<in> set js \<Longrightarrow> j < length seqs \<and> i < length (seqs ! j)"
  shows "\<exists>b. site_mut seqs (int i) c js = Inr b"
  using assms
proof (induction js)
  case Nil
  then show ?case by auto
next
  case (Cons j js)
  from Cons.prems [of j] have j: "j < length seqs" "i < length (seqs ! j)" by simp_all
  have "\<exists>b. site_mut seqs (int i) c js = Inr b"
    by (rule Cons.IH) (simp add: Cons.prems)
  with j show ?case by (auto simp: rd_ok)
qed

lemma find_invariant_sites_total:
  assumes ne: "seqs \<noteq> []" and n: "nat nseqs \<le> length seqs"
    and len: "list_all (\<lambda>s. nat seqlen \<le> length s) (take (max (nat nseqs) 1) seqs)"
  shows "\<exists>ivs. find_invariant_sites seqs nseqs seqlen = Inr ivs \<and> length ivs = nat seqlen"
proof -
  have l: "nat seqlen \<le> length (seqs ! j)" if "j < max (nat nseqs) 1" for j
  proof -
    from that n ne have "j < length (take (max (nat nseqs) 1) seqs)"
      by (cases seqs) (simp_all add: max_def split: if_splits)
    with len have "nat seqlen \<le> length (take (max (nat nseqs) 1) seqs ! j)"
      by (simp only: list_all_length)
    with that show ?thesis by simp
  qed
  have "\<exists>ivs. mapE (invariant_site seqs nseqs) [0..<nat seqlen] = Inr ivs
          \<and> length ivs = length [0..<nat seqlen]"
  proof (rule mapE_total)
    fix i assume "i \<in> set [0..<nat seqlen]"
    then have i: "i < nat seqlen" by simp
    from ne have r0: "rd seqs 0 = Inr (seqs ! 0)" by (simp add: rd_def)
    have "0 < max (nat nseqs) 1" by simp
    from l [OF this] i have r1: "rd (seqs ! 0) (int i) = Inr (seqs ! 0 ! i)"
      by (simp add: rd_ok)
    have "\<exists>b. site_mut seqs (int i) (seqs ! 0 ! i) [1..<nat nseqs] = Inr b"
    proof (rule site_mut_total)
      fix j assume "j \<in> set [1..<nat nseqs]"
      then have j: "j < nat nseqs" by simp
      with n have "j < length seqs" by simp
      moreover from j l [of j] i have "i < length (seqs ! j)" by simp
      ultimately show "j < length seqs \<and> i < length (seqs ! j)" ..
    qed
    then show "\<exists>y. invariant_site seqs nseqs i = Inr y"
      by (auto simp: invariant_site_def r0 r1)
  qed
  then show ?thesis by (simp add: find_invariant_sites_def)
qed

lemma emit_okD:
  assumes "emit_ok m ns emit" "i < m"
  shows "i < length emit" "ns \<le> length (emit ! i)"
proof -
  from assms show "i < length emit" by (simp add: emit_ok_def)
  from assms have "list_all (\<lambda>row. ns \<le> length row) (take m emit)" "i < length (take m emit)"
    by (simp_all add: emit_ok_def)
  then have "ns \<le> length (take m emit ! i)" by (simp only: list_all_length)
  with assms(2) show "ns \<le> length (emit ! i)" by simp
qed

lemma emit_ok_update:
  assumes "emit_ok m ns emit" "length row = length (emit ! i)"
  shows "emit_ok m ns (emit[i := row])"
proof -
  from assms(1) have l: "m \<le> length emit" by (simp add: emit_ok_def)
  have "ns \<le> length (take m (emit[i := row]) ! r)" if "r < m" for r
    using emit_okD [OF assms(1) that] that assms(2) l by (cases "r = i") simp_all
  with l show ?thesis by (simp add: emit_ok_def list_all_length)
qed

lemma set_cell_emit:
  assumes ok: "emit_ok m ns emit" and i: "i < m" and j: "j < ns"
  shows "\<exists>emit'. set_cell emit (int i) (int j) v = Inr emit' \<and> emit_ok m ns emit'"
proof -
  note d = emit_okD [OF ok i]
  from d(1) have r: "rd emit (int i) = Inr (emit ! i)" by (simp add: rd_ok)
  from d(2) j have w: "wr (emit ! i) (int j) v = Inr ((emit ! i)[j := v])" by (simp add: wr_ok)
  from d(1) have w2: "wr emit (int i) ((emit ! i)[j := v]) = Inr (emit[i := (emit ! i)[j := v]])"
    by (simp add: wr_ok)
  have "emit_ok m ns (emit[i := (emit ! i)[j := v]])"
    by (rule emit_ok_update [OF ok]) simp
  then show ?thesis by (simp add: set_cell_def r w w2)
qed

lemma internal_term_total:
  assumes inn: "tab_ok n inn" and out: "tab_ok n out"
    and n1: "0 \<le> node1" "node1 < int n" and n2: "0 \<le> node2" "node2 < int n"
  shows "\<exists>e'. internal_term inn out node1 node2 at_root m1 nm1 m2 nm2 m3 nm3 a e = Inr e'"
proof -
  from n1 n2 have k: "nat node1 < n" "nat node2 < n" by linarith+
  note d1 = tab_okD [OF inn k(1)] and d2 = tab_okD [OF inn k(2)] and d3 = tab_okD [OF out k(2)]
  from d1(1) d2(1) d3(1) n1 n2 have r: "rd inn node1 = Inr (inn ! nat node1)"
    "rd inn node2 = Inr (inn ! nat node2)" "rd out node2 = Inr (out ! nat node2)"
    by (simp_all add: rd_nat)
  from branch_sum_total [OF d1(2)] obtain p1
    where p1: "branch_sum (inn ! nat node1) a m1 nm1 = Inr p1" by blast
  from branch_sum_total [OF d2(2)] obtain p2
    where p2: "branch_sum (inn ! nat node2) a m2 nm2 = Inr p2" by blast
  from branch_sum_total [OF d3(2)] obtain p3
    where p3: "branch_sum (out ! nat node2) a m3 nm3 = Inr p3" by blast
  show ?thesis by (simp add: internal_term_def r p1 p2 p3)
qed

lemma internal_site_total:
  assumes ok: "emit_ok m ns emit" and i: "i < m" and j: "j < ns"
    and ivs: "m \<le> length ivs"
    and inn: "tabs_ok m n inner" and out: "tabs_ok m n outer"
    and n1: "0 \<le> node1" "node1 < int n" and n2: "0 \<le> node2" "node2 < int n"
  shows "\<exists>emit'. internal_site ivs inner outer (int j) node1 node2 at_root lk
             m1 nm1 m2 nm2 m3 nm3 i emit = Inr emit' \<and> emit_ok m ns emit'"
proof -
  from i ivs have ri: "rd ivs (int i) = Inr (ivs ! i)" by (simp add: rd_ok)
  show ?thesis
  proof (cases "ivs ! i")
    case True
    with set_cell_emit [OF ok i j] show ?thesis by (simp add: internal_site_def ri)
  next
    case False
    note di = tabs_okD [OF inn i] and dout = tabs_okD [OF out i]
    from di(1) dout(1) have r: "rd inner (int i) = Inr (inner ! i)" "rd outer (int i) = Inr (outer ! i)"
      by (simp_all add: rd_ok)
    from set_cell_emit [OF ok i j, of 0] obtain emit0
      where e0: "set_cell emit (int i) (int j) 0 = Inr emit0" "emit_ok m ns emit0" by blast
    have "\<exists>t. forE [0..<4] emit0 (\<lambda>a em.
                bindE (rd em (int i)) (\<lambda>row.
                bindE (rd row (int j)) (\<lambda>e.
                bindE (internal_term (inner ! i) (outer ! i) node1 node2 at_root
                         m1 nm1 m2 nm2 m3 nm3 a e) (\<lambda>e'.
                  set_cell em (int i) (int j) e')))) = Inr t \<and> emit_ok m ns t"
    proof (rule forE_total [where P = "emit_ok m ns", OF e0(2)])
      fix a em assume em: "emit_ok m ns em"
      note d = emit_okD [OF em i]
      from d j have rr: "rd em (int i) = Inr (em ! i)" "rd (em ! i) (int j) = Inr (em ! i ! j)"
        by (simp_all add: rd_ok)
      from internal_term_total [OF di(2) dout(2) n1 n2] obtain e'
        where t: "internal_term (inner ! i) (outer ! i) node1 node2 at_root
                         m1 nm1 m2 nm2 m3 nm3 a (em ! i ! j) = Inr e'" by blast
      from set_cell_emit [OF em i j]
      show "\<exists>t. bindE (rd em (int i)) (\<lambda>row.
                bindE (rd row (int j)) (\<lambda>e.
                bindE (internal_term (inner ! i) (outer ! i) node1 node2 at_root
                         m1 nm1 m2 nm2 m3 nm3 a e) (\<lambda>e'.
                  set_cell em (int i) (int j) e'))) = Inr t \<and> emit_ok m ns t"
        by (simp add: rr t)
    qed
    with False show ?thesis by (simp add: internal_site_def ri r e0(1))
  qed
qed

lemma internal_state_times_result:
  assumes j: "j < length states"
    and ok: "state_ok tree model mroot sroot (states ! j)"
    and sr: "0 \<le> sroot" "sroot < int (length (nodes tree))"
    and mr: "0 \<le> mroot" "mroot < int (length (nodes tree))"
    and nn: "nat (nnodes tree) \<le> length (nodes tree)"
  shows "internal_state_times tree model states sroot mroot j
         = Inr (node (states ! j),
                times_m model ! nat (age (nodes tree ! nat sroot)),
                times_m model ! nat (age (nodes tree ! nat (node (states ! j)))),
                times_m model ! nat (min (age (nodes tree ! nat (parent (nodes tree !
                                       nat (node (states ! j))))))
                                     (ntimes_m model - 1)),
                times_m model ! nat (time (states ! j)),
                if node (states ! j) = mroot
                then times_m model ! nat (age (nodes tree ! nat mroot)) else 0)"
proof -
  let ?st = "states ! j"
  from ok have nd: "0 \<le> node ?st" "node ?st < nnodes tree"
    and t1: "in_times model (age (nodes tree ! nat sroot))"
    and t2: "in_times model (age (nodes tree ! nat (node ?st)))"
    and pa: "0 \<le> parent (nodes tree ! nat (node ?st))"
      "parent (nodes tree ! nat (node ?st)) < int (length (nodes tree))"
    and t3: "in_times model (min (age (nodes tree ! nat (parent (nodes tree ! nat (node ?st)))))
                           (ntimes_m model - 1))"
    and t4: "in_times model (time ?st)"
    and t5: "node ?st = mroot \<Longrightarrow> in_times model (age (nodes tree ! nat mroot))"
    by (simp_all add: state_ok_def)
  have rt: "rd (times_m model) a = Inr (times_m model ! nat a)" if "in_times model a" for a
    using that by (simp add: in_times_def rd_def)
  from j have r0: "rd states (int j) = Inr ?st" by (simp add: rd_ok)
  from nd nn have "nat (node ?st) < length (nodes tree)" by linarith
  with nd have r1: "rd (nodes tree) (node ?st) = Inr (nodes tree ! nat (node ?st))"
    by (simp add: rd_nat)
  from sr have a1: "node_age tree sroot = Inr (age (nodes tree ! nat sroot))"
    by (simp add: node_age_def rd_def)
  from pa have a2: "node_age tree (parent (nodes tree ! nat (node ?st)))
      = Inr (age (nodes tree ! nat (parent (nodes tree ! nat (node ?st)))))"
    by (simp add: node_age_def rd_def)
  from mr have a3: "node_age tree mroot = Inr (age (nodes tree ! nat mroot))"
    by (simp add: node_age_def rd_def)
  have rtm: "(if node ?st = mroot
        then bindE (node_age tree mroot) (\<lambda>rage. rd (times_m model) rage) else Inr 0)
      = Inr (if node ?st = mroot then times_m model ! nat (age (nodes tree ! nat mroot)) else 0)"
    using t5 by (simp add: a3 rt)
  show ?thesis
    unfolding internal_state_times_def
    by (simp only: r0 r1 a1 a2 rt [OF t1] rt [OF t2] rt [OF t3] rt [OF t4] rtm bindE_Inr)
qed

lemma internal_state_total:
  assumes ok: "emit_ok (nat seqlen) (length states) emit" and j: "j < length states"
    and ivs: "nat seqlen \<le> length ivs"
    and inn: "tabs_ok (nat seqlen) (nat (nnodes tree)) inner"
    and out: "tabs_ok (nat seqlen) (nat (nnodes tree)) outer"
    and st: "state_ok tree model mroot sroot (states ! j)"
    and sr: "0 \<le> sroot" "sroot < nnodes tree"
    and mr: "0 \<le> mroot" "mroot < nnodes tree"
    and nn: "nat (nnodes tree) \<le> length (nodes tree)"
  shows "\<exists>emit'. internal_state tree model states seqlen ivs inner outer sroot mroot
             mlen slen j emit = Inr emit'
           \<and> emit_ok (nat seqlen) (length states) emit'"
proof -
  from sr mr nn have r: "0 \<le> sroot" "sroot < int (length (nodes tree))"
    "0 \<le> mroot" "mroot < int (length (nodes tree))" by linarith+
  note tm = internal_state_times_result [OF j st r nn]
  from sr have n1: "0 \<le> sroot" "sroot < int (nat (nnodes tree))" by linarith+
  from st have "0 \<le> node (states ! j)" "node (states ! j) < nnodes tree"
    by (simp_all add: state_ok_def)
  then have n2: "0 \<le> node (states ! j)" "node (states ! j) < int (nat (nnodes tree))"
    by linarith+
  show ?thesis
    unfolding internal_state_def tm bindE_Inr prod.case Let_def
    by (rule forE_total [where P = "emit_ok (nat seqlen) (length states)", OF ok])
      (rule internal_site_total [OF _ _ j ivs inn out n1 n2], simp_all)
qed

lemma internal_wfD:
  assumes "internal_wf ops states tree seqs nseqs seqlen model emit msh ssh"
  shows "states \<noteq> []"
    "nat (nnodes tree) \<le> length (nodes tree)"
    "0 \<le> root_t tree" "root_t tree < nnodes tree"
    "2 \<le> length (child (nodes tree ! nat (root_t tree)))"
    "child (nodes tree ! nat (root_t tree)) ! 1 = shape_root msh"
    "child (nodes tree ! nat (root_t tree)) ! 0 = shape_root ssh"
    "shape_ok ops tree msh" "shape_ok ops tree ssh"
    "int (length (shape_nodes msh)) \<le> nnodes tree"
    "int (length (shape_nodes ssh)) \<le> nnodes tree"
    "seqs \<noteq> []" "nat nseqs \<le> length seqs"
    "list_all (\<lambda>s. nat seqlen \<le> length s) (take (max (nat nseqs) 1) seqs)"
    "list_all (mut_ok tree model) [0..<nat (nnodes tree)]"
    "nat (nnodes tree) \<le> length (get_postorder ops tree)"
    "list_all (node_ok ops tree seqs seqlen) (take (nat (nnodes tree)) (get_postorder ops tree))"
    "list_all (outer_ok ops tree (shape_root msh)) (shape_nodes msh)"
    "list_all (state_ok tree model (shape_root msh) (shape_root ssh)) states"
    "emit_ok (nat seqlen) (length states) emit"
  using assms unfolding internal_wf_def emit_ok_def by blast+

lemma calc_emissions_internal_total:
  assumes wf: "internal_wf ops states tree seqs nseqs seqlen model emit msh ssh"
    and fuel: "length (shape_nodes msh) \<le> fuel" "length (shape_nodes ssh) \<le> fuel"
  shows "\<exists>emit'. calc_emissions_internal fuel ops states tree seqs nseqs seqlen model junk emit
           = Inr emit'"
proof -
  note w = internal_wfD [OF wf]
  let ?n = "nat (nnodes tree)" and ?m = "nat seqlen"
  from w(3,4,2) have "nat (root_t tree) < length (nodes tree)" by linarith
  with w(3) have "rd (nodes tree) (root_t tree) = Inr (nodes tree ! nat (root_t tree))"
    by (simp add: rd_nat)
  with rd_two [OF w(5)] w(6,7)
  have rc: "root_child tree 1 = Inr (shape_root msh)" "root_child tree 0 = Inr (shape_root ssh)"
    by (simp_all add: root_child_def)
  from find_invariant_sites_total [OF w(12,13,14)] obtain ivs
    where iv: "find_invariant_sites seqs nseqs seqlen = Inr ivs" "length ivs = ?m" by blast
  then have ivl: "?m \<le> length ivs" by simp
  from calc_inner_outer_total [OF w(3,4,5,6,8,18) fuel(1) w(10,2,15,16,17) ivl
      new_likelihood_table_ok new_likelihood_table_ok, of junk junk]
  obtain inner outer
    where io: "calc_inner_outer fuel ops tree model seqs seqlen ivs junk
                 (new_likelihood_table seqlen (nnodes tree) junk)
                 (new_likelihood_table seqlen (nnodes tree) junk) = Inr (inner, outer)"
      and inn: "tabs_ok ?m ?n inner" and out: "tabs_ok ?m ?n outer" by blast
  note ml = subtree_len_result [OF w(8) fuel(1) w(10,2), of model]
  note sl = subtree_len_result [OF w(9) fuel(2) w(11,2), of model]
  note sr = shape_ok_root [OF w(9)] and mr = shape_ok_root [OF w(8)]
  have "\<exists>t. forE [0..<length states] emit
          (internal_state tree model states seqlen ivs inner outer (shape_root ssh)
             (shape_root msh) (shape_length ops tree model msh) (shape_length ops tree model ssh))
        = Inr t \<and> emit_ok ?m (length states) t"
  proof (rule forE_total [where P = "emit_ok ?m (length states)", OF w(20)])
    fix j em assume "j \<in> set [0..<length states]" and em: "emit_ok ?m (length states) em"
    then have j: "j < length states" by simp
    with w(19) have st: "state_ok tree model (shape_root msh) (shape_root ssh) (states ! j)"
      by (simp add: list_all_length)
    show "\<exists>t. internal_state tree model states seqlen ivs inner outer (shape_root ssh)
             (shape_root msh) (shape_length ops tree model msh) (shape_length ops tree model ssh)
             j em = Inr t \<and> emit_ok ?m (length states) t"
      by (rule internal_state_total [OF em j ivl inn out st sr mr w(2)])
  qed
  then show ?thesis
    using w(1) by (auto simp: calc_emissions_internal_def rc iv(1) io ml sl)
qed

lemma calc_emissions_internal_cells:
  assumes wf: "internal_wf ops states tree seqs nseqs seqlen model emit msh ssh"
    and fuel: "length (shape_nodes msh) \<le> fuel" "length (shape_nodes ssh) \<le> fuel"
  shows "\<exists>emit'. calc_emissions_internal fuel ops states tree seqs nseqs seqlen model junk emit
           = Inr emit'
         \<and> (\<forall>j<length states. \<forall>i<nat seqlen. invariant_site seqs nseqs i = Inr True \<longrightarrow>
              cell emit' (int i) (int j)
                = Inr (invariant_lk model
                         (internal_tree_length ops tree model msh ssh (states ! j))))"
proof -
  note w = internal_wfD [OF wf]
  from calc_emissions_internal_total [OF wf fuel, of junk] obtain emit'
    where c: "calc_emissions_internal fuel ops states tree seqs nseqs seqlen model junk emit
              = Inr emit'" by blast
  from w(3,4,2) have "nat (root_t tree) < length (nodes tree)" by linarith
  with w(3) have "rd (nodes tree) (root_t tree) = Inr (nodes tree ! nat (root_t tree))"
    by (simp add: rd_nat)
  with rd_two [OF w(5)] w(6,7)
  have rc: "root_child tree 1 = Inr (shape_root msh)" "root_child tree 0 = Inr (shape_root ssh)"
    by (simp_all add: root_child_def)
  note ml = subtree_len_result [OF w(8) fuel(1) w(10,2), of model]
  note sl = subtree_len_result [OF w(9) fuel(2) w(11,2), of model]
  note sr = shape_ok_root [OF w(9)] and mr = shape_ok_root [OF w(8)]
  from sr mr w(2) have r: "0 \<le> shape_root ssh" "shape_root ssh < int (length (nodes tree))"
    "0 \<le> shape_root msh" "shape_root msh < int (length (nodes tree))" by linarith+
  have "cell emit' (int i) (int j)
      = Inr (invariant_lk model (internal_tree_length ops tree model msh ssh (states ! j)))"
    if j: "j < length states" and i: "i < nat seqlen"
      and iv: "invariant_site seqs nseqs i = Inr True" for i j
  proof -
    from w(19) j have st: "state_ok tree model (shape_root msh) (shape_root ssh) (states ! j)"
      by (simp add: list_all_length)
    note tm = internal_state_times_result [OF j st r w(2)]
    from calc_emissions_internal_invariant [OF c j i iv] obtain mroot sroot mlen slen pr
      where a: "root_child tree 1 = Inr mroot" "root_child tree 0 = Inr sroot"
        "subtree_len fuel ops tree model mroot = Inr mlen"
        "subtree_len fuel ops tree model sroot = Inr slen"
        "internal_state_times tree model states sroot mroot j = Inr pr"
        "cell emit' (int i) (int j) = Inr (internal_lk model mlen slen mroot pr)" by blast
    from a(1,2) rc have e: "mroot = shape_root msh" "sroot = shape_root ssh" by simp_all
    from a(3,4) ml sl e have l: "mlen = shape_length ops tree model msh"
      "slen = shape_length ops tree model ssh" by simp_all
    from a(5) tm e have pr: "pr = (node (states ! j),
                times_m model ! nat (age (nodes tree ! nat (shape_root ssh))),
                times_m model ! nat (age (nodes tree ! nat (node (states ! j)))),
                times_m model ! nat (min (age (nodes tree ! nat (parent (nodes tree !
                                       nat (node (states ! j))))))
                                     (ntimes_m model - 1)),
                times_m model ! nat (time (states ! j)),
                if node (states ! j) = shape_root msh
                then times_m model ! nat (age (nodes tree ! nat (shape_root msh))) else 0)"
      by simp
    show ?thesis
      unfolding a(6) e l pr
      by (simp add: internal_lk_def internal_treelen_def internal_tree_length_def Let_def)
  qed
  with c show ?thesis by blast
qed

section \<open>The claims\<close>





text \<open>
  Claim C3, as amended. A within-block column step over the states of a block and a
  cross-block switch step divide the column by its sum \<^verbatim>\<open>norm\<close>: when the mass before
  normalization is positive, the step returns a column whose entries sum to 1. In a
  degenerate internal block (no state) the within-block step copies entry 0 of the
  previous column and does not normalize.
\<close>

theorem forward_columns_normalized:
  "(forward_block_fill states ntimes ages tm tm2 col1 col2 emit2 = Inr (c, nrm) \<longrightarrow> 0 < nrm \<longrightarrow>
      (\<exists>c'. forward_block_column states ntimes ages tm tm2 col1 col2 emit2 = Inr c'
         \<and> (\<Sum>k<length states. c' ! k) = 1 \<and> nrm = (\<Sum>k<length states. c ! k)))
   \<and> (forward_switch_fill scol1 scol2 m emit = Inr (d, nrm') \<longrightarrow> 0 < nrm' \<longrightarrow>
      (\<exists>d'. arghmm_forward_switch scol1 scol2 m emit = Inr d'
         \<and> (\<Sum>k<nat (max (nstates2 m) 1). d' ! k) = 1
         \<and> nrm' = (\<Sum>k<nat (max (nstates2 m) 1). d ! k)))
   \<and> (copy_first_entry fo i fw = Inr fw' \<longrightarrow>
        bindE (rd fw' (fo + int i)) (\<lambda>c. rd c 0) = bindE (rd fw (fo + int i - 1)) (\<lambda>c. rd c 0))"
proof (intro conjI impI)
  assume "forward_block_fill states ntimes ages tm tm2 col1 col2 emit2 = Inr (c, nrm)" "0 < nrm"
  then show "\<exists>c'. forward_block_column states ntimes ages tm tm2 col1 col2 emit2 = Inr c'
         \<and> (\<Sum>k<length states. c' ! k) = 1 \<and> nrm = (\<Sum>k<length states. c ! k)"
    by (intro forward_block_column_normalized) simp_all
next
  assume "forward_switch_fill scol1 scol2 m emit = Inr (d, nrm')" "0 < nrm'"
  then show "\<exists>d'. arghmm_forward_switch scol1 scol2 m emit = Inr d'
         \<and> (\<Sum>k<nat (max (nstates2 m) 1). d' ! k) = 1
         \<and> nrm' = (\<Sum>k<nat (max (nstates2 m) 1). d ! k)"
    by (rule forward_switch_normalized)
next
  assume "copy_first_entry fo i fw = Inr fw'"
  then show "bindE (rd fw' (fo + int i)) (\<lambda>c. rd c 0) = bindE (rd fw (fo + int i - 1)) (\<lambda>c. rd c 0)"
    by (rule copy_first_entry_result)
qed

lemma ex_fill:
  "forward_block_fill [\<lparr>node = 0, time = 0\<rparr>] 2 [(0, 0, 0)] [[1]] [[0]] [1] [9] [1/2]
     = Inr ([1/2], 1/2)"
  by (simp add: forward_block_fill_def fgroups_step_def tmatrix_fgroups_cell_def
      fill_column_step_def same_branch_step_def rd_def wr_def)

lemma ex_switch_fill:
  "forward_switch_fill [1] [5]
     \<lparr>nstates1 = 0, nstates2 = 0, determ = [0], determprob = [Fin 0], recombsrc = -1,
      recoalsrc = -1, recombrow = [NegInf], recoalrow = [NegInf]\<rparr> [1/4] = Inr ([1/4], 1/4)"
  by (simp add: forward_switch_fill_def switch_determ_def switch_spread_def switch_row_def
      rd_def wr_def)

lemma ex_copy: "copy_first_entry 0 1 [[1/2], [0]] = Inr [[1/2], [1/2]]"
  by (simp add: copy_first_entry_def rd_def wr_def)


theorem forward_columns_normalized_witness:
  "forward_block_fill [\<lparr>node = 0, time = 0\<rparr>] 2 [(0, 0, 0)] [[1]] [[0]] [1] [9] [1/2]
     = Inr ([1/2], 1/2)
   \<and> (\<exists>c'. forward_block_column [\<lparr>node = 0, time = 0\<rparr>] 2 [(0, 0, 0)] [[1]] [[0]] [1] [9] [1/2]
          = Inr c' \<and> (\<Sum>k<length [\<lparr>node = 0, time = 0\<rparr>]. c' ! k) = 1)
   \<and> forward_switch_fill [1] [5]
     \<lparr>nstates1 = 0, nstates2 = 0, determ = [0], determprob = [Fin 0], recombsrc = -1,
      recoalsrc = -1, recombrow = [NegInf], recoalrow = [NegInf]\<rparr> [1/4] = Inr ([1/4], 1/4)
   \<and> (\<exists>d'. arghmm_forward_switch [1] [5]
     \<lparr>nstates1 = 0, nstates2 = 0, determ = [0], determprob = [Fin 0], recombsrc = -1,
      recoalsrc = -1, recombrow = [NegInf], recoalrow = [NegInf]\<rparr> [1/4] = Inr d'
        \<and> (\<Sum>k<1. d' ! k) = 1)
   \<and> copy_first_entry 0 1 [[1/2], [0]] = Inr [[1/2], [1/2]]
   \<and> bindE (rd [[1/2], [1/2::real]] (0 + int 1)) (\<lambda>c. rd c 0)
       = bindE (rd [[1/2], [0]] (0 + int 1 - 1)) (\<lambda>c. rd c 0)"
proof -
  let ?m = "\<lparr>nstates1 = 0, nstates2 = 0, determ = [0], determprob = [Fin 0], recombsrc = -1,
      recoalsrc = -1, recombrow = [NegInf], recoalrow = [NegInf]\<rparr>"
  note th = forward_columns_normalized [where states = "[\<lparr>node = 0, time = 0\<rparr>]" and ntimes = 2
      and ages = "[(0, 0, 0)]" and tm = "[[1]]" and ?tm2.0 = "[[0]]" and ?col1.0 = "[1]"
      and ?col2.0 = "[9]" and ?emit2.0 = "[1/2]" and c = "[1/2]" and nrm = "1/2"
      and ?scol1.0 = "[1]" and ?scol2.0 = "[5]" and m = ?m and emit = "[1/4]" and d = "[1/4]"
      and nrm' = "1/4" and fo = 0 and i = 1 and fw = "[[1/2], [0]]" and fw' = "[[1/2], [1/2]]"]
  have a: "\<exists>c'. forward_block_column [\<lparr>node = 0, time = 0\<rparr>] 2 [(0, 0, 0)] [[1]] [[0]] [1] [9] [1/2]
          = Inr c' \<and> (\<Sum>k<length [\<lparr>node = 0, time = 0\<rparr>]. c' ! k) = 1"
    using th [THEN conjunct1, rule_format, OF ex_fill] by auto
  have b: "\<exists>d'. arghmm_forward_switch [1] [5] ?m [1/4] = Inr d' \<and> (\<Sum>k<1. d' ! k) = 1"
    using th [THEN conjunct2, THEN conjunct1, rule_format, OF ex_switch_fill] by auto
  have c: "bindE (rd [[1/2], [1/2::real]] (0 + int 1)) (\<lambda>c. rd c 0)
       = bindE (rd [[1/2], [0]] (0 + int 1 - 1)) (\<lambda>c. rd c 0)"
    using th [THEN conjunct2, THEN conjunct2, rule_format, OF ex_copy] .
  from a b c ex_fill ex_switch_fill ex_copy show ?thesis by blast
qed

text \<open>
  Claim C3 as stated fails on a degenerate internal block: the within-block step of a
  block with no state produces the column \<open>[1/2]\<close> from the column \<open>[1/2]\<close>, whose mass is
  positive and whose sum is not 1.
\<close>

theorem degenerate_block_not_normalized:
  "arghmm_forward_block
     \<lparr>nnodes = 3, root_t = 2,
      nodes = [\<lparr>parent = 2, child = [-1, -1], age = 0\<rparr>,
               \<lparr>parent = 2, child = [-1, -1], age = 0\<rparr>,
               \<lparr>parent = -1, child = [0, 1], age = 3\<rparr>]\<rparr>
     2 2 []
     \<lparr>internal = True, nstates = 0, get_time = (\<lambda>a b c m s. 1), get = (\<lambda>t s j k. 1),
      get_log = (\<lambda>t s j k. Fin 0)\<rparr>
     [] 0 [[1/2], [0]] 0 = Inr [[1/2], [1/2]]
   \<and> \<not> \<bar>(\<Sum>k<1. [1/2::real] ! k) - 1\<bar> \<le> 1 / 10 ^ 9"
  by (simp add: arghmm_forward_block_def block_special_def root_child_def node_age_def
      copy_first_entry_def rd_def wr_def numeral_2_eq_2)

lemma max_hmm_posterior_one:
  "max_hmm_posterior 1 tree states matrix fw fo path po = Inr path"
  by (simp add: max_hmm_posterior_def)

text \<open>
  Claim C6 fails for the maximum path: at a block boundary without a switch operator
  \<^verbatim>\<open>max_traceback\<close> calls \<^verbatim>\<open>max_hmm_posterior\<close> with \<open>n = 1\<close>, whose loop does not run,
  where \<^verbatim>\<open>stochastic_traceback\<close> calls \<^verbatim>\<open>sample_hmm_posterior\<close> with 2. On two blocks
  of one site each, joined without a switch, the maximum path keeps at position 0 the
  value 7 the array held before the call, and the sampler assigns position 0.
\<close>

theorem max_traceback_skips_boundary:
  "max_traceback
     \<lparr>get_coal_states = (\<lambda>t n i. [\<lparr>node = 0, time = 0\<rparr>, \<lparr>node = 0, time = 1\<rparr>]),
      calc_state_priors = (\<lambda>s t i p a c. c), sample = (\<lambda>r A n. (1, Suc r)), fresh = 0\<rparr>
     \<lparr>start_coord = 0, end_coord = 2\<rparr> 3
     [\<lparr>block_tree = \<lparr>nnodes = 1, root_t = 0, nodes = [\<lparr>parent = -1, child = [-1, -1], age = 0\<rparr>]\<rparr>,
       block_start = 0,
       matrices = \<lparr>m_blocklen = 1, m_nstates2 = 2,
         m_transmat = \<lparr>internal = False, nstates = 2, get_time = (\<lambda>a b c m s. 1),
           get = (\<lambda>t s j k. 1), get_log = (\<lambda>t s j k. Fin 0)\<rparr>,
         m_transmat_switch = None, m_emit = [[1, 1]]\<rparr>\<rparr>,
      \<lparr>block_tree = \<lparr>nnodes = 1, root_t = 0, nodes = [\<lparr>parent = -1, child = [-1, -1], age = 0\<rparr>]\<rparr>,
       block_start = 1,
       matrices = \<lparr>m_blocklen = 1, m_nstates2 = 2,
         m_transmat = \<lparr>internal = False, nstates = 2, get_time = (\<lambda>a b c m s. 1),
           get = (\<lambda>t s j k. 1), get_log = (\<lambda>t s j k. Fin 0)\<rparr>,
         m_transmat_switch = None, m_emit = [[1, 1]]\<rparr>\<rparr>]
     [[1/4, 3/4], [1/4, 3/4]] [7, 7] False False = Inr [7, 1]
   \<and> stochastic_traceback
     \<lparr>get_coal_states = (\<lambda>t n i. [\<lparr>node = 0, time = 0\<rparr>, \<lparr>node = 0, time = 1\<rparr>]),
      calc_state_priors = (\<lambda>s t i p a c. c), sample = (\<lambda>r A n. (1, Suc r)), fresh = 0\<rparr>
     \<lparr>start_coord = 0, end_coord = 2\<rparr> 3
     [\<lparr>block_tree = \<lparr>nnodes = 1, root_t = 0, nodes = [\<lparr>parent = -1, child = [-1, -1], age = 0\<rparr>]\<rparr>,
       block_start = 0,
       matrices = \<lparr>m_blocklen = 1, m_nstates2 = 2,
         m_transmat = \<lparr>internal = False, nstates = 2, get_time = (\<lambda>a b c m s. 1),
           get = (\<lambda>t s j k. 1), get_log = (\<lambda>t s j k. Fin 0)\<rparr>,
         m_transmat_switch = None, m_emit = [[1, 1]]\<rparr>\<rparr>,
      \<lparr>block_tree = \<lparr>nnodes = 1, root_t = 0, nodes = [\<lparr>parent = -1, child = [-1, -1], age = 0\<rparr>]\<rparr>,
       block_start = 1,
       matrices = \<lparr>m_blocklen = 1, m_nstates2 = 2,
         m_transmat = \<lparr>internal = False, nstates = 2, get_time = (\<lambda>a b c m s. 1),
           get = (\<lambda>t s j k. 1), get_log = (\<lambda>t s j k. Fin 0)\<rparr>,
         m_transmat_switch = None, m_emit = [[1, 1]]\<rparr>\<rparr>]
     [[1/4, 3/4], [1/4, 3/4]] [7, 7] False False 0 = Inr ([1, 1], 3/4, Suc (Suc 0))"
  by (simp add: max_traceback_def max_traceback_last_def max_traceback_block_def
      max_hmm_posterior_one stochastic_traceback_def stochastic_traceback_last_def
      stochastic_traceback_block_def sample_hmm_posterior_def sample_hmm_posterior_iter_def
      rd_def wr_def numeral_2_eq_2)

text \<open>
  Claim C7 fails in its second half: \<^verbatim>\<open>stochastic_traceback\<close> starts the running
  likelihood with the entry of the last column at the sampled state, not with its
  logarithm. On one block of one site with the last column \<open>[1/4, 3/4]\<close> and the state 1
  sampled, the value returned is \<open>3/4\<close>, and \<open>ln (3/4)\<close> is negative.
\<close>

theorem stochastic_traceback_first_lnl:
  "stochastic_traceback
     \<lparr>get_coal_states = (\<lambda>t n i. [\<lparr>node = 0, time = 0\<rparr>, \<lparr>node = 0, time = 1\<rparr>]),
      calc_state_priors = (\<lambda>s t i p a c. c), sample = (\<lambda>r A n. (1, Suc r)), fresh = 0\<rparr>
     \<lparr>start_coord = 0, end_coord = 1\<rparr> 3
     [\<lparr>block_tree = \<lparr>nnodes = 1, root_t = 0, nodes = [\<lparr>parent = -1, child = [-1, -1], age = 0\<rparr>]\<rparr>,
       block_start = 0,
       matrices = \<lparr>m_blocklen = 1, m_nstates2 = 2,
         m_transmat = \<lparr>internal = False, nstates = 2, get_time = (\<lambda>a b c m s. 1),
           get = (\<lambda>t s j k. 1), get_log = (\<lambda>t s j k. Fin 0)\<rparr>,
         m_transmat_switch = None, m_emit = [[1, 1]]\<rparr>\<rparr>]
     [[1/4, 3/4]] [7] False False 0 = Inr ([1], 3/4, Suc 0)
   \<and> ln (3/4 :: real) < 0"
  by (simp add: stochastic_traceback_def stochastic_traceback_last_def
      stochastic_traceback_block_def sample_hmm_posterior_def rd_def wr_def)

text \<open>
  Claim C8. For a block that is not the first and has no switch operator,
  \<^verbatim>\<open>arghmm_forward_alg\<close> applies no switch step: after allocating the columns of the
  block it runs the block step from the last column of the previous block
  (\<open>fw_block = &fw[pos - 1]\<close>) over \<open>blocklen + 1\<close> columns, with the emission pointer one
  site back. Running with the emission pointer one site back is running on the emission
  table with one more row in front, a row that is not read.
\<close>

theorem no_switch_continuation:
  assumes "rd blocks (int b) = Inr blk" "block_start blk > start_coord trees"
    "m_transmat_switch (matrices blk) = None"
  shows "forward_alg_block env trees ntimes prior_given intern slow b blocks fw =
     bindE (new_block env trees fw (block_start blk)
              (block_start blk + m_blocklen (matrices blk)) (m_nstates2 (matrices blk))) (\<lambda>fw1.
     bindE (assert_column fw1 (block_start blk - 1 - start_coord trees)
              (max (nstates (m_transmat (matrices blk))) 1)) (\<lambda>_.
     bindE ((if slow then arghmm_forward_block_slow else arghmm_forward_block)
              (block_tree blk) ntimes (m_blocklen (matrices blk) + 1)
              (get_coal_states env (block_tree blk) ntimes intern)
              (m_transmat (matrices blk)) (m_emit (matrices blk)) (-1)
              fw1 (block_start blk - 1 - start_coord trees)) (\<lambda>fw3.
     bindE (assert_column fw3
              (block_start blk + m_blocklen (matrices blk) - 1 - start_coord trees)
              (max (nstates (m_transmat (matrices blk))) 1)) (\<lambda>_. Inr fw3))))
   \<and> (if slow then arghmm_forward_block_slow else arghmm_forward_block)
        tree ntimes blocklen states matrix emit (-1) fw' fo
     = (if slow then arghmm_forward_block_slow else arghmm_forward_block)
        tree ntimes blocklen states matrix (e0 # emit) 0 fw' fo"
  using forward_alg_block_no_switch [OF assms] forward_block_shift forward_block_slow_shift
  by simp

lemma ex_continuation:
  "bindE (new_block
       \<lparr>get_coal_states = (\<lambda>t n i. [\<lparr>node = 0, time = 0\<rparr>]),
        calc_state_priors = (\<lambda>s t i p a c. c), sample = (\<lambda>r A n. (0, Suc r)), fresh = 0\<rparr>
       \<lparr>start_coord = 0, end_coord = 2\<rparr> [[1], []] 1 (1 + 1) 1) (\<lambda>fw1.
     bindE (assert_column fw1 (1 - 1 - 0) (max 1 1)) (\<lambda>_.
     bindE (arghmm_forward_block
              \<lparr>nnodes = 1, root_t = 0, nodes = [\<lparr>parent = -1, child = [-1, -1], age = 0\<rparr>]\<rparr>
              2 (1 + 1) [\<lparr>node = 0, time = 0\<rparr>]
              \<lparr>internal = False, nstates = 1, get_time = (\<lambda>a b c m s. 1),
               get = (\<lambda>t s j k. 1), get_log = (\<lambda>t s j k. Fin 0)\<rparr>
              [[1/2]] (-1) fw1 (1 - 1 - 0)) (\<lambda>fw3.
     bindE (assert_column fw3 (1 + 1 - 1 - 0) (max 1 1)) (\<lambda>_. Inr fw3))))
   = Inr [[1], [1]]"
  by (simp add: new_block_def assert_column_def max_array_def arghmm_forward_block_def
      block_special_def make_tmatrix2_def tmatrix2_cell_def node_age_def branch_ages_def
      lookup_def states_maxtime_def make_tmatrix_def forward_block_step_def
      forward_block_column_def forward_block_fill_def fgroups_step_def
      tmatrix_fgroups_cell_def fill_column_step_def same_branch_step_def normalize_col_def
      rd_def wr_def numeral_2_eq_2)

theorem no_switch_continuation_witness:
  "rd [\<lparr>block_tree = \<lparr>nnodes = 1, root_t = 0, nodes = [\<lparr>parent = -1, child = [-1, -1], age = 0\<rparr>]\<rparr>,
        block_start = 0,
        matrices = \<lparr>m_blocklen = 1, m_nstates2 = 1,
          m_transmat = \<lparr>internal = False, nstates = 1, get_time = (\<lambda>a b c m s. 1),
            get = (\<lambda>t s j k. 1), get_log = (\<lambda>t s j k. Fin 0)\<rparr>,
          m_transmat_switch = None, m_emit = [[1/2]]\<rparr>\<rparr>,
       \<lparr>block_tree = \<lparr>nnodes = 1, root_t = 0, nodes = [\<lparr>parent = -1, child = [-1, -1], age = 0\<rparr>]\<rparr>,
        block_start = 1,
        matrices = \<lparr>m_blocklen = 1, m_nstates2 = 1,
          m_transmat = \<lparr>internal = False, nstates = 1, get_time = (\<lambda>a b c m s. 1),
            get = (\<lambda>t s j k. 1), get_log = (\<lambda>t s j k. Fin 0)\<rparr>,
          m_transmat_switch = None, m_emit = [[1/2]]\<rparr>\<rparr>] (int 1)
     = Inr \<lparr>block_tree = \<lparr>nnodes = 1, root_t = 0, nodes = [\<lparr>parent = -1, child = [-1, -1], age = 0\<rparr>]\<rparr>,
        block_start = 1,
        matrices = \<lparr>m_blocklen = 1, m_nstates2 = 1,
          m_transmat = \<lparr>internal = False, nstates = 1, get_time = (\<lambda>a b c m s. 1),
            get = (\<lambda>t s j k. 1), get_log = (\<lambda>t s j k. Fin 0)\<rparr>,
          m_transmat_switch = None, m_emit = [[1/2]]\<rparr>\<rparr>
   \<and> forward_alg_block
       \<lparr>get_coal_states = (\<lambda>t n i. [\<lparr>node = 0, time = 0\<rparr>]),
        calc_state_priors = (\<lambda>s t i p a c. c), sample = (\<lambda>r A n. (0, Suc r)), fresh = 0\<rparr>
       \<lparr>start_coord = 0, end_coord = 2\<rparr> 2 True False False 1
      [\<lparr>block_tree = \<lparr>nnodes = 1, root_t = 0, nodes = [\<lparr>parent = -1, child = [-1, -1], age = 0\<rparr>]\<rparr>,
        block_start = 0,
        matrices = \<lparr>m_blocklen = 1, m_nstates2 = 1,
          m_transmat = \<lparr>internal = False, nstates = 1, get_time = (\<lambda>a b c m s. 1),
            get = (\<lambda>t s j k. 1), get_log = (\<lambda>t s j k. Fin 0)\<rparr>,
          m_transmat_switch = None, m_emit = [[1/2]]\<rparr>\<rparr>,
       \<lparr>block_tree = \<lparr>nnodes = 1, root_t = 0, nodes = [\<lparr>parent = -1, child = [-1, -1], age = 0\<rparr>]\<rparr>,
        block_start = 1,
        matrices = \<lparr>m_blocklen = 1, m_nstates2 = 1,
          m_transmat = \<lparr>internal = False, nstates = 1, get_time = (\<lambda>a b c m s. 1),
            get = (\<lambda>t s j k. 1), get_log = (\<lambda>t s j k. Fin 0)\<rparr>,
          m_transmat_switch = None, m_emit = [[1/2]]\<rparr>\<rparr>]
      [[1], []] = Inr [[1], [1]]"
proof -
  let ?T = "\<lparr>nnodes = 1, root_t = 0, nodes = [\<lparr>parent = -1, child = [-1, -1], age = 0\<rparr>]\<rparr>"
  let ?M = "\<lparr>m_blocklen = 1, m_nstates2 = 1,
          m_transmat = \<lparr>internal = False, nstates = 1, get_time = (\<lambda>a b c m s. 1),
            get = (\<lambda>t s j k. 1), get_log = (\<lambda>t s j k. Fin 0)\<rparr>,
          m_transmat_switch = None, m_emit = [[1/2]]\<rparr>"
  let ?B0 = "\<lparr>block_tree = ?T, block_start = 0, matrices = ?M\<rparr>"
  let ?B1 = "\<lparr>block_tree = ?T, block_start = 1, matrices = ?M\<rparr>"
  let ?E = "\<lparr>get_coal_states = (\<lambda>t n i. [\<lparr>node = 0, time = 0\<rparr>]),
        calc_state_priors = (\<lambda>s t i p a c. c), sample = (\<lambda>r A n. (0, Suc r)), fresh = 0\<rparr>"
  let ?trees = "\<lparr>start_coord = 0, end_coord = 2\<rparr>"
  have r: "rd [?B0, ?B1] (int 1) = Inr ?B1" by (simp add: rd_def)
  have s: "block_start ?B1 > start_coord ?trees" by simp
  have n: "m_transmat_switch (matrices ?B1) = None" by simp
  have "forward_alg_block ?E ?trees 2 True False False 1 [?B0, ?B1] [[1], []] = Inr [[1], [1]]"
    using no_switch_continuation [OF r s n, of ?E 2 True False False "[[1], []]", THEN conjunct1]
      ex_continuation
    by simp
  with r show ?thesis by simp
qed

text \<open>
  Claim C9. In \<^verbatim>\<open>cond_sample_arg_thread\<close> the pinned start state is looked up in the
  states of the first block, and the call fails when the state is not among them; the
  first forward column is set to 1 at the index found and to 0 at the other states; and
  when the call returns, the first column is still that column and the forward entry at
  the start coordinate for the state of the path there is 1.
\<close>

theorem pinned_start_state:
  "(rd blocks 0 = Inr blk \<longrightarrow>
      start_state \<notin> set (get_coal_states env (block_tree blk) ntimes False) \<longrightarrow>
      (\<exists>e. cond_sample_arg_thread env trees ntimes blocks path0 start_state end_state rng = Inl e))
   \<and> (pin_first_column env trees ntimes blocks start_state = Inr fw0 \<longrightarrow>
      (\<exists>blk col. rd blocks 0 = Inr blk \<and> rd fw0 0 = Inr col
         \<and> start_state \<in> set (get_coal_states env (block_tree blk) ntimes False)
         \<and> length (get_coal_states env (block_tree blk) ntimes False) \<le> length col
         \<and> (\<forall>k<length (get_coal_states env (block_tree blk) ntimes False).
              col ! k = (if int k = find_vector (get_coal_states env (block_tree blk) ntimes False)
                                      start_state then 1 else 0))))
   \<and> (cond_sample_arg_thread env trees ntimes blocks path0 start_state end_state rng
         = Inr (fw, path, rng') \<longrightarrow>
      (\<exists>s col fw1. rd path 0 = Inr s \<and> rd fw 0 = Inr col \<and> rd col s = Inr 1
         \<and> pin_first_column env trees ntimes blocks start_state = Inr fw1
         \<and> rd fw1 0 = Inr col))"
proof (intro conjI impI)
  assume "rd blocks 0 = Inr blk"
    "start_state \<notin> set (get_coal_states env (block_tree blk) ntimes False)"
  then show "\<exists>e. cond_sample_arg_thread env trees ntimes blocks path0 start_state end_state rng
      = Inl e"
    by (rule cond_sample_absent)
next
  assume "pin_first_column env trees ntimes blocks start_state = Inr fw0"
  then show "\<exists>blk col. rd blocks 0 = Inr blk \<and> rd fw0 0 = Inr col
         \<and> start_state \<in> set (get_coal_states env (block_tree blk) ntimes False)
         \<and> length (get_coal_states env (block_tree blk) ntimes False) \<le> length col
         \<and> (\<forall>k<length (get_coal_states env (block_tree blk) ntimes False).
              col ! k = (if int k = find_vector (get_coal_states env (block_tree blk) ntimes False)
                                      start_state then 1 else 0))"
    by (rule pin_first_column_result)
next
  assume a: "cond_sample_arg_thread env trees ntimes blocks path0 start_state end_state rng
         = Inr (fw, path, rng')"
  from cond_sample_entry [OF a] obtain s col where
    e: "rd path 0 = Inr s" "rd fw 0 = Inr col" "rd col s = Inr 1" by blast
  from a obtain fw1 where p: "pin_first_column env trees ntimes blocks start_state = Inr fw1"
    and f: "arghmm_forward_alg env trees ntimes blocks fw1 True False False = Inr fw"
    unfolding cond_sample_arg_thread_def Let_def
    by (auto simp: bindE_Inr_iff split: if_splits)
  from forward_alg_first [OF f] e(2) have "rd fw1 0 = Inr col" by simp
  with e p show "\<exists>s col fw1. rd path 0 = Inr s \<and> rd fw 0 = Inr col \<and> rd col s = Inr 1
         \<and> pin_first_column env trees ntimes blocks start_state = Inr fw1
         \<and> rd fw1 0 = Inr col" by blast
qed

lemma ex_pin:
  "pin_first_column
     \<lparr>get_coal_states = (\<lambda>t n i. [\<lparr>node = 0, time = 0\<rparr>, \<lparr>node = 0, time = 1\<rparr>]),
      calc_state_priors = (\<lambda>s t i p a c. c), sample = (\<lambda>r A n. (0, Suc r)), fresh = 0\<rparr>
     \<lparr>start_coord = 0, end_coord = 2\<rparr> 3
     [\<lparr>block_tree = \<lparr>nnodes = 1, root_t = 0, nodes = [\<lparr>parent = -1, child = [-1, -1], age = 0\<rparr>]\<rparr>,
       block_start = 0,
       matrices = \<lparr>m_blocklen = 2, m_nstates2 = 2,
         m_transmat = \<lparr>internal = False, nstates = 2, get_time = (\<lambda>a b c m s. 1),
           get = (\<lambda>t s j k. 1), get_log = (\<lambda>t s j k. Fin 0)\<rparr>,
         m_transmat_switch = None, m_emit = [[1, 1], [1, 1]]\<rparr>\<rparr>]
     \<lparr>node = 0, time = 0\<rparr> = Inr [[1, 0], [0, 0]]"
  by (simp add: pin_first_column_def new_table_def new_block_def find_vector_def
      rd_def wr_def numeral_2_eq_2)

lemma ex_cond:
  "cond_sample_arg_thread
     \<lparr>get_coal_states = (\<lambda>t n i. [\<lparr>node = 0, time = 0\<rparr>, \<lparr>node = 0, time = 1\<rparr>]),
      calc_state_priors = (\<lambda>s t i p a c. c), sample = (\<lambda>r A n. (0, Suc r)), fresh = 0\<rparr>
     \<lparr>start_coord = 0, end_coord = 2\<rparr> 3
     [\<lparr>block_tree = \<lparr>nnodes = 1, root_t = 0, nodes = [\<lparr>parent = -1, child = [-1, -1], age = 0\<rparr>]\<rparr>,
       block_start = 0,
       matrices = \<lparr>m_blocklen = 2, m_nstates2 = 2,
         m_transmat = \<lparr>internal = False, nstates = 2, get_time = (\<lambda>a b c m s. 1),
           get = (\<lambda>t s j k. 1), get_log = (\<lambda>t s j k. Fin 0)\<rparr>,
         m_transmat_switch = None, m_emit = [[1, 1], [1, 1]]\<rparr>\<rparr>]
     [7, 7] \<lparr>node = 0, time = 0\<rparr> \<lparr>node = 0, time = 1\<rparr> 0
   = Inr ([[1, 0], [1/2, 1/2]], [0, 1], Suc 0)"
  unfolding cond_sample_arg_thread_def ex_pin
  by (simp add: arghmm_forward_alg_def forward_alg_block_def forward_first_column_def
      assert_column_def max_array_def arghmm_forward_block_def
      block_special_def make_tmatrix2_def tmatrix2_cell_def node_age_def branch_ages_def
      lookup_def states_maxtime_def make_tmatrix_def forward_block_step_def
      forward_block_column_def forward_block_fill_def fgroups_step_def
      tmatrix_fgroups_cell_def fill_column_step_def same_branch_step_def normalize_col_def
      find_vector_def stochastic_traceback_def stochastic_traceback_last_def
      stochastic_traceback_block_def sample_hmm_posterior_def sample_hmm_posterior_iter_def
      rd_def wr_def numeral_2_eq_2 numeral_3_eq_3)


theorem pinned_start_state_witness:
  "rd [\<lparr>block_tree = \<lparr>nnodes = 1, root_t = 0, nodes = [\<lparr>parent = -1, child = [-1, -1], age = 0\<rparr>]\<rparr>,
       block_start = 0,
       matrices = \<lparr>m_blocklen = 2, m_nstates2 = 2,
         m_transmat = \<lparr>internal = False, nstates = 2, get_time = (\<lambda>a b c m s. 1),
           get = (\<lambda>t s j k. 1), get_log = (\<lambda>t s j k. Fin 0)\<rparr>,
         m_transmat_switch = None, m_emit = [[1, 1], [1, 1]]\<rparr>\<rparr>] 0 = Inr \<lparr>block_tree = \<lparr>nnodes = 1, root_t = 0, nodes = [\<lparr>parent = -1, child = [-1, -1], age = 0\<rparr>]\<rparr>,
       block_start = 0,
       matrices = \<lparr>m_blocklen = 2, m_nstates2 = 2,
         m_transmat = \<lparr>internal = False, nstates = 2, get_time = (\<lambda>a b c m s. 1),
           get = (\<lambda>t s j k. 1), get_log = (\<lambda>t s j k. Fin 0)\<rparr>,
         m_transmat_switch = None, m_emit = [[1, 1], [1, 1]]\<rparr>\<rparr>
   \<and> \<lparr>node = 5, time = 5\<rparr> \<notin> set (get_coal_states \<lparr>get_coal_states = (\<lambda>t n i. [\<lparr>node = 0, time = 0\<rparr>, \<lparr>node = 0, time = 1\<rparr>]),
      calc_state_priors = (\<lambda>s t i p a c. c), sample = (\<lambda>r A n. (0, Suc r)), fresh = 0\<rparr> (block_tree \<lparr>block_tree = \<lparr>nnodes = 1, root_t = 0, nodes = [\<lparr>parent = -1, child = [-1, -1], age = 0\<rparr>]\<rparr>,
       block_start = 0,
       matrices = \<lparr>m_blocklen = 2, m_nstates2 = 2,
         m_transmat = \<lparr>internal = False, nstates = 2, get_time = (\<lambda>a b c m s. 1),
           get = (\<lambda>t s j k. 1), get_log = (\<lambda>t s j k. Fin 0)\<rparr>,
         m_transmat_switch = None, m_emit = [[1, 1], [1, 1]]\<rparr>\<rparr>) 3 False)
   \<and> (\<exists>e. cond_sample_arg_thread \<lparr>get_coal_states = (\<lambda>t n i. [\<lparr>node = 0, time = 0\<rparr>, \<lparr>node = 0, time = 1\<rparr>]),
      calc_state_priors = (\<lambda>s t i p a c. c), sample = (\<lambda>r A n. (0, Suc r)), fresh = 0\<rparr> \<lparr>start_coord = 0, end_coord = 2\<rparr> 3 [\<lparr>block_tree = \<lparr>nnodes = 1, root_t = 0, nodes = [\<lparr>parent = -1, child = [-1, -1], age = 0\<rparr>]\<rparr>,
       block_start = 0,
       matrices = \<lparr>m_blocklen = 2, m_nstates2 = 2,
         m_transmat = \<lparr>internal = False, nstates = 2, get_time = (\<lambda>a b c m s. 1),
           get = (\<lambda>t s j k. 1), get_log = (\<lambda>t s j k. Fin 0)\<rparr>,
         m_transmat_switch = None, m_emit = [[1, 1], [1, 1]]\<rparr>\<rparr>] [7, 7]
         \<lparr>node = 5, time = 5\<rparr> \<lparr>node = 0, time = 1\<rparr> 0 = Inl e)
   \<and> pin_first_column \<lparr>get_coal_states = (\<lambda>t n i. [\<lparr>node = 0, time = 0\<rparr>, \<lparr>node = 0, time = 1\<rparr>]),
      calc_state_priors = (\<lambda>s t i p a c. c), sample = (\<lambda>r A n. (0, Suc r)), fresh = 0\<rparr> \<lparr>start_coord = 0, end_coord = 2\<rparr> 3 [\<lparr>block_tree = \<lparr>nnodes = 1, root_t = 0, nodes = [\<lparr>parent = -1, child = [-1, -1], age = 0\<rparr>]\<rparr>,
       block_start = 0,
       matrices = \<lparr>m_blocklen = 2, m_nstates2 = 2,
         m_transmat = \<lparr>internal = False, nstates = 2, get_time = (\<lambda>a b c m s. 1),
           get = (\<lambda>t s j k. 1), get_log = (\<lambda>t s j k. Fin 0)\<rparr>,
         m_transmat_switch = None, m_emit = [[1, 1], [1, 1]]\<rparr>\<rparr>] \<lparr>node = 0, time = 0\<rparr> = Inr [[1, 0], [0, 0]]
   \<and> cond_sample_arg_thread \<lparr>get_coal_states = (\<lambda>t n i. [\<lparr>node = 0, time = 0\<rparr>, \<lparr>node = 0, time = 1\<rparr>]),
      calc_state_priors = (\<lambda>s t i p a c. c), sample = (\<lambda>r A n. (0, Suc r)), fresh = 0\<rparr> \<lparr>start_coord = 0, end_coord = 2\<rparr> 3 [\<lparr>block_tree = \<lparr>nnodes = 1, root_t = 0, nodes = [\<lparr>parent = -1, child = [-1, -1], age = 0\<rparr>]\<rparr>,
       block_start = 0,
       matrices = \<lparr>m_blocklen = 2, m_nstates2 = 2,
         m_transmat = \<lparr>internal = False, nstates = 2, get_time = (\<lambda>a b c m s. 1),
           get = (\<lambda>t s j k. 1), get_log = (\<lambda>t s j k. Fin 0)\<rparr>,
         m_transmat_switch = None, m_emit = [[1, 1], [1, 1]]\<rparr>\<rparr>] [7, 7]
         \<lparr>node = 0, time = 0\<rparr> \<lparr>node = 0, time = 1\<rparr> 0
       = Inr ([[1, 0], [1/2, 1/2]], [0, 1], Suc 0)
   \<and> (\<exists>s col fw1. rd [0, 1] 0 = Inr s \<and> rd [[1, 0], [1/2, 1/2]] 0 = Inr col
         \<and> rd col s = Inr (1::real)
         \<and> pin_first_column \<lparr>get_coal_states = (\<lambda>t n i. [\<lparr>node = 0, time = 0\<rparr>, \<lparr>node = 0, time = 1\<rparr>]),
      calc_state_priors = (\<lambda>s t i p a c. c), sample = (\<lambda>r A n. (0, Suc r)), fresh = 0\<rparr> \<lparr>start_coord = 0, end_coord = 2\<rparr> 3 [\<lparr>block_tree = \<lparr>nnodes = 1, root_t = 0, nodes = [\<lparr>parent = -1, child = [-1, -1], age = 0\<rparr>]\<rparr>,
       block_start = 0,
       matrices = \<lparr>m_blocklen = 2, m_nstates2 = 2,
         m_transmat = \<lparr>internal = False, nstates = 2, get_time = (\<lambda>a b c m s. 1),
           get = (\<lambda>t s j k. 1), get_log = (\<lambda>t s j k. Fin 0)\<rparr>,
         m_transmat_switch = None, m_emit = [[1, 1], [1, 1]]\<rparr>\<rparr>] \<lparr>node = 0, time = 0\<rparr> = Inr fw1
         \<and> rd fw1 0 = Inr col)"
proof -
  let ?E = "\<lparr>get_coal_states = (\<lambda>t n i. [\<lparr>node = 0, time = 0\<rparr>, \<lparr>node = 0, time = 1\<rparr>]),
      calc_state_priors = (\<lambda>s t i p a c. c), sample = (\<lambda>r A n. (0, Suc r)), fresh = 0\<rparr>"
  let ?T = "\<lparr>start_coord = 0, end_coord = 2\<rparr>"
  let ?B = "\<lparr>block_tree = \<lparr>nnodes = 1, root_t = 0, nodes = [\<lparr>parent = -1, child = [-1, -1], age = 0\<rparr>]\<rparr>,
       block_start = 0,
       matrices = \<lparr>m_blocklen = 2, m_nstates2 = 2,
         m_transmat = \<lparr>internal = False, nstates = 2, get_time = (\<lambda>a b c m s. 1),
           get = (\<lambda>t s j k. 1), get_log = (\<lambda>t s j k. Fin 0)\<rparr>,
         m_transmat_switch = None, m_emit = [[1, 1], [1, 1]]\<rparr>\<rparr>"
  have r: "rd [?B] 0 = Inr ?B" by (simp add: rd_def)
  have n: "\<lparr>node = 5, time = 5\<rparr> \<notin> set (get_coal_states ?E (block_tree ?B) 3 False)" by simp
  have a: "\<exists>e. cond_sample_arg_thread ?E ?T 3 [?B] [7, 7]
         \<lparr>node = 5, time = 5\<rparr> \<lparr>node = 0, time = 1\<rparr> 0 = Inl e"
    using pinned_start_state [where blocks = "[?B]" and blk = ?B and env = ?E and ntimes = 3
        and start_state = "\<lparr>node = 5, time = 5\<rparr>", THEN conjunct1, rule_format, OF r n] .
  have b: "\<exists>s col fw1. rd [0, 1] 0 = Inr s \<and> rd [[1, 0], [1/2, 1/2]] 0 = Inr col
         \<and> rd col s = Inr (1::real)
         \<and> pin_first_column ?E ?T 3 [?B] \<lparr>node = 0, time = 0\<rparr> = Inr fw1
         \<and> rd fw1 0 = Inr col"
    using pinned_start_state [THEN conjunct2, THEN conjunct2, rule_format, OF ex_cond] .
  from r n a b ex_pin ex_cond show ?thesis by blast
qed

text \<open>
  Claim C1. Whenever \<^verbatim>\<open>calc_emissions\<close> returns an emission table, so does
  \<^verbatim>\<open>calc_emissions_slow\<close> on the same states, tree, sequences and model, and the two
  tables agree at every site and state within the relative tolerance \<open>1e-4\<close> or the
  absolute tolerance \<open>1e-12\<close>: they are the same table, since \<^verbatim>\<open>calc_emissions\<close> calls
  \<^verbatim>\<open>likelihood_sites\<close> with the full postorder as well.
\<close>

theorem calc_emissions_agrees_with_slow:
  assumes "calc_emissions fuel ops states tree seqs nseqs seqlen model junk emit = Inr e1"
  shows "\<exists>e2. calc_emissions_slow fuel ops states tree seqs nseqs seqlen model junk emit = Inr e2
           \<and> e2 = e1
           \<and> list_all2 (list_all2 (\<lambda>x y. fequal x y (1 / 10 ^ 4) (1 / 10 ^ 12))) e1 e2"
proof -
  have "list_all2 (list_all2 (\<lambda>x y. fequal x y (1 / 10 ^ 4) (1 / 10 ^ 12))) e1 e1"
    by (intro list_all2_refl fequal_refl)
  with calc_emissions_agree [OF assms] show ?thesis by simp
qed

lemma ex_calc_emissions:
  "calc_emissions 0
     \<lparr>dna2int = (\<lambda>c. if c = CHR ''A'' then 0 else if c = CHR ''C'' then 1
                     else if c = CHR ''G'' then 2 else if c = CHR ''T'' then 3 else -1),
      get_postorder = (\<lambda>t. [0, 1, 2]), get_sibling = (\<lambda>t j. 0), get_dist = (\<lambda>t j ts. 0),
      get_num_leaves = (\<lambda>t. 1), is_leaf = (\<lambda>n. child n = [-1, -1]),
      copy_tree = (\<lambda>t c. t),
      add_tree_branch = (\<lambda>t n tm. \<lparr>nnodes = 3, root_t = 2,
         nodes = [\<lparr>parent = 2, child = [-1, -1], age = 0\<rparr>,
                  \<lparr>parent = 2, child = [-1, -1], age = 0\<rparr>,
                  \<lparr>parent = -1, child = [0, 1], age = tm\<rparr>]\<rparr>),
      remove_tree_branch = (\<lambda>t l. \<lparr>nnodes = 1, root_t = 0,
         nodes = [\<lparr>parent = -1, child = [-1, -1], age = 0\<rparr>]\<rparr>)\<rparr>
     [\<lparr>node = 0, time = 1\<rparr>]
     \<lparr>nnodes = 1, root_t = 0, nodes = [\<lparr>parent = -1, child = [-1, -1], age = 0\<rparr>]\<rparr>
     [''AC'', ''AA''] 2 2
     \<lparr>ntimes_m = 3, times_m = [0, 1, 2], mu = 1, mintime = 1/10, removed_root_time = 4\<rparr>
     0 [[0], [0]]
   = Inr [[exp (- 2) / 4],
          [(1 - exp (- (4 / 3))) * (1 - exp (- (4 / 3))) / 32 +
           (1 - exp (- (4 / 3))) * (1 + 3 * exp (- (4 / 3))) / 32]]"
  by (simp add: calc_emissions_def find_invariant_sites_def invariant_site_def
      calc_emissions_step_def new_likelihood_table_def likelihood_sites_def sites_order_def
      tree_muts_def muts_step_def branch_len_def node_age_def sites_step_def set_cell_def
      invariant_lk_def likelihood_site_inner_def likelihood_site_node_inner_def
      inner_cell_def branch_term_def branch_sum_def prob_branch_def rd_def wr_def
      eval_nat_numeral)

theorem calc_emissions_agrees_with_slow_witness:
  "calc_emissions 0
     \<lparr>dna2int = (\<lambda>c. if c = CHR ''A'' then 0 else if c = CHR ''C'' then 1
                     else if c = CHR ''G'' then 2 else if c = CHR ''T'' then 3 else -1),
      get_postorder = (\<lambda>t. [0, 1, 2]), get_sibling = (\<lambda>t j. 0), get_dist = (\<lambda>t j ts. 0),
      get_num_leaves = (\<lambda>t. 1), is_leaf = (\<lambda>n. child n = [-1, -1]),
      copy_tree = (\<lambda>t c. t),
      add_tree_branch = (\<lambda>t n tm. \<lparr>nnodes = 3, root_t = 2,
         nodes = [\<lparr>parent = 2, child = [-1, -1], age = 0\<rparr>,
                  \<lparr>parent = 2, child = [-1, -1], age = 0\<rparr>,
                  \<lparr>parent = -1, child = [0, 1], age = tm\<rparr>]\<rparr>),
      remove_tree_branch = (\<lambda>t l. \<lparr>nnodes = 1, root_t = 0,
         nodes = [\<lparr>parent = -1, child = [-1, -1], age = 0\<rparr>]\<rparr>)\<rparr>
     [\<lparr>node = 0, time = 1\<rparr>]
     \<lparr>nnodes = 1, root_t = 0, nodes = [\<lparr>parent = -1, child = [-1, -1], age = 0\<rparr>]\<rparr>
     [''AC'', ''AA''] 2 2
     \<lparr>ntimes_m = 3, times_m = [0, 1, 2], mu = 1, mintime = 1/10, removed_root_time = 4\<rparr>
     0 [[0], [0]]
   = Inr [[exp (- 2) / 4],
          [(1 - exp (- (4 / 3))) * (1 - exp (- (4 / 3))) / 32 +
           (1 - exp (- (4 / 3))) * (1 + 3 * exp (- (4 / 3))) / 32]]
   \<and> (\<exists>e2. calc_emissions_slow 0
     \<lparr>dna2int = (\<lambda>c. if c = CHR ''A'' then 0 else if c = CHR ''C'' then 1
                     else if c = CHR ''G'' then 2 else if c = CHR ''T'' then 3 else -1),
      get_postorder = (\<lambda>t. [0, 1, 2]), get_sibling = (\<lambda>t j. 0), get_dist = (\<lambda>t j ts. 0),
      get_num_leaves = (\<lambda>t. 1), is_leaf = (\<lambda>n. child n = [-1, -1]),
      copy_tree = (\<lambda>t c. t),
      add_tree_branch = (\<lambda>t n tm. \<lparr>nnodes = 3, root_t = 2,
         nodes = [\<lparr>parent = 2, child = [-1, -1], age = 0\<rparr>,
                  \<lparr>parent = 2, child = [-1, -1], age = 0\<rparr>,
                  \<lparr>parent = -1, child = [0, 1], age = tm\<rparr>]\<rparr>),
      remove_tree_branch = (\<lambda>t l. \<lparr>nnodes = 1, root_t = 0,
         nodes = [\<lparr>parent = -1, child = [-1, -1], age = 0\<rparr>]\<rparr>)\<rparr>
     [\<lparr>node = 0, time = 1\<rparr>]
     \<lparr>nnodes = 1, root_t = 0, nodes = [\<lparr>parent = -1, child = [-1, -1], age = 0\<rparr>]\<rparr>
     [''AC'', ''AA''] 2 2
     \<lparr>ntimes_m = 3, times_m = [0, 1, 2], mu = 1, mintime = 1/10, removed_root_time = 4\<rparr>
     0 [[0], [0]]
       = Inr e2
       \<and> e2 = [[exp (- 2) / 4],
          [(1 - exp (- (4 / 3))) * (1 - exp (- (4 / 3))) / 32 +
           (1 - exp (- (4 / 3))) * (1 + 3 * exp (- (4 / 3))) / 32]]
       \<and> list_all2 (list_all2 (\<lambda>x y. fequal x y (1 / 10 ^ 4) (1 / 10 ^ 12)))
           [[exp (- 2) / 4],
          [(1 - exp (- (4 / 3))) * (1 - exp (- (4 / 3))) / 32 +
           (1 - exp (- (4 / 3))) * (1 + 3 * exp (- (4 / 3))) / 32]] e2)"
  using calc_emissions_agrees_with_slow [OF ex_calc_emissions] ex_calc_emissions
  by blast

text \<open>
  Claim C4, as amended. At an invariant site the emission of a state is
  \<open>1/4 * exp (- mu * max treelen mintime)\<close>, where \<open>treelen\<close> belongs to the state. In
  \<^verbatim>\<open>likelihood_sites\<close> it is the sum of the floored branch lengths of the tree the
  function is given, which in \<^verbatim>\<open>calc_emissions\<close> is the tree with the branch of the state
  added. In \<^verbatim>\<open>calc_emissions_internal\<close>, on a tree whose arrays hold the maintree and the
  subtree and with fuel for their nodes, the call returns its table, and \<open>treelen\<close> is the
  sum of the floored branch lengths of the maintree plus that of the subtree plus the
  floored length of the new branch from the subtree root to the coalescence time of the
  state (plus the floored length above the maintree root when the state is on the maintree
  root). The tree length depends on the state, and the column of an invariant site is not
  constant across the states.
\<close>

theorem invariant_site_emission:
  "(likelihood_sites fuel ops tree model seqs seqlen statei (Some ivs) junk emit table
       prev_node new_node = Inr (emit1, table1) \<longrightarrow>
     i < nat seqlen \<longrightarrow> rd ivs (int i) = Inr True \<longrightarrow>
     cell emit1 (int i) statei = Inr (invariant_lk model (tree_length tree model)))
   \<and> (calc_emissions fuel ops states tree seqs nseqs seqlen model junk emit = Inr emit2 \<longrightarrow>
     j < length states \<longrightarrow> i < nat seqlen \<longrightarrow> invariant_site seqs nseqs i = Inr True \<longrightarrow>
     cell emit2 (int i) (int j)
       = Inr (invariant_lk model (tree_length (augmented_tree ops tree states j) model)))
   \<and> (internal_wf ops states tree seqs nseqs seqlen model emit msh ssh \<longrightarrow>
     length (shape_nodes msh) \<le> fuel \<longrightarrow> length (shape_nodes ssh) \<le> fuel \<longrightarrow>
     (\<exists>emit3. calc_emissions_internal fuel ops states tree seqs nseqs seqlen model junk emit
                = Inr emit3
        \<and> (\<forall>j<length states. \<forall>i<nat seqlen. invariant_site seqs nseqs i = Inr True \<longrightarrow>
             cell emit3 (int i) (int j)
               = Inr (invariant_lk model
                        (internal_tree_length ops tree model msh ssh (states ! j))))))"
proof (intro conjI impI)
  assume "likelihood_sites fuel ops tree model seqs seqlen statei (Some ivs) junk emit table
       prev_node new_node = Inr (emit1, table1)" "i < nat seqlen" "rd ivs (int i) = Inr True"
  then show "cell emit1 (int i) statei = Inr (invariant_lk model (tree_length tree model))"
    by (rule likelihood_sites_invariant)
next
  assume "calc_emissions fuel ops states tree seqs nseqs seqlen model junk emit = Inr emit2"
    "j < length states" "i < nat seqlen" "invariant_site seqs nseqs i = Inr True"
  then show "cell emit2 (int i) (int j)
       = Inr (invariant_lk model (tree_length (augmented_tree ops tree states j) model))"
    by (rule calc_emissions_invariant)
next
  assume "internal_wf ops states tree seqs nseqs seqlen model emit msh ssh"
    "length (shape_nodes msh) \<le> fuel" "length (shape_nodes ssh) \<le> fuel"
  then show "\<exists>emit3. calc_emissions_internal fuel ops states tree seqs nseqs seqlen model junk emit
                = Inr emit3
        \<and> (\<forall>j<length states. \<forall>i<nat seqlen. invariant_site seqs nseqs i = Inr True \<longrightarrow>
             cell emit3 (int i) (int j)
               = Inr (invariant_lk model
                        (internal_tree_length ops tree model msh ssh (states ! j))))"
    by (rule calc_emissions_internal_cells)
qed

lemma ex_likelihood_sites:
  "likelihood_sites 0
     \<lparr>dna2int = (\<lambda>c. if c = CHR ''A'' then 0 else if c = CHR ''C'' then 1
                     else if c = CHR ''G'' then 2 else if c = CHR ''T'' then 3 else -1),
      get_postorder = (\<lambda>t. [0, 1, 2]), get_sibling = (\<lambda>t j. 0), get_dist = (\<lambda>t j ts. 0),
      get_num_leaves = (\<lambda>t. 1), is_leaf = (\<lambda>n. child n = [-1, -1]),
      copy_tree = (\<lambda>t c. t),
      add_tree_branch = (\<lambda>t n tm. \<lparr>nnodes = 3, root_t = 2,
         nodes = [\<lparr>parent = 2, child = [-1, -1], age = 0\<rparr>,
                  \<lparr>parent = 2, child = [-1, -1], age = 0\<rparr>,
                  \<lparr>parent = -1, child = [0, 1], age = tm\<rparr>]\<rparr>),
      remove_tree_branch = (\<lambda>t l. \<lparr>nnodes = 1, root_t = 0,
         nodes = [\<lparr>parent = -1, child = [-1, -1], age = 0\<rparr>]\<rparr>)\<rparr>
     \<lparr>nnodes = 3, root_t = 2,
         nodes = [\<lparr>parent = 2, child = [-1, -1], age = 0\<rparr>,
                  \<lparr>parent = 2, child = [-1, -1], age = 0\<rparr>,
                  \<lparr>parent = -1, child = [0, 1], age = 1\<rparr>]\<rparr>
     \<lparr>ntimes_m = 3, times_m = [0, 1, 2], mu = 1, mintime = 1/10, removed_root_time = 4\<rparr>
     [''A'', ''A''] 1 0 (Some [True]) 0 [[0]] [] (-1) (-1)
   = Inr ([[exp (- 2) / 4]], [])"
  by (simp add: likelihood_sites_def sites_order_def
      tree_muts_def muts_step_def branch_len_def node_age_def sites_step_def set_cell_def
      invariant_lk_def rd_def wr_def eval_nat_numeral)

lemma ex_calc_emissions_internal:
  "calc_emissions_internal 8
     \<lparr>dna2int = (\<lambda>c. if c = CHR ''A'' then 0 else if c = CHR ''C'' then 1
                     else if c = CHR ''G'' then 2 else if c = CHR ''T'' then 3 else -1),
      get_postorder = (\<lambda>t. [0, 1, 2, 3, 4]), get_sibling = (\<lambda>t j. if j = 0 then 1 else 0),
      get_dist = (\<lambda>t j ts. if parent (nodes t ! nat j) \<noteq> -1
                            then ts ! nat (age (nodes t ! nat (parent (nodes t ! nat j))))
                                 - ts ! nat (age (nodes t ! nat j))
                            else 0),
      get_num_leaves = (\<lambda>t. 3), is_leaf = (\<lambda>n. child n = [-1, -1]),
      copy_tree = (\<lambda>t c. t), add_tree_branch = (\<lambda>t n tm. t),
      remove_tree_branch = (\<lambda>t l. t)\<rparr>
     [\<lparr>node = 0, time = 0\<rparr>, \<lparr>node = 0, time = 1\<rparr>]
     \<lparr>nnodes = 5, root_t = 4,
      nodes = [\<lparr>parent = 3, child = [-1, -1], age = 0\<rparr>,
               \<lparr>parent = 3, child = [-1, -1], age = 0\<rparr>,
               \<lparr>parent = 4, child = [-1, -1], age = 0\<rparr>,
               \<lparr>parent = 4, child = [0, 1], age = 1\<rparr>,
               \<lparr>parent = -1, child = [2, 3], age = 5\<rparr>]\<rparr>
     [''A'', ''A'', ''A''] 3 1
     \<lparr>ntimes_m = 4, times_m = [0, 1, 2, 3], mu = 1, mintime = 1/10, removed_root_time = 5\<rparr>
     0 [[0, 0]]
   = Inr [[exp (- (21 / 10)) / 4, exp (- 3) / 4]]"
  by (simp add: calc_emissions_internal_def root_child_def find_invariant_sites_def
      invariant_site_def calc_inner_outer_def prob_tree_mutation_def
      prob_tree_mutation_step_def node_age_def new_likelihood_table_def subtree_len_def
      push_children_def internal_state_def internal_state_times_def internal_site_def
      internal_treelen_def invariant_lk_def set_cell_def prob_branch_def rd_def wr_def
      eval_nat_numeral)

lemma ex_internal_wf:
  "internal_wf
     \<lparr>dna2int = (\<lambda>c. if c = CHR ''A'' then 0 else if c = CHR ''C'' then 1
                     else if c = CHR ''G'' then 2 else if c = CHR ''T'' then 3 else -1),
      get_postorder = (\<lambda>t. [0, 1, 2, 3, 4]), get_sibling = (\<lambda>t j. if j = 0 then 1 else 0),
      get_dist = (\<lambda>t j ts. if parent (nodes t ! nat j) \<noteq> -1
                            then ts ! nat (age (nodes t ! nat (parent (nodes t ! nat j))))
                                 - ts ! nat (age (nodes t ! nat j))
                            else 0),
      get_num_leaves = (\<lambda>t. 3), is_leaf = (\<lambda>n. child n = [-1, -1]),
      copy_tree = (\<lambda>t c. t), add_tree_branch = (\<lambda>t n tm. t),
      remove_tree_branch = (\<lambda>t l. t)\<rparr>
     [\<lparr>node = 0, time = 0\<rparr>, \<lparr>node = 0, time = 1\<rparr>,
      \<lparr>node = 3, time = 2\<rparr>]
     \<lparr>nnodes = 5, root_t = 4,
      nodes = [\<lparr>parent = 3, child = [-1, -1], age = 0\<rparr>,
               \<lparr>parent = 3, child = [-1, -1], age = 0\<rparr>,
               \<lparr>parent = 4, child = [-1, -1], age = 0\<rparr>,
               \<lparr>parent = 4, child = [0, 1], age = 1\<rparr>,
               \<lparr>parent = -1, child = [2, 3], age = 5\<rparr>]\<rparr>
     [''AA'', ''AC'', ''AA''] 3 2
     \<lparr>ntimes_m = 4, times_m = [0, 1, 2, 3], mu = 1, mintime = 1/10, removed_root_time = 5\<rparr> [[0, 0, 0], [0, 0, 0]] (Bin 3 (Tip 0) (Tip 1)) (Tip 2)"
  by (simp add: internal_wf_def mut_ok_def node_ok_def base_ok_def outer_ok_def state_ok_def
      in_times_def eval_nat_numeral)

lemma ex_internal_lengths:
  "internal_tree_length \<lparr>dna2int = (\<lambda>c. if c = CHR ''A'' then 0 else if c = CHR ''C'' then 1
                     else if c = CHR ''G'' then 2 else if c = CHR ''T'' then 3 else -1),
      get_postorder = (\<lambda>t. [0, 1, 2, 3, 4]), get_sibling = (\<lambda>t j. if j = 0 then 1 else 0),
      get_dist = (\<lambda>t j ts. if parent (nodes t ! nat j) \<noteq> -1
                            then ts ! nat (age (nodes t ! nat (parent (nodes t ! nat j))))
                                 - ts ! nat (age (nodes t ! nat j))
                            else 0),
      get_num_leaves = (\<lambda>t. 3), is_leaf = (\<lambda>n. child n = [-1, -1]),
      copy_tree = (\<lambda>t c. t), add_tree_branch = (\<lambda>t n tm. t),
      remove_tree_branch = (\<lambda>t l. t)\<rparr>
     \<lparr>nnodes = 5, root_t = 4,
      nodes = [\<lparr>parent = 3, child = [-1, -1], age = 0\<rparr>,
               \<lparr>parent = 3, child = [-1, -1], age = 0\<rparr>,
               \<lparr>parent = 4, child = [-1, -1], age = 0\<rparr>,
               \<lparr>parent = 4, child = [0, 1], age = 1\<rparr>,
               \<lparr>parent = -1, child = [2, 3], age = 5\<rparr>]\<rparr>
     \<lparr>ntimes_m = 4, times_m = [0, 1, 2, 3], mu = 1, mintime = 1/10, removed_root_time = 5\<rparr> (Bin 3 (Tip 0) (Tip 1)) (Tip 2) \<lparr>node = 0, time = 0\<rparr> = 21 / 10"
  "internal_tree_length \<lparr>dna2int = (\<lambda>c. if c = CHR ''A'' then 0 else if c = CHR ''C'' then 1
                     else if c = CHR ''G'' then 2 else if c = CHR ''T'' then 3 else -1),
      get_postorder = (\<lambda>t. [0, 1, 2, 3, 4]), get_sibling = (\<lambda>t j. if j = 0 then 1 else 0),
      get_dist = (\<lambda>t j ts. if parent (nodes t ! nat j) \<noteq> -1
                            then ts ! nat (age (nodes t ! nat (parent (nodes t ! nat j))))
                                 - ts ! nat (age (nodes t ! nat j))
                            else 0),
      get_num_leaves = (\<lambda>t. 3), is_leaf = (\<lambda>n. child n = [-1, -1]),
      copy_tree = (\<lambda>t c. t), add_tree_branch = (\<lambda>t n tm. t),
      remove_tree_branch = (\<lambda>t l. t)\<rparr>
     \<lparr>nnodes = 5, root_t = 4,
      nodes = [\<lparr>parent = 3, child = [-1, -1], age = 0\<rparr>,
               \<lparr>parent = 3, child = [-1, -1], age = 0\<rparr>,
               \<lparr>parent = 4, child = [-1, -1], age = 0\<rparr>,
               \<lparr>parent = 4, child = [0, 1], age = 1\<rparr>,
               \<lparr>parent = -1, child = [2, 3], age = 5\<rparr>]\<rparr>
     \<lparr>ntimes_m = 4, times_m = [0, 1, 2, 3], mu = 1, mintime = 1/10, removed_root_time = 5\<rparr> (Bin 3 (Tip 0) (Tip 1)) (Tip 2) \<lparr>node = 0, time = 1\<rparr> = 3"
  "internal_tree_length \<lparr>dna2int = (\<lambda>c. if c = CHR ''A'' then 0 else if c = CHR ''C'' then 1
                     else if c = CHR ''G'' then 2 else if c = CHR ''T'' then 3 else -1),
      get_postorder = (\<lambda>t. [0, 1, 2, 3, 4]), get_sibling = (\<lambda>t j. if j = 0 then 1 else 0),
      get_dist = (\<lambda>t j ts. if parent (nodes t ! nat j) \<noteq> -1
                            then ts ! nat (age (nodes t ! nat (parent (nodes t ! nat j))))
                                 - ts ! nat (age (nodes t ! nat j))
                            else 0),
      get_num_leaves = (\<lambda>t. 3), is_leaf = (\<lambda>n. child n = [-1, -1]),
      copy_tree = (\<lambda>t c. t), add_tree_branch = (\<lambda>t n tm. t),
      remove_tree_branch = (\<lambda>t l. t)\<rparr>
     \<lparr>nnodes = 5, root_t = 4,
      nodes = [\<lparr>parent = 3, child = [-1, -1], age = 0\<rparr>,
               \<lparr>parent = 3, child = [-1, -1], age = 0\<rparr>,
               \<lparr>parent = 4, child = [-1, -1], age = 0\<rparr>,
               \<lparr>parent = 4, child = [0, 1], age = 1\<rparr>,
               \<lparr>parent = -1, child = [2, 3], age = 5\<rparr>]\<rparr>
     \<lparr>ntimes_m = 4, times_m = [0, 1, 2, 3], mu = 1, mintime = 1/10, removed_root_time = 5\<rparr> (Bin 3 (Tip 0) (Tip 1)) (Tip 2) \<lparr>node = 3, time = 2\<rparr> = 5"
  by (simp_all add: internal_tree_length_def shape_length_def floored_dist_def)

theorem invariant_site_emission_witness:
  "likelihood_sites 0
     \<lparr>dna2int = (\<lambda>c. if c = CHR ''A'' then 0 else if c = CHR ''C'' then 1
                     else if c = CHR ''G'' then 2 else if c = CHR ''T'' then 3 else -1),
      get_postorder = (\<lambda>t. [0, 1, 2]), get_sibling = (\<lambda>t j. 0), get_dist = (\<lambda>t j ts. 0),
      get_num_leaves = (\<lambda>t. 1), is_leaf = (\<lambda>n. child n = [-1, -1]),
      copy_tree = (\<lambda>t c. t),
      add_tree_branch = (\<lambda>t n tm. \<lparr>nnodes = 3, root_t = 2,
         nodes = [\<lparr>parent = 2, child = [-1, -1], age = 0\<rparr>,
                  \<lparr>parent = 2, child = [-1, -1], age = 0\<rparr>,
                  \<lparr>parent = -1, child = [0, 1], age = tm\<rparr>]\<rparr>),
      remove_tree_branch = (\<lambda>t l. \<lparr>nnodes = 1, root_t = 0,
         nodes = [\<lparr>parent = -1, child = [-1, -1], age = 0\<rparr>]\<rparr>)\<rparr>
     \<lparr>nnodes = 3, root_t = 2,
         nodes = [\<lparr>parent = 2, child = [-1, -1], age = 0\<rparr>,
                  \<lparr>parent = 2, child = [-1, -1], age = 0\<rparr>,
                  \<lparr>parent = -1, child = [0, 1], age = 1\<rparr>]\<rparr>
     \<lparr>ntimes_m = 3, times_m = [0, 1, 2], mu = 1, mintime = 1/10, removed_root_time = 4\<rparr>
     [''A'', ''A''] 1 0 (Some [True]) 0 [[0]] [] (-1) (-1)
   = Inr ([[exp (- 2) / 4]], [])
   \<and> cell [[exp (- 2) / 4]] (int 0) 0
       = Inr (invariant_lk \<lparr>ntimes_m = 3, times_m = [0, 1, 2], mu = 1, mintime = 1/10, removed_root_time = 4\<rparr>
               (tree_length \<lparr>nnodes = 3, root_t = 2,
         nodes = [\<lparr>parent = 2, child = [-1, -1], age = 0\<rparr>,
                  \<lparr>parent = 2, child = [-1, -1], age = 0\<rparr>,
                  \<lparr>parent = -1, child = [0, 1], age = 1\<rparr>]\<rparr>
                  \<lparr>ntimes_m = 3, times_m = [0, 1, 2], mu = 1, mintime = 1/10, removed_root_time = 4\<rparr>))
   \<and> calc_emissions 0
     \<lparr>dna2int = (\<lambda>c. if c = CHR ''A'' then 0 else if c = CHR ''C'' then 1
                     else if c = CHR ''G'' then 2 else if c = CHR ''T'' then 3 else -1),
      get_postorder = (\<lambda>t. [0, 1, 2]), get_sibling = (\<lambda>t j. 0), get_dist = (\<lambda>t j ts. 0),
      get_num_leaves = (\<lambda>t. 1), is_leaf = (\<lambda>n. child n = [-1, -1]),
      copy_tree = (\<lambda>t c. t),
      add_tree_branch = (\<lambda>t n tm. \<lparr>nnodes = 3, root_t = 2,
         nodes = [\<lparr>parent = 2, child = [-1, -1], age = 0\<rparr>,
                  \<lparr>parent = 2, child = [-1, -1], age = 0\<rparr>,
                  \<lparr>parent = -1, child = [0, 1], age = tm\<rparr>]\<rparr>),
      remove_tree_branch = (\<lambda>t l. \<lparr>nnodes = 1, root_t = 0,
         nodes = [\<lparr>parent = -1, child = [-1, -1], age = 0\<rparr>]\<rparr>)\<rparr>
     [\<lparr>node = 0, time = 1\<rparr>]
     \<lparr>nnodes = 1, root_t = 0, nodes = [\<lparr>parent = -1, child = [-1, -1], age = 0\<rparr>]\<rparr>
     [''AC'', ''AA''] 2 2
     \<lparr>ntimes_m = 3, times_m = [0, 1, 2], mu = 1, mintime = 1/10, removed_root_time = 4\<rparr>
     0 [[0], [0]]
   = Inr [[exp (- 2) / 4],
          [(1 - exp (- (4 / 3))) * (1 - exp (- (4 / 3))) / 32 +
           (1 - exp (- (4 / 3))) * (1 + 3 * exp (- (4 / 3))) / 32]]
   \<and> cell [[exp (- 2) / 4],
          [(1 - exp (- (4 / 3))) * (1 - exp (- (4 / 3))) / 32 +
           (1 - exp (- (4 / 3))) * (1 + 3 * exp (- (4 / 3))) / 32]] (int 0) (int 0)
       = Inr (invariant_lk \<lparr>ntimes_m = 3, times_m = [0, 1, 2], mu = 1, mintime = 1/10, removed_root_time = 4\<rparr>
               (tree_length (augmented_tree \<lparr>dna2int = (\<lambda>c. if c = CHR ''A'' then 0 else if c = CHR ''C'' then 1
                     else if c = CHR ''G'' then 2 else if c = CHR ''T'' then 3 else -1),
      get_postorder = (\<lambda>t. [0, 1, 2]), get_sibling = (\<lambda>t j. 0), get_dist = (\<lambda>t j ts. 0),
      get_num_leaves = (\<lambda>t. 1), is_leaf = (\<lambda>n. child n = [-1, -1]),
      copy_tree = (\<lambda>t c. t),
      add_tree_branch = (\<lambda>t n tm. \<lparr>nnodes = 3, root_t = 2,
         nodes = [\<lparr>parent = 2, child = [-1, -1], age = 0\<rparr>,
                  \<lparr>parent = 2, child = [-1, -1], age = 0\<rparr>,
                  \<lparr>parent = -1, child = [0, 1], age = tm\<rparr>]\<rparr>),
      remove_tree_branch = (\<lambda>t l. \<lparr>nnodes = 1, root_t = 0,
         nodes = [\<lparr>parent = -1, child = [-1, -1], age = 0\<rparr>]\<rparr>)\<rparr> \<lparr>nnodes = 1, root_t = 0, nodes = [\<lparr>parent = -1, child = [-1, -1], age = 0\<rparr>]\<rparr> [\<lparr>node = 0, time = 1\<rparr>] 0) \<lparr>ntimes_m = 3, times_m = [0, 1, 2], mu = 1, mintime = 1/10, removed_root_time = 4\<rparr>))
   \<and> internal_wf
     \<lparr>dna2int = (\<lambda>c. if c = CHR ''A'' then 0 else if c = CHR ''C'' then 1
                     else if c = CHR ''G'' then 2 else if c = CHR ''T'' then 3 else -1),
      get_postorder = (\<lambda>t. [0, 1, 2, 3, 4]), get_sibling = (\<lambda>t j. if j = 0 then 1 else 0),
      get_dist = (\<lambda>t j ts. if parent (nodes t ! nat j) \<noteq> -1
                            then ts ! nat (age (nodes t ! nat (parent (nodes t ! nat j))))
                                 - ts ! nat (age (nodes t ! nat j))
                            else 0),
      get_num_leaves = (\<lambda>t. 3), is_leaf = (\<lambda>n. child n = [-1, -1]),
      copy_tree = (\<lambda>t c. t), add_tree_branch = (\<lambda>t n tm. t),
      remove_tree_branch = (\<lambda>t l. t)\<rparr>
     [\<lparr>node = 0, time = 0\<rparr>, \<lparr>node = 0, time = 1\<rparr>,
      \<lparr>node = 3, time = 2\<rparr>]
     \<lparr>nnodes = 5, root_t = 4,
      nodes = [\<lparr>parent = 3, child = [-1, -1], age = 0\<rparr>,
               \<lparr>parent = 3, child = [-1, -1], age = 0\<rparr>,
               \<lparr>parent = 4, child = [-1, -1], age = 0\<rparr>,
               \<lparr>parent = 4, child = [0, 1], age = 1\<rparr>,
               \<lparr>parent = -1, child = [2, 3], age = 5\<rparr>]\<rparr>
     [''AA'', ''AC'', ''AA''] 3 2
     \<lparr>ntimes_m = 4, times_m = [0, 1, 2, 3], mu = 1, mintime = 1/10, removed_root_time = 5\<rparr> [[0, 0, 0], [0, 0, 0]] (Bin 3 (Tip 0) (Tip 1)) (Tip 2)
   \<and> length (shape_nodes (Bin 3 (Tip 0) (Tip 1))) \<le> 3 \<and> length (shape_nodes (Tip 2)) \<le> 3
   \<and> (\<exists>emit3. calc_emissions_internal 3
     \<lparr>dna2int = (\<lambda>c. if c = CHR ''A'' then 0 else if c = CHR ''C'' then 1
                     else if c = CHR ''G'' then 2 else if c = CHR ''T'' then 3 else -1),
      get_postorder = (\<lambda>t. [0, 1, 2, 3, 4]), get_sibling = (\<lambda>t j. if j = 0 then 1 else 0),
      get_dist = (\<lambda>t j ts. if parent (nodes t ! nat j) \<noteq> -1
                            then ts ! nat (age (nodes t ! nat (parent (nodes t ! nat j))))
                                 - ts ! nat (age (nodes t ! nat j))
                            else 0),
      get_num_leaves = (\<lambda>t. 3), is_leaf = (\<lambda>n. child n = [-1, -1]),
      copy_tree = (\<lambda>t c. t), add_tree_branch = (\<lambda>t n tm. t),
      remove_tree_branch = (\<lambda>t l. t)\<rparr>
     [\<lparr>node = 0, time = 0\<rparr>, \<lparr>node = 0, time = 1\<rparr>,
      \<lparr>node = 3, time = 2\<rparr>]
     \<lparr>nnodes = 5, root_t = 4,
      nodes = [\<lparr>parent = 3, child = [-1, -1], age = 0\<rparr>,
               \<lparr>parent = 3, child = [-1, -1], age = 0\<rparr>,
               \<lparr>parent = 4, child = [-1, -1], age = 0\<rparr>,
               \<lparr>parent = 4, child = [0, 1], age = 1\<rparr>,
               \<lparr>parent = -1, child = [2, 3], age = 5\<rparr>]\<rparr>
     [''AA'', ''AC'', ''AA''] 3 2
     \<lparr>ntimes_m = 4, times_m = [0, 1, 2, 3], mu = 1, mintime = 1/10, removed_root_time = 5\<rparr> 0 [[0, 0, 0], [0, 0, 0]] = Inr emit3
     \<and> cell emit3 (int 0) (int 0) = Inr (exp (- (21 / 10)) / 4)
     \<and> cell emit3 (int 0) (int 1) = Inr (exp (- 3) / 4)
     \<and> cell emit3 (int 0) (int 2) = Inr (exp (- 5) / 4))"
proof -
  have i1: "(0::nat) < nat 1" "(0::nat) < nat 2" by simp_all
  have r: "rd [True] (int 0) = Inr True" by (simp add: rd_def)
  have v2: "invariant_site [''AC'', ''AA''] 2 0 = Inr True"
    by (simp add: invariant_site_def rd_def eval_nat_numeral)
  have v3: "invariant_site [''AA'', ''AC'', ''AA''] 3 0 = Inr True"
    by (simp add: invariant_site_def rd_def eval_nat_numeral)
  have j2: "0 < length [\<lparr>node = 0, time = 1\<rparr>]" by simp
  have f: "length (shape_nodes (Bin 3 (Tip 0) (Tip 1))) \<le> 3" "length (shape_nodes (Tip 2)) \<le> 3" by simp_all
  note a = invariant_site_emission [THEN conjunct1, rule_format, OF ex_likelihood_sites i1(1) r]
  note b = invariant_site_emission [THEN conjunct2, THEN conjunct1, rule_format,
      OF ex_calc_emissions j2 i1(2) v2]
  from invariant_site_emission [THEN conjunct2, THEN conjunct2, rule_format,
      OF ex_internal_wf f, of 0]
  obtain emit3
    where c: "calc_emissions_internal 3
     \<lparr>dna2int = (\<lambda>c. if c = CHR ''A'' then 0 else if c = CHR ''C'' then 1
                     else if c = CHR ''G'' then 2 else if c = CHR ''T'' then 3 else -1),
      get_postorder = (\<lambda>t. [0, 1, 2, 3, 4]), get_sibling = (\<lambda>t j. if j = 0 then 1 else 0),
      get_dist = (\<lambda>t j ts. if parent (nodes t ! nat j) \<noteq> -1
                            then ts ! nat (age (nodes t ! nat (parent (nodes t ! nat j))))
                                 - ts ! nat (age (nodes t ! nat j))
                            else 0),
      get_num_leaves = (\<lambda>t. 3), is_leaf = (\<lambda>n. child n = [-1, -1]),
      copy_tree = (\<lambda>t c. t), add_tree_branch = (\<lambda>t n tm. t),
      remove_tree_branch = (\<lambda>t l. t)\<rparr>
     [\<lparr>node = 0, time = 0\<rparr>, \<lparr>node = 0, time = 1\<rparr>,
      \<lparr>node = 3, time = 2\<rparr>]
     \<lparr>nnodes = 5, root_t = 4,
      nodes = [\<lparr>parent = 3, child = [-1, -1], age = 0\<rparr>,
               \<lparr>parent = 3, child = [-1, -1], age = 0\<rparr>,
               \<lparr>parent = 4, child = [-1, -1], age = 0\<rparr>,
               \<lparr>parent = 4, child = [0, 1], age = 1\<rparr>,
               \<lparr>parent = -1, child = [2, 3], age = 5\<rparr>]\<rparr>
     [''AA'', ''AC'', ''AA''] 3 2
     \<lparr>ntimes_m = 4, times_m = [0, 1, 2, 3], mu = 1, mintime = 1/10, removed_root_time = 5\<rparr> 0 [[0, 0, 0], [0, 0, 0]] = Inr emit3"
      and cells: "\<forall>j<length [\<lparr>node = 0, time = 0\<rparr>, \<lparr>node = 0, time = 1\<rparr>,
      \<lparr>node = 3, time = 2\<rparr>]. \<forall>i<nat 2. invariant_site [''AA'', ''AC'', ''AA''] 3 i = Inr True \<longrightarrow>
              cell emit3 (int i) (int j)
                = Inr (invariant_lk \<lparr>ntimes_m = 4, times_m = [0, 1, 2, 3], mu = 1, mintime = 1/10, removed_root_time = 5\<rparr>
                         (internal_tree_length \<lparr>dna2int = (\<lambda>c. if c = CHR ''A'' then 0 else if c = CHR ''C'' then 1
                     else if c = CHR ''G'' then 2 else if c = CHR ''T'' then 3 else -1),
      get_postorder = (\<lambda>t. [0, 1, 2, 3, 4]), get_sibling = (\<lambda>t j. if j = 0 then 1 else 0),
      get_dist = (\<lambda>t j ts. if parent (nodes t ! nat j) \<noteq> -1
                            then ts ! nat (age (nodes t ! nat (parent (nodes t ! nat j))))
                                 - ts ! nat (age (nodes t ! nat j))
                            else 0),
      get_num_leaves = (\<lambda>t. 3), is_leaf = (\<lambda>n. child n = [-1, -1]),
      copy_tree = (\<lambda>t c. t), add_tree_branch = (\<lambda>t n tm. t),
      remove_tree_branch = (\<lambda>t l. t)\<rparr>
                            \<lparr>nnodes = 5, root_t = 4,
      nodes = [\<lparr>parent = 3, child = [-1, -1], age = 0\<rparr>,
               \<lparr>parent = 3, child = [-1, -1], age = 0\<rparr>,
               \<lparr>parent = 4, child = [-1, -1], age = 0\<rparr>,
               \<lparr>parent = 4, child = [0, 1], age = 1\<rparr>,
               \<lparr>parent = -1, child = [2, 3], age = 5\<rparr>]\<rparr>
                            \<lparr>ntimes_m = 4, times_m = [0, 1, 2, 3], mu = 1, mintime = 1/10, removed_root_time = 5\<rparr> (Bin 3 (Tip 0) (Tip 1)) (Tip 2) ([\<lparr>node = 0, time = 0\<rparr>, \<lparr>node = 0, time = 1\<rparr>,
      \<lparr>node = 3, time = 2\<rparr>] ! j)))"
    by blast
  from cells [rule_format, of 0 0] v3
  have c0: "cell emit3 (int 0) (int 0) = Inr (exp (- (21 / 10)) / 4)"
    by (simp add: ex_internal_lengths invariant_lk_def)
  from cells [rule_format, of 1 0] v3
  have c1: "cell emit3 (int 0) (int 1) = Inr (exp (- 3) / 4)"
    by (simp add: ex_internal_lengths invariant_lk_def)
  from cells [rule_format, of 2 0] v3
  have c2: "cell emit3 (int 0) (int 2) = Inr (exp (- 5) / 4)"
    by (simp add: ex_internal_lengths invariant_lk_def)
  from c c0 c1 c2 have "\<exists>emit3. calc_emissions_internal 3
     \<lparr>dna2int = (\<lambda>c. if c = CHR ''A'' then 0 else if c = CHR ''C'' then 1
                     else if c = CHR ''G'' then 2 else if c = CHR ''T'' then 3 else -1),
      get_postorder = (\<lambda>t. [0, 1, 2, 3, 4]), get_sibling = (\<lambda>t j. if j = 0 then 1 else 0),
      get_dist = (\<lambda>t j ts. if parent (nodes t ! nat j) \<noteq> -1
                            then ts ! nat (age (nodes t ! nat (parent (nodes t ! nat j))))
                                 - ts ! nat (age (nodes t ! nat j))
                            else 0),
      get_num_leaves = (\<lambda>t. 3), is_leaf = (\<lambda>n. child n = [-1, -1]),
      copy_tree = (\<lambda>t c. t), add_tree_branch = (\<lambda>t n tm. t),
      remove_tree_branch = (\<lambda>t l. t)\<rparr>
     [\<lparr>node = 0, time = 0\<rparr>, \<lparr>node = 0, time = 1\<rparr>,
      \<lparr>node = 3, time = 2\<rparr>]
     \<lparr>nnodes = 5, root_t = 4,
      nodes = [\<lparr>parent = 3, child = [-1, -1], age = 0\<rparr>,
               \<lparr>parent = 3, child = [-1, -1], age = 0\<rparr>,
               \<lparr>parent = 4, child = [-1, -1], age = 0\<rparr>,
               \<lparr>parent = 4, child = [0, 1], age = 1\<rparr>,
               \<lparr>parent = -1, child = [2, 3], age = 5\<rparr>]\<rparr>
     [''AA'', ''AC'', ''AA''] 3 2
     \<lparr>ntimes_m = 4, times_m = [0, 1, 2, 3], mu = 1, mintime = 1/10, removed_root_time = 5\<rparr> 0 [[0, 0, 0], [0, 0, 0]] = Inr emit3
     \<and> cell emit3 (int 0) (int 0) = Inr (exp (- (21 / 10)) / 4)
     \<and> cell emit3 (int 0) (int 1) = Inr (exp (- 3) / 4)
     \<and> cell emit3 (int 0) (int 2) = Inr (exp (- 5) / 4)" by blast
  with a b ex_likelihood_sites ex_calc_emissions ex_internal_wf f
  show ?thesis by blast
qed

text \<open>
  Claim C4 as stated fails: on a tree for internal threading whose three sequences are
  all \<open>A\<close> at the single site, the two states on node 0 at the times 0 and 1 get different
  emissions at this invariant site.
\<close>

theorem invariant_column_not_constant:
  "calc_emissions_internal 8
     \<lparr>dna2int = (\<lambda>c. if c = CHR ''A'' then 0 else if c = CHR ''C'' then 1
                     else if c = CHR ''G'' then 2 else if c = CHR ''T'' then 3 else -1),
      get_postorder = (\<lambda>t. [0, 1, 2, 3, 4]), get_sibling = (\<lambda>t j. if j = 0 then 1 else 0),
      get_dist = (\<lambda>t j ts. if parent (nodes t ! nat j) \<noteq> -1
                            then ts ! nat (age (nodes t ! nat (parent (nodes t ! nat j))))
                                 - ts ! nat (age (nodes t ! nat j))
                            else 0),
      get_num_leaves = (\<lambda>t. 3), is_leaf = (\<lambda>n. child n = [-1, -1]),
      copy_tree = (\<lambda>t c. t), add_tree_branch = (\<lambda>t n tm. t),
      remove_tree_branch = (\<lambda>t l. t)\<rparr>
     [\<lparr>node = 0, time = 0\<rparr>, \<lparr>node = 0, time = 1\<rparr>]
     \<lparr>nnodes = 5, root_t = 4,
      nodes = [\<lparr>parent = 3, child = [-1, -1], age = 0\<rparr>,
               \<lparr>parent = 3, child = [-1, -1], age = 0\<rparr>,
               \<lparr>parent = 4, child = [-1, -1], age = 0\<rparr>,
               \<lparr>parent = 4, child = [0, 1], age = 1\<rparr>,
               \<lparr>parent = -1, child = [2, 3], age = 5\<rparr>]\<rparr>
     [''A'', ''A'', ''A''] 3 1
     \<lparr>ntimes_m = 4, times_m = [0, 1, 2, 3], mu = 1, mintime = 1/10, removed_root_time = 5\<rparr>
     0 [[0, 0]]
   = Inr [[exp (- (21 / 10)) / 4, exp (- 3) / 4]]
   \<and> invariant_site [''A'', ''A'', ''A''] 3 0 = Inr True
   \<and> exp (- (21 / 10)) / 4 \<noteq> (exp (- 3) / 4 :: real)"
  using ex_calc_emissions_internal
  by (simp add: invariant_site_def rd_def eval_nat_numeral)




lemma ex_zero_mass:
  "arghmm_forward_block 
      (\<lparr>nnodes = 5, root_t = 4, nodes = [\<lparr>parent = 4, child = [-1, -1], age = 1\<rparr>, \<lparr>parent = 3, child = [-1, -1], age = 0\<rparr>, \<lparr>parent = 3, child = [-1, -1], age = 0\<rparr>, \<lparr>parent = 4, child = [1, 2], age = 1\<rparr>, \<lparr>parent = -1, child = [0, 3], age = 3\<rparr>]\<rparr>) 4 2 
      [\<lparr>node = 1, time = 1\<rparr>, \<lparr>node = 2, time = 1\<rparr>, \<lparr>node = 3, time = 1\<rparr>, \<lparr>node = 3, time = 2\<rparr>] 
      (\<lparr>internal = True, nstates = 4, get_time = (\<lambda>a b c m s. if s then of_int (m + 2) else if a = b then 2 else 1), get = (\<lambda>t s j k. if node (s ! nat j) = node (s ! nat k) then 3 else if time (s ! nat j) = time (s ! nat k) then 2 else 1), get_log = (\<lambda>t s j k. Fin 0)\<rparr>) [[], [0, 0, 0, 0]] 0 [[1/4, 1/4, 1/4, 1/4], [0, 0, 0, 0]] 0 = Inl NotFinite"
  "arghmm_forward_block_slow 
      (\<lparr>nnodes = 5, root_t = 4, nodes = [\<lparr>parent = 4, child = [-1, -1], age = 1\<rparr>, \<lparr>parent = 3, child = [-1, -1], age = 0\<rparr>, \<lparr>parent = 3, child = [-1, -1], age = 0\<rparr>, \<lparr>parent = 4, child = [1, 2], age = 1\<rparr>, \<lparr>parent = -1, child = [0, 3], age = 3\<rparr>]\<rparr>) 4 2 
      [\<lparr>node = 1, time = 1\<rparr>, \<lparr>node = 2, time = 1\<rparr>, \<lparr>node = 3, time = 1\<rparr>, \<lparr>node = 3, time = 2\<rparr>] 
      (\<lparr>internal = True, nstates = 4, get_time = (\<lambda>a b c m s. if s then of_int (m + 2) else if a = b then 2 else 1), get = (\<lambda>t s j k. if node (s ! nat j) = node (s ! nat k) then 3 else if time (s ! nat j) = time (s ! nat k) then 2 else 1), get_log = (\<lambda>t s j k. Fin 0)\<rparr>) [[], [0, 0, 0, 0]] 0 [[1/4, 1/4, 1/4, 1/4], [0, 0, 0, 0]] 0 = Inl NotFinite"
  by (simp_all add: arghmm_forward_block_def block_special_def root_child_def make_tmatrix2_def
      tmatrix2_cell_def node_age_def branch_ages_def lookup_def states_maxtime_def
      make_tmatrix_def forward_block_step_def forward_block_column_def forward_block_fill_def
      fgroups_step_def tmatrix_fgroups_cell_def fill_column_step_def same_branch_step_def
      arghmm_forward_block_slow_def forward_block_slow_step_def
      forward_block_slow_column_def slow_column_step_def slow_sum_step_def make_transmat_def
      normalize_col_def rd_def wr_def eval_nat_numeral)




end
